theory Spec2Isabelle
  imports Main "HOL-Library.Multiset"
begin

section \<open>The bulk rename and bulk remove commands of CliFM\<close>

text \<open>
  A shallow embedding of \<^verbatim>\<open>bulk_rename.c\<close> and \<^verbatim>\<open>bulk_remove.c\<close>. The operating
  system and the collaborators of the two commands (the editor, \<^verbatim>\<open>renameat\<close>,
  \<^verbatim>\<open>launch_execv\<close>, \<^verbatim>\<open>remove_files\<close>, \<^verbatim>\<open>lstat\<close>, ...) are parameters: records of
  functions and answers. The files of the user are an abstract world \<open>'w\<close> that only
  \<^verbatim>\<open>renameat\<close>, \<^verbatim>\<open>launch_execv\<close> and \<^verbatim>\<open>remove_files\<close> can change. Every call
  of a collaborator that acts on the outside and every line printed is appended to a log
  of events, in program order.
\<close>

subsection \<open>Constants of the C library\<close>

definition NUL :: char where
  "NUL = CHR 0x00"

definition NL :: char where
  "NL = CHR 0x0A"

text \<open>\<^verbatim>\<open>limits.h\<close> and \<^verbatim>\<open>errno.h\<close> of Linux.\<close>

definition PATH_MAX :: nat where
  "PATH_MAX = 4096"

definition EXIT_SUCCESS :: int where
  "EXIT_SUCCESS = 0"

definition EXIT_FAILURE :: int where
  "EXIT_FAILURE = 1"

definition ENOENT :: int where
  "ENOENT = 2"

definition EXDEV :: int where
  "EXDEV = 18"

definition ENOTDIR :: int where
  "ENOTDIR = 20"

subsection \<open>C strings and line input\<close>

text \<open>
  A \<open>string\<close> that stands for a \<^verbatim>\<open>char *\<close> of the program (an argument, a file
  name, a path) holds the bytes before the terminator. The content of a file is a byte
  sequence; a buffer filled from it is read as a C string: \<open>deref\<close> is \<^verbatim>\<open>*line\<close>
  and \<open>cstr\<close> the string that \<^verbatim>\<open>strlen\<close> and \<^verbatim>\<open>strcmp\<close> see.
\<close>

definition deref :: "string \<Rightarrow> char" where
  "deref buf = (case buf of [] \<Rightarrow> NUL | c # _ \<Rightarrow> c)"

definition cstr :: "string \<Rightarrow> string" where
  "cstr buf = takeWhile (\<lambda>c. c \<noteq> NUL) buf"

text \<open>
  \<^verbatim>\<open>fgets(line, size, fp)\<close> stores at most \<open>size - 1\<close> bytes and stops after a
  newline: \<open>fgets_buf (size - 1) s\<close> is what one call reads from the remaining content
  \<open>s\<close>, and \<open>fgets_all size s\<close> the buffers of the successive calls of
  \<^verbatim>\<open>while (fgets(line, size, fp))\<close> until it returns \<^verbatim>\<open>NULL\<close>.
\<close>

fun fgets_buf :: "nat \<Rightarrow> string \<Rightarrow> string" where
  "fgets_buf 0 s = []"
| "fgets_buf (Suc k) [] = []"
| "fgets_buf (Suc k) (c # cs) = (if c = NL then [c] else c # fgets_buf k cs)"

function fgets_all :: "nat \<Rightarrow> string \<Rightarrow> string list" where
  "fgets_all sz s =
     (if s = [] \<or> sz < 2 then []
      else fgets_buf (sz - 1) s # fgets_all sz (drop (length (fgets_buf (sz - 1) s)) s))"
  by pat_completeness auto

termination
proof (relation "measure (\<lambda>(sz, s). length s)")
  show "wf (measure (\<lambda>(sz, s). length s))"
    by simp
next
  fix sz :: nat and s :: string
  assume a: "\<not> (s = [] \<or> sz < 2)"
  then obtain k c cs where "sz - 1 = Suc k" and "s = c # cs"
    by (cases s; cases "sz - 1") auto
  then have "0 < length (fgets_buf (sz - 1) s)"
    by simp
  with a show "((sz, drop (length (fgets_buf (sz - 1) s)) s), (sz, s))
      \<in> measure (\<lambda>(sz, s). length s)"
    by simp
qed

declare fgets_all.simps [simp del]

text \<open>
  \<^verbatim>\<open>getline\<close> reads a whole line, the newline included, whatever its length:
  \<open>getline_all s\<close> are the lines of \<^verbatim>\<open>while ((len = getline(&line, &size, fp)) > 0)\<close>.
\<close>

fun getline_buf :: "string \<Rightarrow> string" where
  "getline_buf [] = []"
| "getline_buf (c # cs) = (if c = NL then [c] else c # getline_buf cs)"

function getline_all :: "string \<Rightarrow> string list" where
  "getline_all s =
     (if s = [] then []
      else getline_buf s # getline_all (drop (length (getline_buf s)) s))"
  by pat_completeness auto

termination
proof (relation "measure length")
  show "wf (measure length)"
    by simp
next
  fix s :: string
  assume "s \<noteq> []"
  then obtain c cs where "s = c # cs"
    by (cases s) auto
  then have "0 < length (getline_buf s)"
    by simp
  with \<open>s \<noteq> []\<close> show "(drop (length (getline_buf s)) s, s) \<in> measure length"
    by simp
qed

declare getline_all.simps [simp del]

subsection \<open>Events and collaborators\<close>

datatype event =
    Puts string
  | Puts_usage string
  | Xerror string "string list"
  | Err_warn string "string list"
  | Press_any_key
  | Print_change string string
  | Rl_get_y_or_n string
  | Renameat string string
  | Launch_execv "string list"
  | Open_file string
  | Unlinkat string
  | Unlink string
  | Get_sel_files
  | Reload_dirlist
  | Print_reload_msg nat
  | Remove_files "string list"

text \<open>
  The collaborators that act on the files of the user. \<open>renameat\<close> returns \<open>0\<close> when
  the call succeeds and the \<^verbatim>\<open>errno\<close> it sets when it fails; \<open>launch_execv\<close> and
  \<open>remove_files\<close> return their exit status.
\<close>

record 'w sys =
  renameat :: "'w \<Rightarrow> string \<Rightarrow> string \<Rightarrow> int \<times> 'w"
  launch_execv :: "'w \<Rightarrow> string list \<Rightarrow> int \<times> 'w"
  remove_files :: "'w \<Rightarrow> string list \<Rightarrow> int \<times> 'w"
  is_file_in_cwd :: "string \<Rightarrow> bool"

subsection \<open>bulk\_rename.c\<close>

text \<open>
  \<open>args\<close> is the argument vector without its \<^verbatim>\<open>NULL\<close> terminator:
  \<^verbatim>\<open>args[length args]\<close> is \<^verbatim>\<open>NULL\<close>, which is \<open>None\<close> here. A read past
  the terminator, which C leaves undefined, gives \<open>None\<close> too; \<^verbatim>\<open>bulk_rename\<close>
  pairs at most \<open>total_input\<close> lines, fewer than there are arguments.
\<close>

definition arg_at :: "string list \<Rightarrow> nat \<Rightarrow> string option" where
  "arg_at args i = (if i < length args then Some (args ! i) else None)"

definition BULK_RENAME_TMP_FILE_HEADER :: string where
  "BULK_RENAME_TMP_FILE_HEADER =
     ''# CliFM - Rename files in bulk'' @ [NL] @
     ''# Edit file names, save, and quit the editor (you will be'' @ [NL] @
     ''# asked for confirmation)'' @ [NL] @
     ''# Just quit the editor without any edit to cancel the operation'' @ [NL] @ [NL]"

text \<open>
  \<^verbatim>\<open>rename_file\<close>: the trailing slash of \<^verbatim>\<open>newpath\<close> is cut in place, so the
  caller sees the trimmed path too.
\<close>

definition trim_slash :: "string \<Rightarrow> string" where
  "trim_slash newpath =
     (if length newpath > 1 \<and> last newpath = CHR ''/'' then butlast newpath else newpath)"

definition rename_file :: "'w sys \<Rightarrow> string \<Rightarrow> string \<Rightarrow> 'w \<times> event list
    \<Rightarrow> int \<times> 'w \<times> event list" where
  "rename_file sys oldpath newpath0 s =
     (let newpath = trim_slash newpath0;
          (ret, w1) = renameat sys (fst s) oldpath newpath;
          log1 = snd s @ [Renameat oldpath newpath]
      in if ret = 0 then (0, w1, log1)
         else if ret \<noteq> EXDEV
         then (ret, w1, log1 @ [Xerror ''br: Cannot rename '%s' to '%s': %s'' [oldpath, newpath]])
         else (let cmd = [''mv'', ''--'', oldpath, newpath];
                   (status, w2) = launch_execv sys w1 cmd
               in (status, w2, log1 @ [Launch_execv cmd])))"

text \<open>
  The answers of the environment to \<^verbatim>\<open>bulk_rename\<close>: the temporary file that
  \<^verbatim>\<open>mkstemp\<close> creates (if any), whether \<^verbatim>\<open>fdopen\<close> and \<^verbatim>\<open>open_fread\<close> succeed and
  the \<^verbatim>\<open>errno\<close> they leave, the validation of an argument, the modification time after
  the names are written, the exit status of \<^verbatim>\<open>open_file\<close> (the editor), the content
  of the document when it is read again and the modification time \<^verbatim>\<open>fstat\<close> then
  reports (if it succeeds), the reply to the confirmation prompt, the result of
  \<^verbatim>\<open>unlinkat\<close>/\<^verbatim>\<open>unlink\<close> on the temporary file (\<open>0\<close>, or the \<^verbatim>\<open>errno\<close> of the
  failure), \<^verbatim>\<open>conf.autols\<close>, and \<^verbatim>\<open>sel_n > 0 && have_sel_files()\<close>.
\<close>

record br_env =
  br_mkstemp :: "string option"
  br_fdopen_ok :: bool
  br_open_fread_ok :: bool
  br_open_errno :: int
  br_unescape_str :: "string \<Rightarrow> string option"
  br_realpath :: "string \<Rightarrow> string option"
  br_lstat_ok :: "string \<Rightarrow> bool"
  br_mtime_bfr :: int
  br_open_file :: int
  br_edited :: string
  br_fstat :: "int option"
  br_answer :: bool
  br_unlinkat :: int
  br_autols :: bool
  br_have_sel :: bool

definition err_open_tmp_file :: "br_env \<Rightarrow> string \<Rightarrow> int \<times> event list" where
  "err_open_tmp_file env file =
     (if br_unlinkat env \<noteq> 0
      then (br_unlinkat env,
            [Xerror ''br: open: '%s': %s'' [file], Unlinkat file, Xerror ''br: unlink: '%s': %s'' [file]])
      else (br_open_errno env, [Xerror ''br: open: '%s': %s'' [file], Unlinkat file]))"

text \<open>
  The body of the loop of \<^verbatim>\<open>write_renfiles_to_tmp\<close> for one argument: the value
  \<^verbatim>\<open>(*args)[i]\<close> is left with, whether the name is written to the document, and the
  diagnostics.
\<close>

definition dot_relative :: "string \<Rightarrow> bool" where
  "dot_relative a = (take 2 a = ''./'' \<or> take 3 a = ''../'')"

definition prepare_arg :: "br_env \<Rightarrow> string \<Rightarrow> string \<times> bool \<times> event list" where
  "prepare_arg env a =
     (case (if CHR 0x5C \<in> set a then br_unescape_str env a else Some a) of
        None \<Rightarrow> (a, False, [Xerror ''br: '%s': Error unescaping file name'' [a], Press_any_key])
      | Some a1 \<Rightarrow>
          (case (if dot_relative a1 then br_realpath env a1 else Some a1) of
             None \<Rightarrow> (a1, False, [Xerror ''br: '%s': %s'' [a1], Press_any_key])
           | Some a2 \<Rightarrow>
               if br_lstat_ok env a2 then (a2, True, [])
               else (a2, False, [Xerror ''br: '%s': %s'' [a2], Press_any_key])))"

text \<open>
  The loop \<^verbatim>\<open>for (i = 1; (*args)[i]; i++)\<close>: \<open>seen\<close> are the arguments already
  visited (\<^verbatim>\<open>args[0]\<close> first), as the loop leaves them.
\<close>

fun write_renfiles_loop :: "br_env \<Rightarrow> string list \<Rightarrow> string list \<times> string \<times> nat \<times> event list
    \<Rightarrow> string list \<times> string \<times> nat \<times> event list" where
  "write_renfiles_loop env [] acc = acc"
| "write_renfiles_loop env (a # rest) (seen, doc, total_input, log) =
     (case prepare_arg env a of
        (a', True, msgs) \<Rightarrow>
          write_renfiles_loop env rest (seen @ [a'], doc @ a' @ [NL], Suc total_input, log @ msgs)
      | (a', False, msgs) \<Rightarrow>
          write_renfiles_loop env rest (seen @ [a'], doc, total_input, log @ msgs))"

text \<open>
  \<^verbatim>\<open>write_renfiles_to_tmp\<close> returns its status, the arguments as it leaves them, the
  document written, \<^verbatim>\<open>*mtime_bfr\<close> and \<^verbatim>\<open>*total_input\<close> (both 0 at the call, the
  first set only on success) and the events.
\<close>

definition write_renfiles_to_tmp :: "br_env \<Rightarrow> string list \<Rightarrow> string
    \<Rightarrow> int \<times> string list \<times> string \<times> int \<times> nat \<times> event list" where
  "write_renfiles_to_tmp env args bulk_file =
     (if \<not> br_fdopen_ok env
      then (fst (err_open_tmp_file env bulk_file), args, [], 0, 0, snd (err_open_tmp_file env bulk_file))
      else
        (case write_renfiles_loop env (tl args) (take 1 args, BULK_RENAME_TMP_FILE_HEADER, 0, []) of
           (args', doc, total_input, log) \<Rightarrow>
             if total_input = 0
             then (EXIT_FAILURE, args', doc, 0, total_input,
                   log @ [Unlinkat bulk_file] @
                   (if br_unlinkat env \<noteq> 0 then [Xerror ''br: unlink: '%s': %s'' [bulk_file]] else []))
             else (EXIT_SUCCESS, args', doc, br_mtime_bfr env, total_input, log)))"

text \<open>\<^verbatim>\<open>!*line || *line == '\n' || *line == '#'\<close>\<close>

definition skip_line :: "string \<Rightarrow> bool" where
  "skip_line line = (deref line = NUL \<or> deref line = NL \<or> deref line = CHR ''#'')"

text \<open>
  \<^verbatim>\<open>len = strlen(line); if (line[len - 1] == '\n') line[len - 1] = '\0';\<close> (the
  program only gets here with \<^verbatim>\<open>*line\<close> not \<^verbatim>\<open>NUL\<close>, so \<open>len > 0\<close>).
\<close>

definition chomp :: "string \<Rightarrow> string" where
  "chomp line = (if cstr line \<noteq> [] \<and> last (cstr line) = NL then butlast (cstr line) else cstr line)"

fun count_modified_loop :: "string list \<Rightarrow> string list \<Rightarrow> nat \<Rightarrow> nat \<times> event list
    \<Rightarrow> nat \<times> event list" where
  "count_modified_loop args [] i acc = acc"
| "count_modified_loop args (line # rest) i (modified, log) =
     (if skip_line line then count_modified_loop args rest i (modified, log)
      else
        (case arg_at args i of
           Some a \<Rightarrow>
             if a \<noteq> chomp line
             then count_modified_loop args rest (Suc i)
                    (Suc modified, log @ [Print_change a (chomp line)])
             else count_modified_loop args rest (Suc i) (modified, log)
         | None \<Rightarrow> count_modified_loop args rest (Suc i) (modified, log)))"

definition count_modified_names :: "string list \<Rightarrow> string \<Rightarrow> nat \<times> event list" where
  "count_modified_names args content =
     (case count_modified_loop args (fgets_all PATH_MAX content) 1 (0, []) of
        (modified, log) \<Rightarrow>
          if modified = 0 then (0, log @ [Puts ''br: Nothing to do'']) else (modified, log))"

definition open_bulk_file :: "br_env \<Rightarrow> string \<Rightarrow> int \<times> event list" where
  "open_bulk_file env bulk_file =
     (if br_open_file env \<noteq> EXIT_SUCCESS
      then (br_open_file env,
            [Open_file bulk_file, Xerror ''br: %s'' [], Unlink bulk_file] @
            (if br_unlinkat env \<noteq> 0 then [Xerror ''br: unlink: '%s': %s'' [bulk_file]] else []))
      else (EXIT_SUCCESS, [Open_file bulk_file]))"

fun count_lines_loop :: "string list \<Rightarrow> nat \<Rightarrow> nat" where
  "count_lines_loop [] total_modified = total_modified"
| "count_lines_loop (tmp_line # rest) total_modified =
     (if skip_line tmp_line then count_lines_loop rest total_modified
      else count_lines_loop rest (Suc total_modified))"

definition check_line_mismatch :: "string \<Rightarrow> nat \<Rightarrow> int \<times> event list" where
  "check_line_mismatch content total_input =
     (if total_input \<noteq> count_lines_loop (fgets_all PATH_MAX content) 0
      then (EXIT_FAILURE, [Xerror ''br: Line mismatch in temporary file'' []])
      else (EXIT_SUCCESS, []))"

text \<open>The variables of \<^verbatim>\<open>rename_bulk_files\<close>, with the world and the log.\<close>

record 'w rename_state =
  exit_status :: int
  is_cwd :: bool
  renamed :: nat
  world :: 'w
  events :: "event list"

fun rename_bulk_loop :: "'w sys \<Rightarrow> bool \<Rightarrow> nat \<Rightarrow> string list \<Rightarrow> string list \<Rightarrow> nat
    \<Rightarrow> 'w rename_state \<Rightarrow> 'w rename_state" where
  "rename_bulk_loop sys autols modified args [] i st = st"
| "rename_bulk_loop sys autols modified args (line # rest) i st =
     (if skip_line line then rename_bulk_loop sys autols modified args rest i st
      else
        (case arg_at args i of
           None \<Rightarrow> rename_bulk_loop sys autols modified args rest (Suc i) st
         | Some a \<Rightarrow>
             if a = chomp line then rename_bulk_loop sys autols modified args rest (Suc i) st
             else
               (case rename_file sys a (chomp line) (world st, events st) of
                  (ret, w1, log1) \<Rightarrow>
                    if ret \<noteq> 0
                    then rename_bulk_loop sys autols modified args rest (Suc i)
                           (st\<lparr>exit_status := ret, world := w1,
                               events := log1 @ (if autols \<and> modified > 1 then [Press_any_key] else [])\<rparr>)
                    else rename_bulk_loop sys autols modified args rest (Suc i)
                           (st\<lparr>is_cwd := is_cwd st \<or> is_file_in_cwd sys a
                                          \<or> is_file_in_cwd sys (trim_slash (chomp line)),
                               renamed := Suc (renamed st), world := w1, events := log1\<rparr>))))"

definition rename_bulk_files :: "'w sys \<Rightarrow> bool \<Rightarrow> string list \<Rightarrow> string \<Rightarrow> nat
    \<Rightarrow> 'w \<times> event list \<Rightarrow> 'w rename_state" where
  "rename_bulk_files sys autols args content modified s =
     rename_bulk_loop sys autols modified args (fgets_all PATH_MAX content) 1
       \<lparr>exit_status = EXIT_SUCCESS, is_cwd = False, renamed = 0, world = fst s, events = snd s\<rparr>"

text \<open>
  Modelled from the spec: the macro \<^verbatim>\<open>IS_HELP\<close> of \<^verbatim>\<open>helpers.h\<close>, which is not among
  the sources (``\<^verbatim>\<open>argv[1] == "--help"\<close> or equivalent triggers a usage print'').
\<close>

definition IS_HELP :: "string \<Rightarrow> bool" where
  "IS_HELP s = (s = ''-h'' \<or> s = ''--help'')"

text \<open>The label \<^verbatim>\<open>ERROR\<close> of \<^verbatim>\<open>bulk_rename\<close>.\<close>

definition bulk_rename_error :: "br_env \<Rightarrow> string \<Rightarrow> int \<Rightarrow> int \<times> event list" where
  "bulk_rename_error env bulk_file exit_status0 =
     (if br_unlinkat env \<noteq> 0
      then (br_unlinkat env, [Unlinkat bulk_file, Xerror ''br: unlinkat: '%s': %s'' [bulk_file]])
      else (exit_status0, [Unlinkat bulk_file]))"

definition bulk_rename :: "'w sys \<Rightarrow> br_env \<Rightarrow> string list \<Rightarrow> 'w \<Rightarrow> int \<times> 'w \<times> event list" where
  "bulk_rename sys env args w =
     (case arg_at args 1 of
        None \<Rightarrow> (EXIT_SUCCESS, w, [Puts_usage ''BULK_USAGE''])
      | Some a1 \<Rightarrow>
     if IS_HELP a1 then (EXIT_SUCCESS, w, [Puts_usage ''BULK_USAGE''])
     else
     (case br_mkstemp env of
        None \<Rightarrow> (EXIT_FAILURE, w, [Xerror ''br: mkstemp: '%s': %s'' []])
      | Some bulk_file \<Rightarrow>
     (case write_renfiles_to_tmp env args bulk_file of
        (ret, args', written, mtime_bfr, total_input, log1) \<Rightarrow>
     if ret \<noteq> EXIT_SUCCESS then (ret, w, log1)
     else
     (case open_bulk_file env bulk_file of
        (ret2, log2) \<Rightarrow>
     if ret2 \<noteq> EXIT_SUCCESS then (ret2, w, log1 @ log2)
     else if \<not> br_open_fread_ok env
     then (fst (err_open_tmp_file env bulk_file), w,
           log1 @ log2 @ snd (err_open_tmp_file env bulk_file))
     else
     (case br_fstat env of
        None \<Rightarrow>
          (fst (bulk_rename_error env bulk_file EXIT_SUCCESS), w,
           log1 @ log2 @ [Xerror ''br: '%s': %s'' [bulk_file]]
             @ snd (bulk_rename_error env bulk_file EXIT_SUCCESS))
      | Some mtime \<Rightarrow>
     if mtime_bfr = mtime
     then (fst (bulk_rename_error env bulk_file EXIT_SUCCESS), w,
           log1 @ log2 @ [Puts ''br: Nothing to do'']
             @ snd (bulk_rename_error env bulk_file EXIT_SUCCESS))
     else if fst (check_line_mismatch (br_edited env) total_input) \<noteq> EXIT_SUCCESS
     then (fst (bulk_rename_error env bulk_file EXIT_FAILURE), w,
           log1 @ log2 @ snd (check_line_mismatch (br_edited env) total_input)
             @ snd (bulk_rename_error env bulk_file EXIT_FAILURE))
     else
     (case count_modified_names args' (br_edited env) of
        (modified, log3) \<Rightarrow>
     if \<not> br_answer env
     then (fst (bulk_rename_error env bulk_file EXIT_SUCCESS), w,
           log1 @ log2 @ log3 @ [Rl_get_y_or_n ''Continue? [y/n] '']
             @ snd (bulk_rename_error env bulk_file EXIT_SUCCESS))
     else
     (let st = rename_bulk_files sys (br_autols env) args' (br_edited env) modified
                 (w, log1 @ log2 @ log3 @ [Rl_get_y_or_n ''Continue? [y/n] ''])
      in (if br_unlinkat env \<noteq> 0 then br_unlinkat env else exit_status st,
          world st,
          events st @ [Unlinkat bulk_file]
            @ (if br_unlinkat env \<noteq> 0 then [Err_warn ''br: unlink: '%s': %s'' [bulk_file]] else [])
            @ (if br_have_sel env then [Get_sel_files] else [])
            @ (if renamed st > 0 \<and> is_cwd st \<and> br_autols env then [Reload_dirlist] else [])
            @ [Print_reload_msg (renamed st)]))))))))"

subsection \<open>bulk\_remove.c\<close>

text \<open>The entry types of \<^verbatim>\<open>dirent.h\<close>.\<close>

datatype dtype = DT_UNKNOWN | DT_FIFO | DT_CHR | DT_DIR | DT_BLK | DT_REG | DT_LNK | DT_SOCK | DT_WHT

text \<open>
  \<^verbatim>\<open>target == workspaces[cur_ws].path\<close> compares pointers: the target is the current
  directory only when \<^verbatim>\<open>parse_bulk_remove_params\<close> has set it so, whatever the text
  of a directory given by the user.
\<close>

datatype target = Cwd | Dir string

text \<open>
  The answers of the environment to \<^verbatim>\<open>bulk_remove\<close>: the path of the current
  workspace, the cached listing \<^verbatim>\<open>file_info[0..files-1]\<close> (name and type),
  \<^verbatim>\<open>stat\<close> on the first parameter (\<open>None\<close> when it fails, else whether it is a
  directory), whether \<^verbatim>\<open>get_cmd_path\<close> finds a command, the file \<^verbatim>\<open>mkstemp\<close>
  creates, whether \<^verbatim>\<open>open_fwrite\<close> and the two \<^verbatim>\<open>fopen\<close> succeed,
  \<^verbatim>\<open>count_dir\<close>, \<^verbatim>\<open>scandir\<close> with \<^verbatim>\<open>alphasort\<close> (\<open>None\<close> when it returns
  \<open>-1\<close>), the modification times before and after the editor, the exit status of the
  editor, the content of the document after it, and the result of \<^verbatim>\<open>unlinkat\<close>.
\<close>

record rr_env =
  rr_ws_path :: string
  rr_file_info :: "(string \<times> dtype) list"
  rr_stat_isdir :: "string \<Rightarrow> bool option"
  rr_get_cmd_path :: "string \<Rightarrow> bool"
  rr_mkstemp :: "string option"
  rr_open_fwrite_ok :: bool
  rr_open_fwrite_errno :: int
  rr_count_dir :: "string \<Rightarrow> int"
  rr_scandir :: "string \<Rightarrow> (string \<times> dtype) list option"
  rr_scandir_errno :: int
  rr_old_t :: int
  rr_editor_status :: int
  rr_edited :: string
  rr_new_t :: int
  rr_diff_fopen_ok :: bool
  rr_get_fopen_ok :: bool
  rr_unlinkat :: int

definition BULK_RM_TMP_FILE_HEADER :: string where
  "BULK_RM_TMP_FILE_HEADER =
     ''# CliFM - Remove files in bulk'' @ [NL] @
     ''# Remove the files you want to be deleted, save and exit'' @ [NL] @
     ''# Just quit the editor without any edit to cancel the operation'' @ [NL] @ [NL]"

text \<open>
  \<^verbatim>\<open>parse_bulk_remove_params\<close>: an error status with its diagnostics, or the editor
  (\<^verbatim>\<open>app\<close>, if one is named) and the target.
\<close>

definition parse_bulk_remove_params :: "rr_env \<Rightarrow> string option \<Rightarrow> string option
    \<Rightarrow> int \<times> event list + string option \<times> target" where
  "parse_bulk_remove_params env s1 s2 =
     (case s1 of
        None \<Rightarrow> Inr (None, Cwd)
      | Some p1 \<Rightarrow>
          if p1 = [] then Inr (None, Cwd)
          else if rr_stat_isdir env p1 \<noteq> Some True
          then (if \<not> rr_get_cmd_path env p1
                then Inl (if rr_stat_isdir env p1 \<noteq> None then ENOTDIR else ENOENT,
                          [Xerror ''rr: '%s': %s'' [p1]])
                else Inr (Some p1, Cwd))
          else
            (let tgt = (if length p1 > 2 \<and> last p1 = CHR ''/'' then butlast p1 else p1)
             in case s2 of
                  None \<Rightarrow> Inr (None, Dir tgt)
                | Some p2 \<Rightarrow>
                    if p2 = [] then Inr (None, Dir tgt)
                    else if rr_get_cmd_path env p2 then Inr (Some p2, Dir tgt)
                    else Inl (ENOENT, [Xerror ''rr: '%s': %s'' [p2]])))"

text \<open>
  Modelled from the spec: the suffix characters \<^verbatim>\<open>DIR_CHR\<close>, \<^verbatim>\<open>LINK_CHR\<close>,
  \<^verbatim>\<open>SOCK_CHR\<close>, \<^verbatim>\<open>FIFO_CHR\<close> and \<^verbatim>\<open>UNKNOWN_CHR\<close> of \<^verbatim>\<open>helpers.h\<close>, which is
  not among the sources (``\<^verbatim>\<open>/\<close> for directory, \<^verbatim>\<open>@\<close> for symlink, \<^verbatim>\<open>=\<close> for socket,
  \<^verbatim>\<open>|\<close> for fifo, \<^verbatim>\<open>?\<close> for unknown'').
\<close>

definition DIR_CHR :: char where
  "DIR_CHR = CHR ''/''"

definition LINK_CHR :: char where
  "LINK_CHR = CHR ''@''"

definition SOCK_CHR :: char where
  "SOCK_CHR = CHR ''=''"

definition FIFO_CHR :: char where
  "FIFO_CHR = CHR ''|''"

definition UNKNOWN_CHR :: char where
  "UNKNOWN_CHR = CHR ''?''"

text \<open>
  \<^verbatim>\<open>get_file_suffix\<close>, built without \<^verbatim>\<open>SOLARIS_DOORS\<close> and \<^verbatim>\<open>S_IFWHT\<close> (Linux):
  \<open>NUL\<close> is the \<^verbatim>\<open>0\<close> of ``no suffix''.
\<close>

fun get_file_suffix :: "dtype \<Rightarrow> char" where
  "get_file_suffix DT_DIR = DIR_CHR"
| "get_file_suffix DT_REG = NUL"
| "get_file_suffix DT_LNK = LINK_CHR"
| "get_file_suffix DT_SOCK = SOCK_CHR"
| "get_file_suffix DT_FIFO = FIFO_CHR"
| "get_file_suffix DT_UNKNOWN = UNKNOWN_CHR"
| "get_file_suffix _ = NUL"

text \<open>\<^verbatim>\<open>print_file\<close> (with \<^verbatim>\<open>_DIRENT_HAVE_D_TYPE\<close>): the bytes it appends to the document.\<close>

definition print_file :: "string \<Rightarrow> dtype \<Rightarrow> string" where
  "print_file name type =
     (if get_file_suffix type \<noteq> NUL then name @ [get_file_suffix type] @ [NL]
      else name @ [NL])"

text \<open>
  Modelled from the spec: the macro \<^verbatim>\<open>SELFORPARENT\<close> of \<^verbatim>\<open>helpers.h\<close>, which is not
  among the sources (the entries \<^verbatim>\<open>.\<close> and \<^verbatim>\<open>..\<close>).
\<close>

definition SELFORPARENT :: "string \<Rightarrow> bool" where
  "SELFORPARENT n = (n = ''.'' \<or> n = ''..'')"

fun print_scan_loop :: "(string \<times> dtype) list \<Rightarrow> string \<Rightarrow> string" where
  "print_scan_loop [] doc = doc"
| "print_scan_loop ((d_name, d_type) # rest) doc =
     (if SELFORPARENT d_name then print_scan_loop rest doc
      else print_scan_loop rest (doc @ print_file d_name d_type))"

fun print_listing_loop :: "(string \<times> dtype) list \<Rightarrow> string \<Rightarrow> string" where
  "print_listing_loop [] doc = doc"
| "print_listing_loop ((name, type) # rest) doc =
     print_listing_loop rest (doc @ print_file name type)"

text \<open>
  \<^verbatim>\<open>write_files_to_tmp\<close> returns its status, the document written, the entries of
  \<^verbatim>\<open>scandir\<close> (\<^verbatim>\<open>*a\<close>, with \<^verbatim>\<open>*n\<close> their number; empty for the current directory)
  and the events.
\<close>

definition write_files_to_tmp :: "rr_env \<Rightarrow> target \<Rightarrow> string
    \<Rightarrow> int \<times> string \<times> (string \<times> dtype) list \<times> event list" where
  "write_files_to_tmp env target tmp_file =
     (if \<not> rr_open_fwrite_ok env
      then (rr_open_fwrite_errno env, [], [], [Xerror ''%s: rr: fopen: '%s': %s'' [tmp_file]])
      else
        (case target of
           Cwd \<Rightarrow>
             (EXIT_SUCCESS, print_listing_loop (rr_file_info env) BULK_RM_TMP_FILE_HEADER, [], [])
         | Dir t \<Rightarrow>
             if rr_count_dir env t \<le> 2
             then (EXIT_FAILURE, BULK_RM_TMP_FILE_HEADER, [], [Xerror ''%s: '%s': Directory empty'' [t]])
             else
               (case rr_scandir env t of
                  None \<Rightarrow> (rr_scandir_errno env, BULK_RM_TMP_FILE_HEADER, [], [Xerror ''rr: '%s': %s'' [t]])
                | Some a \<Rightarrow> (EXIT_SUCCESS, print_scan_loop a BULK_RM_TMP_FILE_HEADER, a, []))))"

definition open_tmp_file :: "rr_env \<Rightarrow> string \<Rightarrow> string option \<Rightarrow> int \<times> event list" where
  "open_tmp_file env tmp_file app =
     (if app = None \<or> app = Some []
      then (if rr_editor_status env = EXIT_SUCCESS then (EXIT_SUCCESS, [Open_file tmp_file])
            else (rr_editor_status env,
                  [Open_file tmp_file, Xerror ''rr: '%s': Cannot open file'' [tmp_file]]))
      else (rr_editor_status env, [Launch_execv [the app, tmp_file]]))"

text \<open>
  \<^verbatim>\<open>get_files_from_tmp_file\<close>: the loop over the lines of \<^verbatim>\<open>getline\<close>. \<open>len\<close>
  counts the bytes read, and \<^verbatim>\<open>savestring\<close> (of \<^verbatim>\<open>aux.c\<close>) copies the buffer as
  a C string.
\<close>

definition strip_newline :: "string \<Rightarrow> string" where
  "strip_newline line = (if line \<noteq> [] \<and> last line = NL then butlast line else line)"

definition strip_suffix :: "string \<Rightarrow> string" where
  "strip_suffix line =
     (if line \<noteq> [] \<and> (last line = CHR ''/'' \<or> last line = CHR ''@'' \<or> last line = CHR ''=''
          \<or> last line = CHR ''|'' \<or> last line = CHR ''?'')
      then butlast line else line)"

fun get_files_loop :: "string list \<Rightarrow> string list \<Rightarrow> string list" where
  "get_files_loop [] tmp_files = tmp_files"
| "get_files_loop (line # rest) tmp_files =
     (if deref line = CHR ''#'' \<or> deref line = NL then get_files_loop rest tmp_files
      else get_files_loop rest (tmp_files @ [cstr (strip_suffix (strip_newline line))]))"

definition get_files_from_tmp_file :: "rr_env \<Rightarrow> string \<Rightarrow> string list option" where
  "get_files_from_tmp_file env content =
     (if \<not> rr_get_fopen_ok env then None
      else Some (get_files_loop (getline_all content) []))"

text \<open>\<^verbatim>\<open>remove_this_file\<close>: \<open>True\<close> is the \<^verbatim>\<open>1\<close> of the source (not found in the list).\<close>

fun list_has :: "string \<Rightarrow> string list \<Rightarrow> bool" where
  "list_has file [] = False"
| "list_has file (x # rest) = (if deref file = deref x \<and> file = x then True else list_has file rest)"

definition remove_this_file :: "string \<Rightarrow> string list \<Rightarrow> bool" where
  "remove_this_file file list = (if SELFORPARENT file then False else \<not> list_has file list)"

fun rem_cwd_loop :: "(string \<times> dtype) list \<Rightarrow> string list \<Rightarrow> string list \<Rightarrow> string list" where
  "rem_cwd_loop [] tmp_files rem_files = rem_files"
| "rem_cwd_loop ((name, type) # rest) tmp_files rem_files =
     (if remove_this_file name tmp_files then rem_cwd_loop rest tmp_files (rem_files @ [name])
      else rem_cwd_loop rest tmp_files rem_files)"

text \<open>\<^verbatim>\<open>snprintf(p, sizeof(p), ...)\<close> with \<^verbatim>\<open>char p[PATH_MAX]\<close> keeps \<open>PATH_MAX - 1\<close> bytes.\<close>

definition target_path :: "string \<Rightarrow> string \<Rightarrow> string \<Rightarrow> string" where
  "target_path ws_path t d_name =
     take (PATH_MAX - 1)
       (if deref t = CHR ''/'' then t @ ''/'' @ d_name
        else ws_path @ ''/'' @ t @ ''/'' @ d_name)"

fun rem_dir_loop :: "string \<Rightarrow> string \<Rightarrow> (string \<times> dtype) list \<Rightarrow> string list \<Rightarrow> string list
    \<Rightarrow> string list" where
  "rem_dir_loop ws_path t [] tmp_files rem_files = rem_files"
| "rem_dir_loop ws_path t ((d_name, d_type) # rest) tmp_files rem_files =
     (if remove_this_file d_name tmp_files
      then rem_dir_loop ws_path t rest tmp_files (rem_files @ [target_path ws_path t d_name])
      else rem_dir_loop ws_path t rest tmp_files rem_files)"

definition get_remove_files :: "rr_env \<Rightarrow> target \<Rightarrow> string list \<Rightarrow> (string \<times> dtype) list
    \<Rightarrow> string list" where
  "get_remove_files env target tmp_files a =
     (case target of
        Cwd \<Rightarrow> rem_cwd_loop (rr_file_info env) tmp_files [''rr'']
      | Dir t \<Rightarrow> rem_dir_loop (rr_ws_path env) t a tmp_files [''rr''])"

text \<open>\<^verbatim>\<open>diff_files\<close>: the buffer has \<open>PATH_MAX + 6\<close> bytes; \<open>c\<close> and \<open>n\<close> are signed.\<close>

fun diff_count_loop :: "string list \<Rightarrow> int \<Rightarrow> int" where
  "diff_count_loop [] c = c"
| "diff_count_loop (line # rest) c =
     (if deref line \<noteq> CHR ''#'' \<and> deref line \<noteq> NL then diff_count_loop rest (c + 1)
      else diff_count_loop rest c)"

definition diff_files :: "rr_env \<Rightarrow> string \<Rightarrow> int \<Rightarrow> int \<times> event list" where
  "diff_files env content n =
     (if \<not> rr_diff_fopen_ok env then (0, [Xerror ''br: '%s': %s'' []])
      else (if diff_count_loop (fgets_all (PATH_MAX + 6) content) 0 < n then 1 else 0, []))"

text \<open>
  \<^verbatim>\<open>nothing_to_do\<close>: \<^verbatim>\<open>unlinkat\<close> returns \<open>0\<close> or \<open>-1\<close>, so the test
  \<^verbatim>\<open>unlinkat(...) == 1\<close> never holds and no diagnostic is printed.
\<close>

definition nothing_to_do :: "string \<Rightarrow> int \<times> event list" where
  "nothing_to_do tmp_file = (EXIT_SUCCESS, [Puts ''rr: Nothing to do'', Unlinkat tmp_file])"

text \<open>The label \<^verbatim>\<open>END\<close> of \<^verbatim>\<open>bulk_remove\<close>.\<close>

definition bulk_remove_end :: "rr_env \<Rightarrow> string \<Rightarrow> event list" where
  "bulk_remove_end env tmp_file =
     Unlinkat tmp_file #
       (if rr_unlinkat env \<noteq> 0 then [Err_warn ''rr: unlink: '%s': %s'' [tmp_file]] else [])"

definition bulk_remove :: "'w sys \<Rightarrow> rr_env \<Rightarrow> string option \<Rightarrow> string option \<Rightarrow> 'w
    \<Rightarrow> int \<times> 'w \<times> event list" where
  "bulk_remove sys env s1 s2 w =
     (if s1 \<noteq> None \<and> IS_HELP (the s1) then (EXIT_SUCCESS, w, [Puts_usage ''RR_USAGE''])
      else
     (case parse_bulk_remove_params env s1 s2 of
        Inl (ret, log0) \<Rightarrow> (ret, w, log0)
      | Inr (app, target) \<Rightarrow>
     (case rr_mkstemp env of
        None \<Rightarrow> (EXIT_FAILURE, w, [Xerror ''rr: mkstemp: '%s': %s'' []])
      | Some tmp_file \<Rightarrow>
     (case write_files_to_tmp env target tmp_file of
        (ret1, written, a, log1) \<Rightarrow>
     if ret1 \<noteq> EXIT_SUCCESS then (ret1, w, log1 @ bulk_remove_end env tmp_file)
     else
     (case open_tmp_file env tmp_file app of
        (ret2, log2) \<Rightarrow>
     if ret2 \<noteq> EXIT_SUCCESS then (ret2, w, log1 @ log2 @ bulk_remove_end env tmp_file)
     else
     (let n = int (length a);
          num = (if target = Cwd then int (length (rr_file_info env)) else n - 2)
      in
     if rr_old_t env = rr_new_t env
     then (fst (nothing_to_do tmp_file), w, log1 @ log2 @ snd (nothing_to_do tmp_file))
     else if fst (diff_files env (rr_edited env) num) = 0
     then (fst (nothing_to_do tmp_file), w,
           log1 @ log2 @ snd (diff_files env (rr_edited env) num) @ snd (nothing_to_do tmp_file))
     else
     (case get_files_from_tmp_file env (rr_edited env) of
        None \<Rightarrow> (ret2, w, log1 @ log2 @ bulk_remove_end env tmp_file)
      | Some rfiles \<Rightarrow>
     (let rem_files = get_remove_files env target rfiles a;
          (ret, w1) = remove_files sys w rem_files
      in (ret, w1, log1 @ log2 @ [Remove_files rem_files] @ bulk_remove_end env tmp_file)))))))))"

subsection \<open>Notions used in the statements\<close>

text \<open>
  The change list of the rename flow: the pairs \<open>(args[i], line)\<close> that
  \<^verbatim>\<open>count_modified_names\<close> prints and \<^verbatim>\<open>rename_bulk_files\<close> hands to
  \<^verbatim>\<open>rename_file\<close>, for the lines read from index \<open>i\<close> on.
\<close>

fun change_list :: "string list \<Rightarrow> string list \<Rightarrow> nat \<Rightarrow> (string \<times> string) list" where
  "change_list args [] i = []"
| "change_list args (line # rest) i =
     (if skip_line line then change_list args rest i
      else
        (case arg_at args i of
           Some a \<Rightarrow>
             if a \<noteq> chomp line then (a, chomp line) # change_list args rest (Suc i)
             else change_list args rest (Suc i)
         | None \<Rightarrow> change_list args rest (Suc i)))"

text \<open>
  The values \<^verbatim>\<open>rename_file\<close> returns on the pairs of a change list, each call in the
  world the call before it has left.
\<close>

fun rename_codes :: "'w sys \<Rightarrow> 'w \<Rightarrow> (string \<times> string) list \<Rightarrow> int list" where
  "rename_codes sys w [] = []"
| "rename_codes sys w ((oldpath, newpath) # rest) =
     (case rename_file sys oldpath newpath (w, []) of
        (ret, w1, log1) \<Rightarrow> ret # rename_codes sys w1 rest)"

definition first_nonzero :: "int list \<Rightarrow> int" where
  "first_nonzero codes = (case filter (\<lambda>c. c \<noteq> 0) codes of [] \<Rightarrow> 0 | c # _ \<Rightarrow> c)"

definition last_nonzero :: "int list \<Rightarrow> int" where
  "last_nonzero codes = (case rev (filter (\<lambda>c. c \<noteq> 0) codes) of [] \<Rightarrow> 0 | c # _ \<Rightarrow> c)"

fun is_renameat :: "event \<Rightarrow> bool" where
  "is_renameat (Renameat a b) = True"
| "is_renameat e = False"

text \<open>The events that act on the files of the user.\<close>

fun mutation :: "event \<Rightarrow> bool" where
  "mutation (Renameat a b) = True"
| "mutation (Launch_execv cmd) = True"
| "mutation (Remove_files argv) = True"
| "mutation e = False"

text \<open>The document whose lines are \<open>ls\<close>, each followed by a newline.\<close>

definition unlines :: "string list \<Rightarrow> string" where
  "unlines ls = concat (map (\<lambda>l. l @ [NL]) ls)"

text \<open>
  The lines of the remove flow that are not comments: \<^verbatim>\<open>diff_files\<close> counts them and
  \<^verbatim>\<open>get_files_from_tmp_file\<close> keeps them.
\<close>

definition visible :: "string \<Rightarrow> bool" where
  "visible line = (deref line \<noteq> CHR ''#'' \<and> deref line \<noteq> NL)"

text \<open>
  The names for which the document of the remove flow can be read back: a C string that is
  not empty, does not start a comment, holds no newline and does not end in a suffix
  character.
\<close>

definition plain_name :: "string \<Rightarrow> bool" where
  "plain_name name =
     (name \<noteq> [] \<and> hd name \<noteq> CHR ''#'' \<and> NL \<notin> set name \<and> NUL \<notin> set name
      \<and> last name \<notin> {CHR ''/'', CHR ''@'', CHR ''='', CHR ''|'', CHR ''?''})"

text \<open>The suffix that \<^verbatim>\<open>print_file\<close> appends, as a string.\<close>

definition suffix_of :: "dtype \<Rightarrow> string" where
  "suffix_of type = (if get_file_suffix type \<noteq> NUL then [get_file_suffix type] else [])"

text \<open>
  A comment line of the document: one whole line, its newline included, that is empty or
  begins with \<^verbatim>\<open>#\<close>.
\<close>

definition comment_line :: "string \<Rightarrow> bool" where
  "comment_line l =
     (l \<noteq> [] \<and> last l = NL \<and> NL \<notin> set (butlast l) \<and> (l = [NL] \<or> hd l = CHR ''#''))"

text \<open>
  A line of the rename document that holds a name: not empty, not a comment, without
  newline or \<^verbatim>\<open>NUL\<close>, and short enough for the line buffer.
\<close>

definition name_line :: "string \<Rightarrow> bool" where
  "name_line l =
     (l \<noteq> [] \<and> hd l \<noteq> CHR ''#'' \<and> NL \<notin> set l \<and> NUL \<notin> set l \<and> length l + 1 < PATH_MAX)"

text \<open>
  The lines of a document: the byte runs that end after each newline, the newline
  included; the last line may lack it.
\<close>

fun document_lines :: "string \<Rightarrow> string list" where
  "document_lines [] = []"
| "document_lines (c # cs) =
     (if c = NL then [c] # document_lines cs
      else (case document_lines cs of [] \<Rightarrow> [[c]] | l # ls \<Rightarrow> (c # l) # ls))"

text \<open>
  The non-comment lines of the rename document: the lines whose first byte is not
  \<^verbatim>\<open>#\<close>, a newline (an empty line) or \<^verbatim>\<open>NUL\<close> (a line that reads as the empty C string).
\<close>

definition non_comment_lines :: "string \<Rightarrow> string list" where
  "non_comment_lines content =
     filter (\<lambda>l. l \<noteq> [] \<and> hd l \<noteq> CHR ''#'' \<and> hd l \<noteq> NL \<and> hd l \<noteq> NUL) (document_lines content)"

text \<open>
  The name a line of the remove document stands for (the line without its newline and
  without one trailing suffix character, as a C string), and the names read from the
  non-comment lines of a document.
\<close>

definition line_name :: "string \<Rightarrow> string" where
  "line_name l =
     (let body = (if l \<noteq> [] \<and> last l = NL then butlast l else l);
          stem = (if body \<noteq> [] \<and> last body \<in> {CHR ''/'', CHR ''@'', CHR ''='', CHR ''|'', CHR ''?''}
                  then butlast body else body)
      in takeWhile (\<lambda>c. c \<noteq> NUL) stem)"

definition names_read :: "string \<Rightarrow> string list" where
  "names_read content = map line_name (filter visible (document_lines content))"

subsection \<open>A small system for the concrete instances\<close>

text \<open>
  The world is the list of the paths that exist. \<^verbatim>\<open>renameat\<close> fails with
  \<^verbatim>\<open>ENOENT\<close> when the source does not exist or the target lies in the missing directory
  \<^verbatim>\<open>nodir\<close>, with \<^verbatim>\<open>EXDEV\<close> when the target lies under \<^verbatim>\<open>/mnt\<close> (another device),
  with \<^verbatim>\<open>EACCES\<close> when it lies under \<^verbatim>\<open>/root\<close>; \<^verbatim>\<open>mv\<close> moves an existing
  file; \<^verbatim>\<open>remove_files\<close> removes the files it is given.
\<close>

definition EACCES :: int where
  "EACCES = 13"

definition demo_renameat :: "string list \<Rightarrow> string \<Rightarrow> string \<Rightarrow> int \<times> string list" where
  "demo_renameat w oldpath newpath =
     (if oldpath \<notin> set w then (ENOENT, w)
      else if take 5 newpath = ''/mnt/'' then (EXDEV, w)
      else if take 6 newpath = ''/root/'' then (EACCES, w)
      else if take 6 newpath = ''nodir/'' then (ENOENT, w)
      else (0, newpath # removeAll newpath (removeAll oldpath w)))"

definition demo_launch_execv :: "string list \<Rightarrow> string list \<Rightarrow> int \<times> string list" where
  "demo_launch_execv w cmd =
     (case cmd of
        [prog, dashes, oldpath, newpath] \<Rightarrow>
          if oldpath \<in> set w then (0, newpath # removeAll newpath (removeAll oldpath w)) else (1, w)
      | _ \<Rightarrow> (127, w))"

definition demo_remove_files :: "string list \<Rightarrow> string list \<Rightarrow> int \<times> string list" where
  "demo_remove_files w argv = (0, filter (\<lambda>f. f \<notin> set (tl argv)) w)"

definition demo_sys :: "string list sys" where
  "demo_sys = \<lparr>renameat = demo_renameat, launch_execv = demo_launch_execv,
      remove_files = demo_remove_files, is_file_in_cwd = (\<lambda>p. CHR ''/'' \<notin> set p)\<rparr>"

text \<open>
  An environment of \<^verbatim>\<open>bulk_rename\<close> in which every call succeeds, the files in
  \<open>present\<close> exist, the user leaves \<open>edited\<close> in the document, saves it (the
  modification time changes) and confirms.
\<close>

definition demo_br_env :: "string list \<Rightarrow> string \<Rightarrow> br_env" where
  "demo_br_env present edited =
     \<lparr>br_mkstemp = Some ''/tmp/clifm/bulk.Ab12Cd'', br_fdopen_ok = True, br_open_fread_ok = True,
      br_open_errno = 0, br_unescape_str = Some, br_realpath = Some,
      br_lstat_ok = (\<lambda>p. p \<in> set present), br_mtime_bfr = 100, br_open_file = 0,
      br_edited = edited, br_fstat = Some 160, br_answer = True,
      br_unlinkat = 0, br_autols = True, br_have_sel = False\<rparr>"

text \<open>
  An environment of \<^verbatim>\<open>bulk_remove\<close> in which every call succeeds: the current
  directory lists \<open>listing\<close>, the directory \<^verbatim>\<open>/srv/data\<close> holds \<open>scanned\<close>, and
  the user leaves \<open>edited\<close> in the document and saves it.
\<close>

definition demo_rr_env :: "(string \<times> dtype) list \<Rightarrow> (string \<times> dtype) list \<Rightarrow> string \<Rightarrow> rr_env" where
  "demo_rr_env listing scanned edited =
     \<lparr>rr_ws_path = ''/home/user'', rr_file_info = listing,
      rr_stat_isdir = (\<lambda>p. if p = ''/srv/data'' then Some True else None),
      rr_get_cmd_path = (\<lambda>p. p = ''vi''), rr_mkstemp = Some ''/tmp/clifm/bulk.Ef34Gh'',
      rr_open_fwrite_ok = True, rr_open_fwrite_errno = 0,
      rr_count_dir = (\<lambda>p. int (length scanned)), rr_scandir = (\<lambda>p. Some scanned),
      rr_scandir_errno = 0, rr_old_t = 100, rr_editor_status = 0, rr_edited = edited,
      rr_new_t = 160, rr_diff_fopen_ok = True, rr_get_fopen_ok = True, rr_unlinkat = 0\<rparr>"

section \<open>Properties\<close>

subsection \<open>Line input\<close>

lemma fgets_all_Nil: "fgets_all sz [] = []"
  by (simp add: fgets_all.simps)

lemma fgets_buf_pos: "0 < k \<Longrightarrow> fgets_buf k (c # cs) = (if c = NL then [c] else c # fgets_buf (k - 1) cs)"
  by (cases k) auto

lemma fgets_buf_length: "length (fgets_buf k s) \<le> length s"
  by (induction k s rule: fgets_buf.induct) auto

lemma fgets_buf_append: "NL \<in> set A \<Longrightarrow> fgets_buf k (A @ B) = fgets_buf k A"
proof (induction A arbitrary: k)
  case Nil
  then show ?case by simp
next
  case (Cons a A)
  then show ?case by (cases k) auto
qed

lemma fgets_buf_line: "NL \<notin> set l \<Longrightarrow> length l < k \<Longrightarrow> fgets_buf k (l @ NL # rest) = l @ [NL]"
proof (induction l arbitrary: k)
  case Nil
  then show ?case by (cases k) auto
next
  case (Cons a l)
  then show ?case by (cases k) auto
qed

lemma fgets_buf_last: "s \<noteq> [] \<Longrightarrow> last s = NL \<Longrightarrow>
  drop (length (fgets_buf k s)) s = [] \<or> last (drop (length (fgets_buf k s)) s) = NL"
  using fgets_buf_length[of k s] by (cases "length (fgets_buf k s) = length s") auto

lemma fgets_all_append:
  "A = [] \<or> last A = NL \<Longrightarrow> fgets_all sz (A @ B) = fgets_all sz A @ fgets_all sz B"
proof (induction sz A rule: fgets_all.induct)
  case (1 sz s)
  show ?case
  proof (cases "s = [] \<or> sz < 2")
    case True
    then show ?thesis
      by (auto simp add: fgets_all_Nil) (simp add: fgets_all.simps[of sz])
  next
    case False
    with "1.prems" have l: "last s = NL" and ne: "s \<noteq> []"
      by auto
    then have nl: "NL \<in> set s"
      using last_in_set by metis
    let ?c = "fgets_buf (sz - 1) s"
    have c: "fgets_buf (sz - 1) (s @ B) = ?c"
      using nl by (rule fgets_buf_append)
    have d: "drop (length ?c) (s @ B) = drop (length ?c) s @ B"
      using fgets_buf_length[of "sz - 1" s] by simp
    have ih: "fgets_all sz (drop (length ?c) s @ B) = fgets_all sz (drop (length ?c) s) @ fgets_all sz B"
      using "1.IH"[OF False] fgets_buf_last[OF ne l] by blast
    have "fgets_all sz (s @ B) = ?c # fgets_all sz (drop (length ?c) s @ B)"
      using False c d by (simp add: fgets_all.simps[of sz "s @ B"])
    also have "\<dots> = (?c # fgets_all sz (drop (length ?c) s)) @ fgets_all sz B"
      using ih by simp
    also have "?c # fgets_all sz (drop (length ?c) s) = fgets_all sz s"
      using False by (simp add: fgets_all.simps[of sz s])
    finally show ?thesis .
  qed
qed

lemma fgets_all_line:
  assumes "NL \<notin> set l" and "length l + 1 < sz"
  shows "fgets_all sz (l @ NL # rest) = (l @ [NL]) # fgets_all sz rest"
proof -
  have "fgets_buf (sz - 1) (l @ NL # rest) = l @ [NL]"
    using assms by (intro fgets_buf_line) auto
  then show ?thesis
    using assms by (simp add: fgets_all.simps[of sz "l @ NL # rest"])
qed

lemma fgets_all_lines:
  "\<forall>l\<in>set ls. NL \<notin> set l \<and> length l + 1 < sz \<Longrightarrow>
   fgets_all sz (unlines ls @ rest) = map (\<lambda>l. l @ [NL]) ls @ fgets_all sz rest"
  by (induction ls) (simp_all add: unlines_def fgets_all_line)

lemma getline_all_Nil: "getline_all [] = []"
  by (simp add: getline_all.simps)

lemma getline_buf_length: "length (getline_buf s) \<le> length s"
  by (induction s) auto

lemma getline_buf_append: "NL \<in> set A \<Longrightarrow> getline_buf (A @ B) = getline_buf A"
  by (induction A) auto

lemma getline_buf_line: "NL \<notin> set l \<Longrightarrow> getline_buf (l @ NL # rest) = l @ [NL]"
  by (induction l) auto

lemma getline_buf_last: "s \<noteq> [] \<Longrightarrow> last s = NL \<Longrightarrow>
  drop (length (getline_buf s)) s = [] \<or> last (drop (length (getline_buf s)) s) = NL"
  using getline_buf_length[of s] by (cases "length (getline_buf s) = length s") auto

lemma getline_all_append:
  "A = [] \<or> last A = NL \<Longrightarrow> getline_all (A @ B) = getline_all A @ getline_all B"
proof (induction A rule: getline_all.induct)
  case (1 s)
  show ?case
  proof (cases "s = []")
    case True
    then show ?thesis
      by (simp add: getline_all_Nil)
  next
    case False
    with "1.prems" have l: "last s = NL" and ne: "s \<noteq> []"
      by auto
    then have nl: "NL \<in> set s"
      using last_in_set by metis
    let ?c = "getline_buf s"
    have c: "getline_buf (s @ B) = ?c"
      using nl by (rule getline_buf_append)
    have d: "drop (length ?c) (s @ B) = drop (length ?c) s @ B"
      using getline_buf_length[of s] by simp
    have ih: "getline_all (drop (length ?c) s @ B) = getline_all (drop (length ?c) s) @ getline_all B"
      using "1.IH"[OF False] getline_buf_last[OF ne l] by blast
    have "getline_all (s @ B) = ?c # getline_all (drop (length ?c) s @ B)"
      using False c d by (simp add: getline_all.simps[of "s @ B"])
    also have "\<dots> = (?c # getline_all (drop (length ?c) s)) @ getline_all B"
      using ih by simp
    also have "?c # getline_all (drop (length ?c) s) = getline_all s"
      using False by (simp add: getline_all.simps[of s])
    finally show ?thesis .
  qed
qed

lemma getline_all_line:
  assumes "NL \<notin> set l"
  shows "getline_all (l @ NL # rest) = (l @ [NL]) # getline_all rest"
proof -
  have "getline_buf (l @ NL # rest) = l @ [NL]"
    using assms by (rule getline_buf_line)
  then show ?thesis
    by (simp add: getline_all.simps[of "l @ NL # rest"])
qed

lemma getline_all_lines:
  "\<forall>l\<in>set ls. NL \<notin> set l \<Longrightarrow>
   getline_all (unlines ls @ rest) = map (\<lambda>l. l @ [NL]) ls @ getline_all rest"
  by (induction ls) (simp_all add: unlines_def getline_all_line)

lemma fgets_buf_full: "NL \<notin> set p \<Longrightarrow> fgets_buf (length p) (p @ rest) = p"
  by (induction p) auto

lemma fgets_all_full:
  assumes "NL \<notin> set p" and "length p = sz - 1" and "2 \<le> sz"
  shows "fgets_all sz (p @ rest) = p # fgets_all sz rest"
proof -
  have "fgets_buf (sz - 1) (p @ rest) = p"
    using fgets_buf_full[OF assms(1), of rest] assms(2) by simp
  moreover have "p \<noteq> []"
    using assms(2,3) by auto
  ultimately show ?thesis
    using assms(3) by (simp add: fgets_all.simps[of sz "p @ rest"])
qed

lemma unlines_append: "unlines (xs @ ys) = unlines xs @ unlines ys"
  by (simp add: unlines_def)

text \<open>
  \<^verbatim>\<open>fgets\<close> against the lines of the document. A call of \<^verbatim>\<open>fgets\<close> reads the first
  \<open>size - 1\<close> bytes of the line \<^verbatim>\<open>getline\<close> would read. When no line, its newline not
  counted, has \<open>size\<close> bytes or more, each line is read either in one piece or in two, the
  second being the lone newline; so the loops over \<^verbatim>\<open>fgets\<close> see as many non-comment
  pieces as the document has non-comment lines.
\<close>

lemma fgets_buf_take: "fgets_buf k s = take k (getline_buf s)"
  by (induction k s rule: fgets_buf.induct) auto

lemma document_lines_getline: "document_lines s = getline_all s"
proof (induction s)
  case Nil
  then show ?case by (simp add: getline_all_Nil)
next
  case (Cons c cs)
  show ?case
  proof (cases "c = NL")
    case True
    have "getline_all (c # cs) = [c] # getline_all cs"
      using True by (subst getline_all.simps) simp
    then show ?thesis
      using Cons True by simp
  next
    case False
    show ?thesis
    proof (cases cs)
      case Nil
      then show ?thesis
        using False by (simp add: getline_all.simps[of "[c]"] getline_all_Nil)
    next
      case (Cons d ds)
      then have "getline_all cs = getline_buf cs # getline_all (drop (length (getline_buf cs)) cs)"
        by (subst getline_all.simps) simp
      then show ?thesis
        using False Cons.IH by (simp add: getline_all.simps[of "c # cs"])
    qed
  qed
qed

lemma getline_buf_nonempty: "s \<noteq> [] \<Longrightarrow> getline_buf s \<noteq> []"
  by (cases s) auto

lemma getline_buf_body: "NL \<notin> set (butlast (getline_buf s))"
  by (induction s) auto

lemma getline_buf_prefix: "getline_buf s @ drop (length (getline_buf s)) s = s"
  by (induction s) auto

lemma getline_buf_unterminated:
  "s \<noteq> [] \<Longrightarrow> last (getline_buf s) \<noteq> NL \<Longrightarrow> drop (length (getline_buf s)) s = []"
proof (induction s)
  case Nil
  then show ?case by simp
next
  case (Cons c cs)
  then show ?case
    using getline_buf_nonempty[of cs] by (cases "cs = []") (auto split: if_splits)
qed

lemma getline_buf_shape:
  "s \<noteq> [] \<Longrightarrow> getline_buf s \<noteq> [] \<and> NL \<notin> set (butlast (getline_buf s))
     \<and> s = getline_buf s @ drop (length (getline_buf s)) s
     \<and> (last (getline_buf s) \<noteq> NL \<longrightarrow> drop (length (getline_buf s)) s = [])"
  using getline_buf_nonempty[of s] getline_buf_body[of s] getline_buf_prefix[of s]
    getline_buf_unterminated[of s] by simp

lemma getline_all_nonempty: "l \<in> set (getline_all s) \<Longrightarrow> l \<noteq> []"
proof (induction s rule: getline_all.induct)
  case (1 s)
  show ?case
  proof (cases "s = []")
    case True
    then show ?thesis using "1.prems" by (simp add: getline_all_Nil)
  next
    case False
    then have "getline_all s = getline_buf s # getline_all (drop (length (getline_buf s)) s)"
      by (simp add: getline_all.simps[of s])
    then show ?thesis
      using "1.prems" "1.IH"[OF False] getline_buf_shape[OF False] by auto
  qed
qed

lemma document_lines_unlines:
  "\<forall>l\<in>set ls. NL \<notin> set l \<Longrightarrow> document_lines (unlines ls) = map (\<lambda>l. l @ [NL]) ls"
  using getline_all_lines[of ls "[]"] by (simp add: document_lines_getline getline_all_Nil)

lemma fgets_all_by_lines:
  assumes "2 \<le> sz"
  shows "\<forall>l\<in>set (getline_all s). length (strip_newline l) < sz \<Longrightarrow>
    fgets_all sz s =
      concat (map (\<lambda>l. if length l < sz then [l] else [butlast l, [NL]]) (getline_all s))"
proof (induction s rule: getline_all.induct)
  case (1 s)
  show ?case
  proof (cases "s = []")
    case True
    then show ?thesis by (simp add: fgets_all_Nil getline_all_Nil)
  next
    case False
    define l where "l = getline_buf s"
    define rest where "rest = drop (length l) s"
    have ga: "getline_all s = l # getline_all rest"
      using False by (simp add: getline_all.simps[of s] l_def rest_def)
    have sh: "l \<noteq> []" "NL \<notin> set (butlast l)" "s = l @ rest" "last l \<noteq> NL \<longrightarrow> rest = []"
      using getline_buf_shape[OF False] by (simp_all add: l_def rest_def)
    have b: "length (strip_newline l) < sz"
      using "1.prems" ga by simp
    have ih: "fgets_all sz rest =
      concat (map (\<lambda>l. if length l < sz then [l] else [butlast l, [NL]]) (getline_all rest))"
      using "1.IH"[OF False] "1.prems" ga by (simp add: l_def rest_def)
    have fb: "fgets_buf (sz - 1) s = take (sz - 1) l"
      by (simp add: fgets_buf_take l_def)
    show ?thesis
    proof (cases "length l < sz")
      case True
      then have "fgets_buf (sz - 1) s = l"
        using fb by simp
      then have "fgets_all sz s = l # fgets_all sz rest"
        using False assms by (simp add: fgets_all.simps[of sz s] rest_def)
      then show ?thesis
        using True ih ga by simp
    next
      case long: False
      then have ln: "last l = NL" and len: "length l = sz"
        using b sh(1) by (auto simp add: strip_newline_def split: if_splits)
      then have l: "l = butlast l @ [NL]"
        using sh(1) by (metis append_butlast_last_id)
      have t: "take (sz - 1) l = butlast l"
        using len by (simp add: butlast_conv_take)
      have lb: "length (butlast l) = sz - 1"
        using len by simp
      have s: "s = butlast l @ NL # rest"
        using sh(3) l by (metis append_Cons append_Nil append_assoc)
      have "fgets_all sz s = butlast l # fgets_all sz (NL # rest)"
        using fgets_all_full[OF sh(2) lb assms, of "NL # rest"] s by simp
      moreover have "fgets_all sz (NL # rest) = [NL] # fgets_all sz rest"
        using fgets_all_line[of "[]" sz rest] assms by simp
      ultimately show ?thesis
        using long ih ga by simp
    qed
  qed
qed

lemma pieces_filter_one:
  assumes "2 \<le> sz" and "l \<noteq> []" and "length (strip_newline l) < sz"
  shows "filter (\<lambda>p. \<not> skip_line p) (if length l < sz then [l] else [butlast l, [NL]]) =
      (if \<not> skip_line l then [take (sz - 1) l] else [])"
    and "filter visible (if length l < sz then [l] else [butlast l, [NL]]) =
      (if visible l then [take (sz - 1) l] else [])"
proof -
  have k: "skip_line [NL]" "\<not> visible [NL]"
    by (simp_all add: skip_line_def visible_def deref_def)
  have h: "skip_line (take (sz - 1) l) = skip_line l \<and> visible (take (sz - 1) l) = visible l
      \<and> butlast l = take (sz - 1) l" if "\<not> length l < sz"
  proof -
    from that assms(3) have len: "length l = sz"
      by (auto simp add: strip_newline_def split: if_splits)
    then obtain c d cs where "l = c # d # cs"
      using assms(1) by (cases l; cases "tl l") auto
    then show ?thesis
      using len by (auto simp add: skip_line_def visible_def deref_def butlast_conv_take)
  qed
  show "filter (\<lambda>p. \<not> skip_line p) (if length l < sz then [l] else [butlast l, [NL]]) =
      (if \<not> skip_line l then [take (sz - 1) l] else [])"
  proof (cases "length l < sz")
    case True
    then show ?thesis by simp
  next
    case False
    then show ?thesis using h[OF False] k by simp
  qed
  show "filter visible (if length l < sz then [l] else [butlast l, [NL]]) =
      (if visible l then [take (sz - 1) l] else [])"
  proof (cases "length l < sz")
    case True
    then show ?thesis by simp
  next
    case False
    then show ?thesis using h[OF False] k by simp
  qed
qed

lemma pieces_filter:
  assumes "2 \<le> sz" and "\<forall>l\<in>set ls. l \<noteq> [] \<and> length (strip_newline l) < sz"
  shows "filter (\<lambda>p. \<not> skip_line p)
        (concat (map (\<lambda>l. if length l < sz then [l] else [butlast l, [NL]]) ls)) =
      map (take (sz - 1)) (filter (\<lambda>l. \<not> skip_line l) ls)"
    and "filter visible
        (concat (map (\<lambda>l. if length l < sz then [l] else [butlast l, [NL]]) ls)) =
      map (take (sz - 1)) (filter visible ls)"
proof -
  show "filter (\<lambda>p. \<not> skip_line p)
        (concat (map (\<lambda>l. if length l < sz then [l] else [butlast l, [NL]]) ls)) =
      map (take (sz - 1)) (filter (\<lambda>l. \<not> skip_line l) ls)"
    using assms(2)
  proof (induction ls)
    case Nil
    then show ?case by simp
  next
    case (Cons l ls)
    then have "l \<noteq> []" "length (strip_newline l) < sz"
      by simp_all
    from pieces_filter_one(1)[OF assms(1) this] Cons show ?case
      by (simp del: One_nat_def)
  qed
  show "filter visible
        (concat (map (\<lambda>l. if length l < sz then [l] else [butlast l, [NL]]) ls)) =
      map (take (sz - 1)) (filter visible ls)"
    using assms(2)
  proof (induction ls)
    case Nil
    then show ?case by simp
  next
    case (Cons l ls)
    then have "l \<noteq> []" "length (strip_newline l) < sz"
      by simp_all
    from pieces_filter_one(2)[OF assms(1) this] Cons show ?case
      by (simp del: One_nat_def)
  qed
qed

lemma fgets_pieces_of_lines:
  assumes "2 \<le> sz" and "\<forall>l\<in>set (document_lines s). length (strip_newline l) < sz"
  shows "filter (\<lambda>p. \<not> skip_line p) (fgets_all sz s) =
      map (take (sz - 1)) (filter (\<lambda>l. \<not> skip_line l) (document_lines s))"
    and "filter visible (fgets_all sz s) = map (take (sz - 1)) (filter visible (document_lines s))"
proof -
  have b: "\<forall>l\<in>set (getline_all s). length (strip_newline l) < sz"
    using assms(2) by (simp add: document_lines_getline)
  have n: "\<forall>l\<in>set (getline_all s). l \<noteq> [] \<and> length (strip_newline l) < sz"
    using b getline_all_nonempty by blast
  show "filter (\<lambda>p. \<not> skip_line p) (fgets_all sz s) =
      map (take (sz - 1)) (filter (\<lambda>l. \<not> skip_line l) (document_lines s))"
    unfolding fgets_all_by_lines[OF assms(1) b] document_lines_getline
    by (rule pieces_filter(1)[OF assms(1) n])
  show "filter visible (fgets_all sz s) = map (take (sz - 1)) (filter visible (document_lines s))"
    unfolding fgets_all_by_lines[OF assms(1) b] document_lines_getline
    by (rule pieces_filter(2)[OF assms(1) n])
qed

subsection \<open>rename\_file\<close>

text \<open>
  C6. For every pair, \<^verbatim>\<open>rename_file\<close> first cuts a trailing \<^verbatim>\<open>/\<close> from the new path
  when its length exceeds 1. If \<^verbatim>\<open>renameat\<close> succeeds it returns 0; if it fails with
  \<^verbatim>\<open>EXDEV\<close> it runs \<^verbatim>\<open>mv -- old new\<close> through \<^verbatim>\<open>launch_execv\<close> and returns the
  exit status of \<^verbatim>\<open>mv\<close>; on any other \<^verbatim>\<open>errno\<close> it prints a diagnostic and returns
  that \<^verbatim>\<open>errno\<close>.
\<close>

theorem rename_file_contract:
  assumes "renameat sys w oldpath (trim_slash newpath) = (e, w1)"
  shows "rename_file sys oldpath newpath (w, log) =
     (if e = 0 then (0, w1, log @ [Renameat oldpath (trim_slash newpath)])
      else if e = EXDEV
      then (fst (launch_execv sys w1 [''mv'', ''--'', oldpath, trim_slash newpath]),
            snd (launch_execv sys w1 [''mv'', ''--'', oldpath, trim_slash newpath]),
            log @ [Renameat oldpath (trim_slash newpath),
                   Launch_execv [''mv'', ''--'', oldpath, trim_slash newpath]])
      else (e, w1, log @ [Renameat oldpath (trim_slash newpath),
               Xerror ''br: Cannot rename '%s' to '%s': %s'' [oldpath, trim_slash newpath]]))
   \<and> trim_slash newpath =
      (if length newpath > 1 \<and> last newpath = CHR ''/'' then butlast newpath else newpath)"
  using assms by (simp add: rename_file_def Let_def trim_slash_def split: prod.splits)

theorem rename_file_contract_witness:
  "rename_file demo_sys ''a'' ''/mnt/b/'' ([''a''], []) =
     (0, [''/mnt/b''], [Renameat ''a'' ''/mnt/b'', Launch_execv [''mv'', ''--'', ''a'', ''/mnt/b'']])"
proof -
  have t: "trim_slash ''/mnt/b/'' = ''/mnt/b''"
    by (simp add: trim_slash_def)
  have h: "renameat demo_sys [''a''] ''a'' (trim_slash ''/mnt/b/'') = (EXDEV, [''a''])"
    by (simp add: t demo_sys_def demo_renameat_def)
  show ?thesis
    using rename_file_contract[OF h, of "[]"]
    by (simp add: t demo_sys_def demo_launch_execv_def EXDEV_def)
qed

subsection \<open>The rename flow\<close>

lemma rename_file_log:
  "rename_file sys a b (w, l) =
     (case rename_file sys a b (w, []) of (r, w', evs) \<Rightarrow> (r, w', l @ evs))"
  by (simp add: rename_file_def Let_def split: prod.splits)

lemma rename_file_renameat_events:
  "rename_file sys a b (w, l) = (r, w', l') \<Longrightarrow>
   filter is_renameat l' = filter is_renameat l @ [Renameat a (trim_slash b)]"
  by (auto simp add: rename_file_def Let_def split: prod.splits if_splits)

lemma loop_exit_status:
  "exit_status (rename_bulk_loop sys autols m args lines i st) =
     foldl (\<lambda>acc c. if c \<noteq> 0 then c else acc) (exit_status st)
       (rename_codes sys (world st) (change_list args lines i))"
proof (induction lines arbitrary: i st)
  case Nil
  then show ?case by simp
next
  case (Cons line rest)
  show ?case
  proof (cases "skip_line line \<or> arg_at args i = None \<or> arg_at args i = Some (chomp line)")
    case True
    then show ?thesis using Cons.IH by (auto split: option.splits)
  next
    case False
    then obtain a where a: "arg_at args i = Some a" "a \<noteq> chomp line" "\<not> skip_line line"
      by auto
    obtain r w1 evs where rf: "rename_file sys a (chomp line) (world st, []) = (r, w1, evs)"
      by (cases "rename_file sys a (chomp line) (world st, [])") auto
    then have rf': "rename_file sys a (chomp line) (world st, events st) = (r, w1, events st @ evs)"
      using rename_file_log[of sys a "chomp line" "world st" "events st"] by simp
    show ?thesis using a rf rf' Cons.IH by simp
  qed
qed

lemma foldl_last_nonzero:
  "foldl (\<lambda>acc c. if c \<noteq> 0 then c else acc) (0::int) codes = last_nonzero codes"
proof -
  have "foldl (\<lambda>acc c. if c \<noteq> 0 then c else acc) d codes =
      (case rev (filter (\<lambda>c. c \<noteq> 0) codes) of [] \<Rightarrow> d | c # _ \<Rightarrow> c)" for d :: int
    by (induction codes arbitrary: d rule: rev_induct) (auto split: list.splits)
  then show ?thesis by (simp add: last_nonzero_def)
qed

lemma loop_renameat_events:
  "filter is_renameat (events (rename_bulk_loop sys autols m args lines i st)) =
     filter is_renameat (events st) @
       map (\<lambda>(a, l). Renameat a (trim_slash l)) (change_list args lines i)"
proof (induction lines arbitrary: i st)
  case Nil
  then show ?case by simp
next
  case (Cons line rest)
  show ?case
  proof (cases "skip_line line \<or> arg_at args i = None \<or> arg_at args i = Some (chomp line)")
    case True
    then show ?thesis using Cons.IH by (auto split: option.splits)
  next
    case False
    then obtain a where a: "arg_at args i = Some a" "a \<noteq> chomp line" "\<not> skip_line line"
      by auto
    obtain r w1 l1 where rf: "rename_file sys a (chomp line) (world st, events st) = (r, w1, l1)"
      by (cases "rename_file sys a (chomp line) (world st, events st)") auto
    note ev = rename_file_renameat_events[OF rf]
    show ?thesis using a rf ev Cons.IH by simp
  qed
qed

lemma prepare_arg_quiet:
  "prepare_arg env a = (a', ok, msgs) \<Longrightarrow> filter mutation msgs = [] \<and> filter is_renameat msgs = []"
  by (auto simp add: prepare_arg_def split: option.splits if_splits)

lemma write_renfiles_loop_quiet:
  "write_renfiles_loop env as (seen, doc, n, log) = (seen', doc', n', log') \<Longrightarrow>
   filter mutation log = [] \<Longrightarrow> filter is_renameat log = [] \<Longrightarrow>
   filter mutation log' = [] \<and> filter is_renameat log' = []"
proof (induction as arbitrary: seen doc n log)
  case Nil
  then show ?case by simp
next
  case (Cons a as)
  obtain a' ok msgs where p: "prepare_arg env a = (a', ok, msgs)"
    by (cases "prepare_arg env a") auto
  note q = prepare_arg_quiet[OF p]
  show ?case
  proof (cases ok)
    case True
    with Cons.prems p have "write_renfiles_loop env as (seen @ [a'], doc @ a' @ [NL], Suc n, log @ msgs)
        = (seen', doc', n', log')"
      by simp
    from Cons.IH[OF this] q Cons.prems show ?thesis by simp
  next
    case False
    with Cons.prems p have "write_renfiles_loop env as (seen @ [a'], doc, n, log @ msgs)
        = (seen', doc', n', log')"
      by simp
    from Cons.IH[OF this] q Cons.prems show ?thesis by simp
  qed
qed

lemma write_renfiles_to_tmp_quiet:
  assumes "write_renfiles_to_tmp env args bulk_file = (EXIT_SUCCESS, args', written, mtime_bfr, total_input, log1)"
  shows "filter mutation log1 = [] \<and> filter is_renameat log1 = []"
proof (cases "br_fdopen_ok env")
  case False
  then show ?thesis using assms
    by (auto simp add: write_renfiles_to_tmp_def err_open_tmp_file_def split: if_splits)
next
  case True
  obtain s d n l where w: "write_renfiles_loop env (tl args) (take 1 args, BULK_RENAME_TMP_FILE_HEADER, 0, []) = (s, d, n, l)"
    by (metis prod_cases4)
  from write_renfiles_loop_quiet[OF w] have "filter mutation l = [] \<and> filter is_renameat l = []"
    by simp
  then show ?thesis using assms True w
    by (auto simp add: write_renfiles_to_tmp_def EXIT_SUCCESS_def EXIT_FAILURE_def split: if_splits)
qed

lemma rename_header_lines:
  "BULK_RENAME_TMP_FILE_HEADER =
     unlines [''# CliFM - Rename files in bulk'',
       ''# Edit file names, save, and quit the editor (you will be'',
       ''# asked for confirmation)'',
       ''# Just quit the editor without any edit to cancel the operation'', []]"
  by (simp add: BULK_RENAME_TMP_FILE_HEADER_def unlines_def)

lemma skip_line_simps:
  "skip_line [] = True"
  "skip_line (c # cs) = (c = NUL \<or> c = NL \<or> c = CHR ''#'')"
  by (simp_all add: skip_line_def deref_def)

lemma fgets_rename_doc:
  assumes "\<forall>l\<in>set ls. NL \<notin> set l \<and> length l + 1 < PATH_MAX"
  shows "filter (\<lambda>l. \<not> skip_line l) (fgets_all PATH_MAX (BULK_RENAME_TMP_FILE_HEADER @ unlines ls)) =
     filter (\<lambda>l. \<not> skip_line l) (map (\<lambda>l. l @ [NL]) ls)"
proof -
  have h: "\<forall>l\<in>set [''# CliFM - Rename files in bulk'',
       ''# Edit file names, save, and quit the editor (you will be'',
       ''# asked for confirmation)'',
       ''# Just quit the editor without any edit to cancel the operation'', []].
       NL \<notin> set l \<and> length l + 1 < PATH_MAX"
    by (simp add: NL_def PATH_MAX_def)
  have "fgets_all PATH_MAX (unlines ls) = map (\<lambda>l. l @ [NL]) ls"
    using fgets_all_lines[OF assms, of "[]"] by (simp add: fgets_all_Nil)
  then show ?thesis
    unfolding rename_header_lines fgets_all_lines[OF h]
    by (simp add: skip_line_simps)
qed

lemma count_lines_loop_filter:
  "count_lines_loop ls n = n + length (filter (\<lambda>l. \<not> skip_line l) ls)"
  by (induction ls arbitrary: n) auto

lemma change_list_filter:
  "change_list args ls i = change_list args (filter (\<lambda>l. \<not> skip_line l) ls) i"
  by (induction ls arbitrary: i) (auto split: option.splits)

lemma count_modified_loop_filter:
  "count_modified_loop args ls i acc = count_modified_loop args (filter (\<lambda>l. \<not> skip_line l) ls) i acc"
  by (induction args ls i acc rule: count_modified_loop.induct) (auto split: option.splits)

lemma rename_bulk_loop_filter:
  "rename_bulk_loop sys autols m args ls i st =
     rename_bulk_loop sys autols m args (filter (\<lambda>l. \<not> skip_line l) ls) i st"
  by (induction ls arbitrary: i st) (auto split: option.splits prod.splits)

lemma demo_br_env_sel:
  "br_mkstemp (demo_br_env present edited) = Some ''/tmp/clifm/bulk.Ab12Cd''"
  "br_fdopen_ok (demo_br_env present edited)"
  "br_open_fread_ok (demo_br_env present edited)"
  "br_open_file (demo_br_env present edited) = EXIT_SUCCESS"
  "br_edited (demo_br_env present edited) = edited"
  "br_fstat (demo_br_env present edited) = Some 160"
  "br_mtime_bfr (demo_br_env present edited) = 100"
  "br_answer (demo_br_env present edited)"
  "br_unlinkat (demo_br_env present edited) = 0"
  "br_autols (demo_br_env present edited)"
  "\<not> br_have_sel (demo_br_env present edited)"
  by (simp_all add: demo_br_env_def EXIT_SUCCESS_def)

lemma non_comment_lines_skip:
  "non_comment_lines content = filter (\<lambda>l. \<not> skip_line l) (document_lines content)"
proof -
  have "(l \<noteq> [] \<and> hd l \<noteq> CHR ''#'' \<and> hd l \<noteq> NL \<and> hd l \<noteq> NUL) = (\<not> skip_line l)"
    if "l \<in> set (document_lines content)" for l
  proof -
    from that have "l \<noteq> []"
      using getline_all_nonempty by (simp add: document_lines_getline)
    then show ?thesis
      by (cases l) (auto simp add: skip_line_simps)
  qed
  then show ?thesis
    unfolding non_comment_lines_def by (intro filter_cong) auto
qed

lemma count_lines_of_document:
  assumes "\<forall>l\<in>set (document_lines content). length (strip_newline l) < PATH_MAX"
  shows "count_lines_loop (fgets_all PATH_MAX content) 0 = length (non_comment_lines content)"
proof -
  have p: "2 \<le> PATH_MAX"
    by (simp add: PATH_MAX_def)
  show ?thesis
    unfolding count_lines_loop_filter fgets_pieces_of_lines(1)[OF p assms] non_comment_lines_skip
    by simp
qed

lemma rename_doc_lines:
  assumes "\<forall>l\<in>set ls. NL \<notin> set l"
  shows "document_lines (BULK_RENAME_TMP_FILE_HEADER @ unlines ls) =
     map (\<lambda>l. l @ [NL]) ([''# CliFM - Rename files in bulk'',
       ''# Edit file names, save, and quit the editor (you will be'',
       ''# asked for confirmation)'',
       ''# Just quit the editor without any edit to cancel the operation'', []] @ ls)"
proof -
  have "\<forall>l\<in>set ([''# CliFM - Rename files in bulk'',
       ''# Edit file names, save, and quit the editor (you will be'',
       ''# asked for confirmation)'',
       ''# Just quit the editor without any edit to cancel the operation'', []] @ ls). NL \<notin> set l"
    using assms by (simp add: NL_def)
  from document_lines_unlines[OF this] show ?thesis
    unfolding rename_header_lines unlines_append .
qed

lemma fgets_rename_header:
  "filter (\<lambda>l. \<not> skip_line l) (fgets_all PATH_MAX (BULK_RENAME_TMP_FILE_HEADER @ B)) =
     filter (\<lambda>l. \<not> skip_line l) (fgets_all PATH_MAX B)"
proof -
  have h: "\<forall>l\<in>set [''# CliFM - Rename files in bulk'',
       ''# Edit file names, save, and quit the editor (you will be'',
       ''# asked for confirmation)'',
       ''# Just quit the editor without any edit to cancel the operation'', []].
       NL \<notin> set l \<and> length l + 1 < PATH_MAX"
    by (simp add: NL_def PATH_MAX_def)
  show ?thesis
    unfolding rename_header_lines fgets_all_lines[OF h]
    by (simp add: skip_line_simps)
qed

text \<open>
  C2, as amended. When every line of the edited document has fewer than \<open>PATH_MAX\<close>
  bytes, its newline not counted, and the number of non-comment lines of the document (the
  lines that are not empty and do not begin with \<^verbatim>\<open>#\<close>; a line of white space is one of
  them) differs from the number of valid input entries (\<open>total_input\<close>),
  \<^verbatim>\<open>bulk_rename\<close> stops before any rename: it reports the line mismatch, leaves the world
  as it was, calls \<^verbatim>\<open>unlinkat\<close> on the temporary document and returns a nonzero status
  (\<^verbatim>\<open>EXIT_FAILURE\<close>, or the \<^verbatim>\<open>errno\<close> of a failing \<^verbatim>\<open>unlinkat\<close>). The other
  hypotheses say that the command has reached the check: a valid name has been written, the
  editor has returned 0, the document has been reopened and its modification time has
  changed.
\<close>

theorem line_mismatch_aborts:
  assumes "arg_at args 1 = Some a1" and "\<not> IS_HELP a1"
    and "br_mkstemp env = Some bulk_file"
    and "write_renfiles_to_tmp env args bulk_file = (EXIT_SUCCESS, args', written, mtime_bfr, total_input, log1)"
    and "br_open_file env = EXIT_SUCCESS" and "br_open_fread_ok env"
    and "br_fstat env = Some mtime" and "mtime \<noteq> mtime_bfr"
    and "\<forall>l\<in>set (document_lines (br_edited env)). length (strip_newline l) < PATH_MAX"
    and "length (non_comment_lines (br_edited env)) \<noteq> total_input"
  shows "bulk_rename sys env args w =
      (if br_unlinkat env \<noteq> 0 then br_unlinkat env else EXIT_FAILURE, w,
       log1 @ [Open_file bulk_file, Xerror ''br: Line mismatch in temporary file'' [], Unlinkat bulk_file]
         @ (if br_unlinkat env \<noteq> 0 then [Xerror ''br: unlinkat: '%s': %s'' [bulk_file]] else []))
    \<and> fst (bulk_rename sys env args w) \<noteq> 0
    \<and> fst (snd (bulk_rename sys env args w)) = w
    \<and> filter mutation (snd (snd (bulk_rename sys env args w))) = []"
proof -
  have q: "filter mutation log1 = []"
    using write_renfiles_to_tmp_quiet[OF assms(4)] by simp
  have c: "count_lines_loop (fgets_all PATH_MAX (br_edited env)) 0 \<noteq> total_input"
    using count_lines_of_document[OF assms(9)] assms(10) by simp
  have m: "fst (check_line_mismatch (br_edited env) total_input) = EXIT_FAILURE"
    "snd (check_line_mismatch (br_edited env) total_input) = [Xerror ''br: Line mismatch in temporary file'' []]"
    using c by (auto simp add: check_line_mismatch_def)
  have b: "bulk_rename sys env args w =
      (if br_unlinkat env \<noteq> 0 then br_unlinkat env else EXIT_FAILURE, w,
       log1 @ [Open_file bulk_file, Xerror ''br: Line mismatch in temporary file'' [], Unlinkat bulk_file]
         @ (if br_unlinkat env \<noteq> 0 then [Xerror ''br: unlinkat: '%s': %s'' [bulk_file]] else []))"
    using assms(1-8) m
    by (simp add: bulk_rename_def open_bulk_file_def bulk_rename_error_def EXIT_SUCCESS_def EXIT_FAILURE_def)
  show ?thesis
    unfolding b using q by (simp add: EXIT_FAILURE_def)
qed

lemma demo_write_ab:
  "write_renfiles_to_tmp (demo_br_env [''a'', ''b''] edited) [''br'', ''a'', ''b''] ''/tmp/clifm/bulk.Ab12Cd'' =
     (EXIT_SUCCESS, [''br'', ''a'', ''b''],
      BULK_RENAME_TMP_FILE_HEADER @ unlines [''a'', ''b''], 100, 2, [])"
  by (simp add: write_renfiles_to_tmp_def demo_br_env_def prepare_arg_def dot_relative_def
      EXIT_SUCCESS_def unlines_def)

lemma short_lines:
  "\<forall>l\<in>set [''a'']. NL \<notin> set l \<and> length l + 1 < PATH_MAX"
  "\<forall>l\<in>set [''b'', ''a'']. NL \<notin> set l \<and> length l + 1 < PATH_MAX"
  "\<forall>l\<in>set [''nodir/a'', ''/root/b'']. NL \<notin> set l \<and> length l + 1 < PATH_MAX"
  by (simp_all add: NL_def PATH_MAX_def)

theorem line_mismatch_aborts_witness:
  "bulk_rename demo_sys (demo_br_env [''a'', ''b''] (BULK_RENAME_TMP_FILE_HEADER @ unlines [''a'']))
     [''br'', ''a'', ''b''] [''a'', ''b''] =
   (1, [''a'', ''b''],
    [Open_file ''/tmp/clifm/bulk.Ab12Cd'', Xerror ''br: Line mismatch in temporary file'' [],
     Unlinkat ''/tmp/clifm/bulk.Ab12Cd''])"
proof -
  let ?env = "demo_br_env [''a'', ''b''] (BULK_RENAME_TMP_FILE_HEADER @ unlines [''a''])"
  have h1: "arg_at [''br'', ''a'', ''b''] 1 = Some ''a''"
    by (simp add: arg_at_def)
  have h2: "\<not> IS_HELP ''a''"
    by (simp add: IS_HELP_def)
  have h8: "(160::int) \<noteq> 100"
    by simp
  have n: "\<forall>l\<in>set [''a'']. NL \<notin> set l"
    by (simp add: NL_def)
  have h9: "\<forall>l\<in>set (document_lines (br_edited ?env)). length (strip_newline l) < PATH_MAX"
    unfolding demo_br_env_sel rename_doc_lines[OF n]
    by (simp add: strip_newline_def PATH_MAX_def)
  have h10: "length (non_comment_lines (br_edited ?env)) \<noteq> 2"
    unfolding demo_br_env_sel non_comment_lines_skip rename_doc_lines[OF n]
    by (simp add: skip_line_simps NL_def NUL_def)
  show ?thesis
    using line_mismatch_aborts[OF h1 h2 demo_br_env_sel(1) demo_write_ab demo_br_env_sel(4)
        demo_br_env_sel(3) demo_br_env_sel(6) h8 h9 h10, of demo_sys "[''a'', ''b'']"]
    by (simp add: demo_br_env_sel EXIT_FAILURE_def)
qed

lemma count_modified_loop_quiet:
  "filter is_renameat (snd acc) = [] \<Longrightarrow>
   filter is_renameat (snd (count_modified_loop args ls i acc)) = []"
  by (induction args ls i acc rule: count_modified_loop.induct) (auto split: option.splits)

lemma count_modified_loop_fst:
  "fst (count_modified_loop args ls i (m, log)) = m + length (change_list args ls i)"
  by (induction ls arbitrary: i m log) (auto split: option.splits)

lemma count_modified_names_quiet:
  "count_modified_names args content = (modified, log3) \<Longrightarrow> filter is_renameat log3 = []"
proof -
  assume a: "count_modified_names args content = (modified, log3)"
  obtain m l where c: "count_modified_loop args (fgets_all PATH_MAX content) 1 (0, []) = (m, l)"
    by (cases "count_modified_loop args (fgets_all PATH_MAX content) 1 (0, [])") auto
  have "filter is_renameat l = []"
    using count_modified_loop_quiet[of "(0, [])" args "fgets_all PATH_MAX content" 1] c by simp
  then show ?thesis
    using a c by (auto simp add: count_modified_names_def split: if_splits)
qed

lemma bulk_rename_applied:
  assumes "arg_at args 1 = Some a1" and "\<not> IS_HELP a1"
    and "br_mkstemp env = Some bulk_file"
    and "write_renfiles_to_tmp env args bulk_file = (EXIT_SUCCESS, args', written, mtime_bfr, total_input, log1)"
    and "br_open_file env = EXIT_SUCCESS" and "br_open_fread_ok env"
    and "br_fstat env = Some mtime" and "mtime \<noteq> mtime_bfr"
    and "count_lines_loop (fgets_all PATH_MAX (br_edited env)) 0 = total_input"
    and "br_answer env"
    and "count_modified_names args' (br_edited env) = (modified, log3)"
    and "st = rename_bulk_files sys (br_autols env) args' (br_edited env) modified
           (w, log1 @ [Open_file bulk_file] @ log3 @ [Rl_get_y_or_n ''Continue? [y/n] ''])"
  shows "bulk_rename sys env args w =
      (if br_unlinkat env \<noteq> 0 then br_unlinkat env else exit_status st,
       world st,
       events st @ [Unlinkat bulk_file]
         @ (if br_unlinkat env \<noteq> 0 then [Err_warn ''br: unlink: '%s': %s'' [bulk_file]] else [])
         @ (if br_have_sel env then [Get_sel_files] else [])
         @ (if renamed st > 0 \<and> is_cwd st \<and> br_autols env then [Reload_dirlist] else [])
         @ [Print_reload_msg (renamed st)])"
proof -
  have m: "check_line_mismatch (br_edited env) total_input = (EXIT_SUCCESS, [])"
    using assms(9) by (simp add: check_line_mismatch_def)
  show ?thesis
    using assms(1-8,10-12) m
    by (simp add: bulk_rename_def open_bulk_file_def EXIT_SUCCESS_def Let_def)
qed

text \<open>
  C1, as amended. Once the user has confirmed, \<^verbatim>\<open>rename_bulk_files\<close> hands every pair
  of the change list to \<^verbatim>\<open>rename_file\<close>, whatever the earlier calls have returned: the
  \<^verbatim>\<open>renameat\<close> calls of \<^verbatim>\<open>bulk_rename\<close> are the pairs of the change list, in order.
  \<^verbatim>\<open>bulk_rename\<close> returns the last nonzero value that \<^verbatim>\<open>rename_file\<close> has returned
  (0 when none is nonzero), or the \<^verbatim>\<open>errno\<close> of the final \<^verbatim>\<open>unlinkat\<close> when that call
  fails.
\<close>

theorem bulk_rename_returns_last_error:
  assumes "arg_at args 1 = Some a1" and "\<not> IS_HELP a1"
    and "br_mkstemp env = Some bulk_file"
    and "write_renfiles_to_tmp env args bulk_file = (EXIT_SUCCESS, args', written, mtime_bfr, total_input, log1)"
    and "br_open_file env = EXIT_SUCCESS" and "br_open_fread_ok env"
    and "br_fstat env = Some mtime" and "mtime \<noteq> mtime_bfr"
    and "count_lines_loop (fgets_all PATH_MAX (br_edited env)) 0 = total_input"
    and "br_answer env"
  shows "fst (bulk_rename sys env args w) =
      (if br_unlinkat env \<noteq> 0 then br_unlinkat env
       else last_nonzero (rename_codes sys w
              (change_list args' (fgets_all PATH_MAX (br_edited env)) 1)))
    \<and> filter is_renameat (snd (snd (bulk_rename sys env args w))) =
      map (\<lambda>(a, l). Renameat a (trim_slash l))
        (change_list args' (fgets_all PATH_MAX (br_edited env)) 1)"
proof -
  obtain modified log3 where c: "count_modified_names args' (br_edited env) = (modified, log3)"
    by (cases "count_modified_names args' (br_edited env)") auto
  define st where "st = rename_bulk_files sys (br_autols env) args' (br_edited env) modified
     (w, log1 @ [Open_file bulk_file] @ log3 @ [Rl_get_y_or_n ''Continue? [y/n] ''])"
  note b = bulk_rename_applied[OF assms c st_def]
  have q1: "filter is_renameat log1 = []"
    using write_renfiles_to_tmp_quiet[OF assms(4)] by simp
  have q3: "filter is_renameat log3 = []"
    using count_modified_names_quiet[OF c] .
  have e: "exit_status st = last_nonzero (rename_codes sys w
              (change_list args' (fgets_all PATH_MAX (br_edited env)) 1))"
    by (simp add: st_def rename_bulk_files_def loop_exit_status EXIT_SUCCESS_def foldl_last_nonzero)
  have r: "filter is_renameat (events st) = map (\<lambda>(a, l). Renameat a (trim_slash l))
        (change_list args' (fgets_all PATH_MAX (br_edited env)) 1)"
    using q1 q3 by (simp add: st_def rename_bulk_files_def loop_renameat_events)
  have 1: "fst (bulk_rename sys env args w) =
      (if br_unlinkat env \<noteq> 0 then br_unlinkat env
       else last_nonzero (rename_codes sys w
              (change_list args' (fgets_all PATH_MAX (br_edited env)) 1)))"
    unfolding b using e by simp
  have 2: "filter is_renameat (snd (snd (bulk_rename sys env args w))) =
      map (\<lambda>(a, l). Renameat a (trim_slash l))
        (change_list args' (fgets_all PATH_MAX (br_edited env)) 1)"
    unfolding b using r by simp
  show ?thesis
    using 1 2 by (rule conjI)
qed

lemma demo_two_failures:
  "change_list [''br'', ''a'', ''b'']
     (fgets_all PATH_MAX (BULK_RENAME_TMP_FILE_HEADER @ unlines [''nodir/a'', ''/root/b''])) 1 =
   [(''a'', ''nodir/a''), (''b'', ''/root/b'')]"
  "count_lines_loop
     (fgets_all PATH_MAX (BULK_RENAME_TMP_FILE_HEADER @ unlines [''nodir/a'', ''/root/b''])) 0 = 2"
  "rename_codes demo_sys [''a'', ''b''] [(''a'', ''nodir/a''), (''b'', ''/root/b'')] = [ENOENT, EACCES]"
proof -
  show "change_list [''br'', ''a'', ''b'']
     (fgets_all PATH_MAX (BULK_RENAME_TMP_FILE_HEADER @ unlines [''nodir/a'', ''/root/b''])) 1 =
   [(''a'', ''nodir/a''), (''b'', ''/root/b'')]"
    unfolding change_list_filter[of _ "fgets_all _ _"] fgets_rename_doc[OF short_lines(3)]
    by (simp add: skip_line_simps NL_def NUL_def chomp_def cstr_def arg_at_def)
  show "count_lines_loop
     (fgets_all PATH_MAX (BULK_RENAME_TMP_FILE_HEADER @ unlines [''nodir/a'', ''/root/b''])) 0 = 2"
    unfolding count_lines_loop_filter fgets_rename_doc[OF short_lines(3)]
    by (simp add: skip_line_simps NL_def NUL_def)
  show "rename_codes demo_sys [''a'', ''b''] [(''a'', ''nodir/a''), (''b'', ''/root/b'')] = [ENOENT, EACCES]"
    by (simp add: rename_file_def demo_sys_def demo_renameat_def trim_slash_def
        ENOENT_def EACCES_def EXDEV_def Let_def)
qed

text \<open>
  C1 as stated (the first nonzero code is returned) fails: with the two names edited to
  \<^verbatim>\<open>nodir/a\<close> and \<^verbatim>\<open>/root/b\<close>, the first rename fails with \<^verbatim>\<open>ENOENT\<close>, the second
  with \<^verbatim>\<open>EACCES\<close>, and \<^verbatim>\<open>bulk_rename\<close> returns \<^verbatim>\<open>EACCES\<close>.
\<close>

theorem bulk_rename_first_error_counterexample:
  "rename_codes demo_sys [''a'', ''b'']
     (change_list [''br'', ''a'', ''b'']
        (fgets_all PATH_MAX (BULK_RENAME_TMP_FILE_HEADER @ unlines [''nodir/a'', ''/root/b''])) 1) =
     [ENOENT, EACCES]
   \<and> first_nonzero [ENOENT, EACCES] = ENOENT
   \<and> fst (bulk_rename demo_sys
        (demo_br_env [''a'', ''b''] (BULK_RENAME_TMP_FILE_HEADER @ unlines [''nodir/a'', ''/root/b'']))
        [''br'', ''a'', ''b''] [''a'', ''b'']) = EACCES
   \<and> EACCES \<noteq> ENOENT"
proof -
  let ?doc = "BULK_RENAME_TMP_FILE_HEADER @ unlines [''nodir/a'', ''/root/b'']"
  let ?env = "demo_br_env [''a'', ''b''] ?doc"
  have h1: "arg_at [''br'', ''a'', ''b''] 1 = Some ''a''"
    by (simp add: arg_at_def)
  have h2: "\<not> IS_HELP ''a''"
    by (simp add: IS_HELP_def)
  have h8: "(160::int) \<noteq> 100"
    by simp
  have h9: "count_lines_loop (fgets_all PATH_MAX (br_edited ?env)) 0 = 2"
    unfolding demo_br_env_sel demo_two_failures by simp
  obtain modified log3 where c: "count_modified_names [''br'', ''a'', ''b''] (br_edited ?env) = (modified, log3)"
    by (cases "count_modified_names [''br'', ''a'', ''b''] (br_edited ?env)") auto
  define st where "st = rename_bulk_files demo_sys (br_autols ?env) [''br'', ''a'', ''b''] (br_edited ?env)
     modified ([''a'', ''b''], [] @ [Open_file ''/tmp/clifm/bulk.Ab12Cd''] @ log3
       @ [Rl_get_y_or_n ''Continue? [y/n] ''])"
  have e: "exit_status st = EACCES"
  proof -
    have "exit_status st = foldl (\<lambda>acc c. if c \<noteq> 0 then c else acc) EXIT_SUCCESS
        (rename_codes demo_sys [''a'', ''b'']
           (change_list [''br'', ''a'', ''b''] (fgets_all PATH_MAX ?doc) 1))"
      unfolding st_def rename_bulk_files_def loop_exit_status
      by (simp only: rename_state.select_convs fst_conv demo_br_env_sel)
    then show ?thesis
      unfolding demo_two_failures by (simp add: EXIT_SUCCESS_def ENOENT_def EACCES_def)
  qed
  have "fst (bulk_rename demo_sys ?env [''br'', ''a'', ''b''] [''a'', ''b'']) = EACCES"
    unfolding bulk_rename_applied[OF h1 h2 demo_br_env_sel(1) demo_write_ab demo_br_env_sel(4)
        demo_br_env_sel(3) demo_br_env_sel(6) h8 h9 demo_br_env_sel(8) c st_def]
    using e by (simp add: demo_br_env_sel)
  then show ?thesis
    unfolding demo_two_failures by (simp add: first_nonzero_def ENOENT_def EACCES_def)
qed

theorem bulk_rename_returns_last_error_witness:
  "fst (bulk_rename demo_sys
        (demo_br_env [''a'', ''b''] (BULK_RENAME_TMP_FILE_HEADER @ unlines [''nodir/a'', ''/root/b'']))
        [''br'', ''a'', ''b''] [''a'', ''b'']) = last_nonzero [ENOENT, EACCES]
   \<and> filter is_renameat (snd (snd (bulk_rename demo_sys
        (demo_br_env [''a'', ''b''] (BULK_RENAME_TMP_FILE_HEADER @ unlines [''nodir/a'', ''/root/b'']))
        [''br'', ''a'', ''b''] [''a'', ''b'']))) =
      [Renameat ''a'' ''nodir/a'', Renameat ''b'' ''/root/b'']"
proof -
  let ?env = "demo_br_env [''a'', ''b''] (BULK_RENAME_TMP_FILE_HEADER @ unlines [''nodir/a'', ''/root/b''])"
  have h1: "arg_at [''br'', ''a'', ''b''] 1 = Some ''a''"
    by (simp add: arg_at_def)
  have h2: "\<not> IS_HELP ''a''"
    by (simp add: IS_HELP_def)
  have h8: "(160::int) \<noteq> 100"
    by simp
  have h9: "count_lines_loop (fgets_all PATH_MAX (br_edited ?env)) 0 = 2"
    unfolding demo_br_env_sel demo_two_failures by simp
  show ?thesis
    using bulk_rename_returns_last_error[OF h1 h2 demo_br_env_sel(1) demo_write_ab demo_br_env_sel(4)
        demo_br_env_sel(3) demo_br_env_sel(6) h8 h9 demo_br_env_sel(8), of demo_sys "[''a'', ''b'']"]
    unfolding demo_br_env_sel demo_two_failures
    by (simp add: trim_slash_def)
qed

lemma long_name_chunks:
  "fgets_all PATH_MAX (unlines [CHR ''x'' # replicate 4095 (CHR ''x'')]) =
     [CHR ''x'' # replicate 4094 (CHR ''x''), ''x'' @ [NL]]"
proof -
  have r: "replicate 4095 (CHR ''x'') = replicate 4094 (CHR ''x'') @ ''x''"
  proof -
    have "(4095::nat) = Suc 4094"
      by simp
    then show ?thesis
      by (simp only: replicate_Suc replicate_append_same)
  qed
  have e: "unlines [CHR ''x'' # replicate 4095 (CHR ''x'')] =
      (CHR ''x'' # replicate 4094 (CHR ''x'')) @ unlines [''x'']"
    unfolding r by (simp add: unlines_def)
  have n: "NL \<notin> set (CHR ''x'' # replicate 4094 (CHR ''x''))"
    by (simp add: NL_def)
  have l: "length (CHR ''x'' # replicate 4094 (CHR ''x'')) = PATH_MAX - 1" and p: "2 \<le> PATH_MAX"
    by (simp_all add: PATH_MAX_def)
  have s: "\<forall>l\<in>set [''x'']. NL \<notin> set l \<and> length l + 1 < PATH_MAX"
    by (simp add: NL_def PATH_MAX_def)
  have "fgets_all PATH_MAX (unlines [''x'']) = [''x'' @ [NL]]"
    using fgets_all_lines[OF s, of "[]"] by (simp add: fgets_all_Nil)
  then show ?thesis
    unfolding e fgets_all_full[OF n l p] by simp
qed

lemma demo_long_name:
  "length (non_comment_lines
     (BULK_RENAME_TMP_FILE_HEADER @ unlines [CHR ''x'' # replicate 4095 (CHR ''x'')])) = 1"
  "check_line_mismatch
     (BULK_RENAME_TMP_FILE_HEADER @ unlines [CHR ''x'' # replicate 4095 (CHR ''x'')]) 2 =
     (EXIT_SUCCESS, [])"
  "change_list [''br'', ''a'', ''b'']
     (fgets_all PATH_MAX
        (BULK_RENAME_TMP_FILE_HEADER @ unlines [CHR ''x'' # replicate 4095 (CHR ''x'')])) 1 =
     [(''a'', CHR ''x'' # replicate 4094 (CHR ''x'')), (''b'', ''x'')]"
proof -
  have n: "\<forall>l\<in>set [CHR ''x'' # replicate 4095 (CHR ''x'')]. NL \<notin> set l"
    by (simp add: NL_def)
  show "length (non_comment_lines
     (BULK_RENAME_TMP_FILE_HEADER @ unlines [CHR ''x'' # replicate 4095 (CHR ''x'')])) = 1"
    unfolding non_comment_lines_skip rename_doc_lines[OF n]
    by (simp add: skip_line_simps NL_def NUL_def)
  show "check_line_mismatch
     (BULK_RENAME_TMP_FILE_HEADER @ unlines [CHR ''x'' # replicate 4095 (CHR ''x'')]) 2 =
     (EXIT_SUCCESS, [])"
    unfolding check_line_mismatch_def count_lines_loop_filter fgets_rename_header long_name_chunks
    by (simp add: skip_line_simps NL_def NUL_def)
  show "change_list [''br'', ''a'', ''b'']
     (fgets_all PATH_MAX
        (BULK_RENAME_TMP_FILE_HEADER @ unlines [CHR ''x'' # replicate 4095 (CHR ''x'')])) 1 =
     [(''a'', CHR ''x'' # replicate 4094 (CHR ''x'')), (''b'', ''x'')]"
    unfolding change_list_filter[of _ "fgets_all _ _"] fgets_rename_header long_name_chunks
    by (simp add: skip_line_simps NL_def NUL_def chomp_def cstr_def arg_at_def)
qed

lemma demo_space_line:
  "length (filter (\<lambda>l. hd l \<noteq> CHR ''#'' \<and> (\<exists>c\<in>set l. c \<notin> {CHR '' '', CHR 0x09, NL}))
     (document_lines (BULK_RENAME_TMP_FILE_HEADER @ unlines [''a'', '' '']))) = 1"
  "count_lines_loop (fgets_all PATH_MAX (BULK_RENAME_TMP_FILE_HEADER @ unlines [''a'', '' ''])) 0 = 2"
  "change_list [''br'', ''a'', ''b'']
     (fgets_all PATH_MAX (BULK_RENAME_TMP_FILE_HEADER @ unlines [''a'', '' ''])) (Suc 0) =
     [(''b'', '' '')]"
proof -
  have n: "\<forall>l\<in>set [''a'', '' '']. NL \<notin> set l"
    by (simp add: NL_def)
  have s: "\<forall>l\<in>set [''a'', '' '']. NL \<notin> set l \<and> length l + 1 < PATH_MAX"
    by (simp add: NL_def PATH_MAX_def)
  show "length (filter (\<lambda>l. hd l \<noteq> CHR ''#'' \<and> (\<exists>c\<in>set l. c \<notin> {CHR '' '', CHR 0x09, NL}))
     (document_lines (BULK_RENAME_TMP_FILE_HEADER @ unlines [''a'', '' '']))) = 1"
    unfolding rename_doc_lines[OF n] by (simp add: NL_def)
  show "count_lines_loop (fgets_all PATH_MAX (BULK_RENAME_TMP_FILE_HEADER @ unlines [''a'', '' ''])) 0 = 2"
    unfolding count_lines_loop_filter fgets_rename_doc[OF s]
    by (simp add: skip_line_simps NL_def NUL_def)
  show "change_list [''br'', ''a'', ''b'']
     (fgets_all PATH_MAX (BULK_RENAME_TMP_FILE_HEADER @ unlines [''a'', '' ''])) (Suc 0) =
     [(''b'', '' '')]"
    unfolding change_list_filter[of _ "fgets_all _ _"] fgets_rename_doc[OF s]
    by (simp add: skip_line_simps NL_def NUL_def chomp_def cstr_def arg_at_def)
qed

lemma demo_renameat_events:
  assumes "count_lines_loop (fgets_all PATH_MAX doc) 0 = 2"
  shows "filter is_renameat (snd (snd (bulk_rename demo_sys (demo_br_env [''a'', ''b''] doc)
       [''br'', ''a'', ''b''] [''a'', ''b'']))) =
     map (\<lambda>(a, l). Renameat a (trim_slash l))
       (change_list [''br'', ''a'', ''b''] (fgets_all PATH_MAX doc) (Suc 0))"
proof -
  let ?env = "demo_br_env [''a'', ''b''] doc"
  have h1: "arg_at [''br'', ''a'', ''b''] 1 = Some ''a''"
    by (simp add: arg_at_def)
  have h2: "\<not> IS_HELP ''a''"
    by (simp add: IS_HELP_def)
  have h8: "(160::int) \<noteq> 100"
    by simp
  have h9: "count_lines_loop (fgets_all PATH_MAX (br_edited ?env)) 0 = 2"
    using assms by (simp add: demo_br_env_sel)
  obtain modified log3 where c: "count_modified_names [''br'', ''a'', ''b''] (br_edited ?env) = (modified, log3)"
    by (cases "count_modified_names [''br'', ''a'', ''b''] (br_edited ?env)") auto
  define st where "st = rename_bulk_files demo_sys (br_autols ?env) [''br'', ''a'', ''b''] (br_edited ?env)
     modified ([''a'', ''b''], [] @ [Open_file ''/tmp/clifm/bulk.Ab12Cd''] @ log3
       @ [Rl_get_y_or_n ''Continue? [y/n] ''])"
  note b = bulk_rename_applied[OF h1 h2 demo_br_env_sel(1) demo_write_ab demo_br_env_sel(4)
        demo_br_env_sel(3) demo_br_env_sel(6) h8 h9 demo_br_env_sel(8) c st_def]
  have q3: "filter is_renameat log3 = []"
    using count_modified_names_quiet[OF c] .
  have r: "filter is_renameat (events st) =
      map (\<lambda>(a, l). Renameat a (trim_slash l))
        (change_list [''br'', ''a'', ''b''] (fgets_all PATH_MAX doc) (Suc 0))"
    unfolding st_def rename_bulk_files_def loop_renameat_events
    using q3 by (simp add: demo_br_env_sel)
  show ?thesis
    unfolding b using r by simp
qed

text \<open>
  C2 as stated fails for a line that does not fit the line buffer, and for a line of white
  space. In the first document one non-comment line, of 4096 letters, stands for the two
  entries \<^verbatim>\<open>a\<close> and \<^verbatim>\<open>b\<close>; \<^verbatim>\<open>fgets\<close> reads the line in two pieces,
  \<^verbatim>\<open>check_line_mismatch\<close> counts two, and \<^verbatim>\<open>bulk_rename\<close> renames \<^verbatim>\<open>a\<close> to the
  first 4095 letters and \<^verbatim>\<open>b\<close> to the last one. In the second document the line of
  \<^verbatim>\<open>b\<close> holds one space: one line is neither a comment nor blank, yet the line is
  counted and \<^verbatim>\<open>b\<close> is renamed to the space.
\<close>

theorem line_count_counterexample:
  "length (non_comment_lines
     (BULK_RENAME_TMP_FILE_HEADER @ unlines [CHR ''x'' # replicate 4095 (CHR ''x'')])) = 1
   \<and> write_renfiles_to_tmp
       (demo_br_env [''a'', ''b'']
          (BULK_RENAME_TMP_FILE_HEADER @ unlines [CHR ''x'' # replicate 4095 (CHR ''x'')]))
       [''br'', ''a'', ''b''] ''/tmp/clifm/bulk.Ab12Cd'' =
     (EXIT_SUCCESS, [''br'', ''a'', ''b''],
      BULK_RENAME_TMP_FILE_HEADER @ unlines [''a'', ''b''], 100, 2, [])
   \<and> filter is_renameat (snd (snd (bulk_rename demo_sys
       (demo_br_env [''a'', ''b'']
          (BULK_RENAME_TMP_FILE_HEADER @ unlines [CHR ''x'' # replicate 4095 (CHR ''x'')]))
       [''br'', ''a'', ''b''] [''a'', ''b'']))) =
     [Renameat ''a'' (CHR ''x'' # replicate 4094 (CHR ''x'')), Renameat ''b'' ''x'']
   \<and> fst (snd (bulk_rename demo_sys
       (demo_br_env [''a'', ''b'']
          (BULK_RENAME_TMP_FILE_HEADER @ unlines [CHR ''x'' # replicate 4095 (CHR ''x'')]))
       [''br'', ''a'', ''b''] [''a'', ''b''])) \<noteq> [''a'', ''b'']
   \<and> length (filter (\<lambda>l. hd l \<noteq> CHR ''#'' \<and> (\<exists>c\<in>set l. c \<notin> {CHR '' '', CHR 0x09, NL}))
       (document_lines (BULK_RENAME_TMP_FILE_HEADER @ unlines [''a'', '' '']))) = 1
   \<and> filter is_renameat (snd (snd (bulk_rename demo_sys
       (demo_br_env [''a'', ''b''] (BULK_RENAME_TMP_FILE_HEADER @ unlines [''a'', '' '']))
       [''br'', ''a'', ''b''] [''a'', ''b'']))) =
     [Renameat ''b'' '' '']"
proof -
  let ?doc = "BULK_RENAME_TMP_FILE_HEADER @ unlines [CHR ''x'' # replicate 4095 (CHR ''x'')]"
  let ?env = "demo_br_env [''a'', ''b''] ?doc"
  have h1: "arg_at [''br'', ''a'', ''b''] 1 = Some ''a''"
    by (simp add: arg_at_def)
  have h2: "\<not> IS_HELP ''a''"
    by (simp add: IS_HELP_def)
  have h8: "(160::int) \<noteq> 100"
    by simp
  have h9: "count_lines_loop (fgets_all PATH_MAX (br_edited ?env)) 0 = 2"
    using demo_long_name(2) by (simp add: demo_br_env_sel check_line_mismatch_def split: if_splits)
  obtain modified log3 where c: "count_modified_names [''br'', ''a'', ''b''] (br_edited ?env) = (modified, log3)"
    by (cases "count_modified_names [''br'', ''a'', ''b''] (br_edited ?env)") auto
  define st where "st = rename_bulk_files demo_sys (br_autols ?env) [''br'', ''a'', ''b''] (br_edited ?env)
     modified ([''a'', ''b''], [] @ [Open_file ''/tmp/clifm/bulk.Ab12Cd''] @ log3
       @ [Rl_get_y_or_n ''Continue? [y/n] ''])"
  note b = bulk_rename_applied[OF h1 h2 demo_br_env_sel(1) demo_write_ab demo_br_env_sel(4)
        demo_br_env_sel(3) demo_br_env_sel(6) h8 h9 demo_br_env_sel(8) c st_def]
  have q3: "filter is_renameat log3 = []"
    using count_modified_names_quiet[OF c] .
  have cl: "change_list [''br'', ''a'', ''b''] (fgets_all PATH_MAX ?doc) (Suc 0) =
     [(''a'', CHR ''x'' # replicate 4094 (CHR ''x'')), (''b'', ''x'')]"
    using demo_long_name(3) by simp
  have r: "filter is_renameat (events st) =
      [Renameat ''a'' (CHR ''x'' # replicate 4094 (CHR ''x'')), Renameat ''b'' ''x'']"
    unfolding st_def rename_bulk_files_def loop_renameat_events
    using q3 by (simp add: demo_br_env_sel cl trim_slash_def)
  have 3: "filter is_renameat (snd (snd (bulk_rename demo_sys ?env [''br'', ''a'', ''b''] [''a'', ''b'']))) =
     [Renameat ''a'' (CHR ''x'' # replicate 4094 (CHR ''x'')), Renameat ''b'' ''x'']"
    unfolding b using r by simp
  have wd: "world st = [''x'', CHR ''x'' # replicate 4094 (CHR ''x'')]"
    unfolding st_def rename_bulk_files_def rename_bulk_loop_filter[of _ _ _ _ "fgets_all _ _"]
      demo_br_env_sel fgets_rename_header long_name_chunks
    by (simp add: skip_line_simps NL_def NUL_def chomp_def cstr_def arg_at_def rename_file_def
        demo_sys_def demo_renameat_def trim_slash_def Let_def)
  have 4: "fst (snd (bulk_rename demo_sys ?env [''br'', ''a'', ''b''] [''a'', ''b''])) \<noteq> [''a'', ''b'']"
    unfolding b using wd by simp
  have 6: "filter is_renameat (snd (snd (bulk_rename demo_sys
       (demo_br_env [''a'', ''b''] (BULK_RENAME_TMP_FILE_HEADER @ unlines [''a'', '' '']))
       [''br'', ''a'', ''b''] [''a'', ''b'']))) =
     [Renameat ''b'' '' '']"
    unfolding demo_renameat_events[OF demo_space_line(2)] demo_space_line(3)
    by (simp add: trim_slash_def)
  show ?thesis
    using demo_long_name(1) demo_write_ab 3 4 demo_space_line(1) 6 by blast
qed

lemma demo_missing_arg:
  "write_renfiles_to_tmp (demo_br_env [''a''] edited) [''br'', ''missing'', ''a''] ''/tmp/clifm/bulk.Ab12Cd'' =
     (EXIT_SUCCESS, [''br'', ''missing'', ''a''], BULK_RENAME_TMP_FILE_HEADER @ unlines [''a''], 100, 1,
      [Xerror ''br: '%s': %s'' [''missing''], Press_any_key])"
  "check_line_mismatch (BULK_RENAME_TMP_FILE_HEADER @ unlines [''b'']) (Suc 0) = (EXIT_SUCCESS, [])"
  "count_modified_names [''br'', ''missing'', ''a''] (BULK_RENAME_TMP_FILE_HEADER @ unlines [''b'']) =
     (Suc 0, [Print_change ''missing'' ''b''])"
  "rename_bulk_files demo_sys True [''br'', ''missing'', ''a'']
     (BULK_RENAME_TMP_FILE_HEADER @ unlines [''b'']) (Suc 0) ([''a''], log) =
   \<lparr>exit_status = ENOENT, is_cwd = False, renamed = 0, world = [''a''],
    events = log @ [Renameat ''missing'' ''b'',
      Xerror ''br: Cannot rename '%s' to '%s': %s'' [''missing'', ''b'']]\<rparr>"
proof -
  have s: "\<forall>l\<in>set [''b'']. NL \<notin> set l \<and> length l + 1 < PATH_MAX"
    by (simp add: NL_def PATH_MAX_def)
  show "write_renfiles_to_tmp (demo_br_env [''a''] edited) [''br'', ''missing'', ''a''] ''/tmp/clifm/bulk.Ab12Cd'' =
     (EXIT_SUCCESS, [''br'', ''missing'', ''a''], BULK_RENAME_TMP_FILE_HEADER @ unlines [''a''], 100, 1,
      [Xerror ''br: '%s': %s'' [''missing''], Press_any_key])"
    by (simp add: write_renfiles_to_tmp_def demo_br_env_def prepare_arg_def dot_relative_def
        EXIT_SUCCESS_def unlines_def)
  show "check_line_mismatch (BULK_RENAME_TMP_FILE_HEADER @ unlines [''b'']) (Suc 0) = (EXIT_SUCCESS, [])"
    unfolding check_line_mismatch_def count_lines_loop_filter fgets_rename_doc[OF s]
    by (simp add: skip_line_simps NL_def NUL_def)
  show "count_modified_names [''br'', ''missing'', ''a''] (BULK_RENAME_TMP_FILE_HEADER @ unlines [''b'']) =
     (Suc 0, [Print_change ''missing'' ''b''])"
    unfolding count_modified_names_def count_modified_loop_filter[of _ "fgets_all _ _"]
      fgets_rename_doc[OF s]
    by (simp add: skip_line_simps NL_def NUL_def chomp_def cstr_def arg_at_def)
  show "rename_bulk_files demo_sys True [''br'', ''missing'', ''a'']
     (BULK_RENAME_TMP_FILE_HEADER @ unlines [''b'']) (Suc 0) ([''a''], log) =
   \<lparr>exit_status = ENOENT, is_cwd = False, renamed = 0, world = [''a''],
    events = log @ [Renameat ''missing'' ''b'',
      Xerror ''br: Cannot rename '%s' to '%s': %s'' [''missing'', ''b'']]\<rparr>"
    unfolding rename_bulk_files_def rename_bulk_loop_filter[of _ _ _ _ "fgets_all _ _"]
      fgets_rename_doc[OF s]
    by (simp add: skip_line_simps NL_def NUL_def chomp_def cstr_def arg_at_def rename_file_def
        demo_sys_def demo_renameat_def trim_slash_def ENOENT_def EXDEV_def Let_def)
qed

text \<open>
  C7, at an input where it fails. The argument \<^verbatim>\<open>missing\<close> does not exist
  (\<^verbatim>\<open>lstat\<close> fails), so only \<^verbatim>\<open>a\<close> is written to the document and
  \<open>total_input\<close> is 1; the user changes the only line to \<^verbatim>\<open>b\<close>. The line is paired
  with \<^verbatim>\<open>args[1]\<close>, the argument that was skipped, not with the first valid entry
  \<^verbatim>\<open>a\<close>: \<^verbatim>\<open>bulk_rename\<close> calls \<^verbatim>\<open>renameat\<close> on \<^verbatim>\<open>missing\<close>, which fails with
  \<^verbatim>\<open>ENOENT\<close>, and \<^verbatim>\<open>a\<close> is never renamed.
\<close>

theorem bulk_rename_pairs_with_invalid_argument:
  "bulk_rename demo_sys (demo_br_env [''a''] (BULK_RENAME_TMP_FILE_HEADER @ unlines [''b'']))
     [''br'', ''missing'', ''a''] [''a''] =
   (ENOENT, [''a''],
    [Xerror ''br: '%s': %s'' [''missing''], Press_any_key,
     Open_file ''/tmp/clifm/bulk.Ab12Cd'',
     Print_change ''missing'' ''b'',
     Rl_get_y_or_n ''Continue? [y/n] '',
     Renameat ''missing'' ''b'',
     Xerror ''br: Cannot rename '%s' to '%s': %s'' [''missing'', ''b''],
     Unlinkat ''/tmp/clifm/bulk.Ab12Cd'',
     Print_reload_msg 0])"
  by (simp add: bulk_rename_def demo_br_env_sel demo_missing_arg open_bulk_file_def arg_at_def
      IS_HELP_def EXIT_SUCCESS_def ENOENT_def)

subsection \<open>The remove flow\<close>

lemma list_has_iff: "list_has file list = (file \<in> set list)"
  by (induction list) auto

lemma remove_this_file_iff:
  "remove_this_file file list = (\<not> SELFORPARENT file \<and> file \<notin> set list)"
  by (simp add: remove_this_file_def list_has_iff)

lemma rem_cwd_loop_filter:
  "rem_cwd_loop entries tmp_files rem_files =
     rem_files @ filter (\<lambda>name. \<not> SELFORPARENT name \<and> name \<notin> set tmp_files) (map fst entries)"
  by (induction entries tmp_files rem_files rule: rem_cwd_loop.induct)
    (auto simp add: remove_this_file_iff)

lemma rem_dir_loop_filter:
  "rem_dir_loop ws_path t entries tmp_files rem_files =
     rem_files @ map (target_path ws_path t)
       (filter (\<lambda>name. \<not> SELFORPARENT name \<and> name \<notin> set tmp_files) (map fst entries))"
  by (induction ws_path t entries tmp_files rem_files rule: rem_dir_loop.induct)
    (auto simp add: remove_this_file_iff)

lemma get_remove_files_cwd:
  "get_remove_files env Cwd tmp_files a =
     ''rr'' # filter (\<lambda>name. \<not> SELFORPARENT name \<and> name \<notin> set tmp_files)
                (map fst (rr_file_info env))"
  by (simp add: get_remove_files_def rem_cwd_loop_filter)

lemma get_remove_files_dir:
  "get_remove_files env (Dir t) tmp_files a =
     ''rr'' # map (target_path (rr_ws_path env) t)
       (filter (\<lambda>name. \<not> SELFORPARENT name \<and> name \<notin> set tmp_files) (map fst a))"
  by (simp add: get_remove_files_def rem_dir_loop_filter)

lemma demo_rr_env_sel:
  "rr_ws_path (demo_rr_env listing scanned edited) = ''/home/user''"
  "rr_file_info (demo_rr_env listing scanned edited) = listing"
  "rr_mkstemp (demo_rr_env listing scanned edited) = Some ''/tmp/clifm/bulk.Ef34Gh''"
  "rr_open_fwrite_ok (demo_rr_env listing scanned edited)"
  "rr_count_dir (demo_rr_env listing scanned edited) p = int (length scanned)"
  "rr_scandir (demo_rr_env listing scanned edited) p = Some scanned"
  "rr_old_t (demo_rr_env listing scanned edited) = 100"
  "rr_new_t (demo_rr_env listing scanned edited) = 160"
  "rr_editor_status (demo_rr_env listing scanned edited) = 0"
  "rr_edited (demo_rr_env listing scanned edited) = edited"
  "rr_diff_fopen_ok (demo_rr_env listing scanned edited)"
  "rr_get_fopen_ok (demo_rr_env listing scanned edited)"
  "rr_unlinkat (demo_rr_env listing scanned edited) = 0"
  "rr_stat_isdir (demo_rr_env listing scanned edited) p = (if p = ''/srv/data'' then Some True else None)"
  "rr_get_cmd_path (demo_rr_env listing scanned edited) p = (p = ''vi'')"
  by (simp_all add: demo_rr_env_def)

lemma remove_parts_edited:
  "parse_bulk_remove_params (env\<lparr>rr_edited := d\<rparr>) s1 s2 = parse_bulk_remove_params env s1 s2"
  "write_files_to_tmp (env\<lparr>rr_edited := d\<rparr>) target f = write_files_to_tmp env target f"
  "open_tmp_file (env\<lparr>rr_edited := d\<rparr>) f app = open_tmp_file env f app"
  "get_remove_files (env\<lparr>rr_edited := d\<rparr>) target names a = get_remove_files env target names a"
  "bulk_remove_end (env\<lparr>rr_edited := d\<rparr>) f = bulk_remove_end env f"
  "diff_files (env\<lparr>rr_edited := d\<rparr>) content n = diff_files env content n"
  "get_files_from_tmp_file (env\<lparr>rr_edited := d\<rparr>) content = get_files_from_tmp_file env content"
  by (simp_all add: parse_bulk_remove_params_def write_files_to_tmp_def open_tmp_file_def
      get_remove_files_def bulk_remove_end_def diff_files_def get_files_from_tmp_file_def Let_def
      cong: option.case_cong prod.case_cong target.case_cong if_cong)

lemma remove_env_edited:
  "rr_mkstemp (env\<lparr>rr_edited := d\<rparr>) = rr_mkstemp env"
  "rr_old_t (env\<lparr>rr_edited := d\<rparr>) = rr_old_t env"
  "rr_new_t (env\<lparr>rr_edited := d\<rparr>) = rr_new_t env"
  "rr_diff_fopen_ok (env\<lparr>rr_edited := d\<rparr>) = rr_diff_fopen_ok env"
  "rr_get_fopen_ok (env\<lparr>rr_edited := d\<rparr>) = rr_get_fopen_ok env"
  "rr_file_info (env\<lparr>rr_edited := d\<rparr>) = rr_file_info env"
  "rr_edited (env\<lparr>rr_edited := d\<rparr>) = d"
  by simp_all

lemma visible_simps:
  "visible [] = True"
  "visible (c # cs) = (c \<noteq> CHR ''#'' \<and> c \<noteq> NL)"
  by (simp_all add: visible_def deref_def NUL_def NL_def)

lemma diff_count_loop_filter:
  "diff_count_loop ls c = c + int (length (filter visible ls))"
  by (induction ls arbitrary: c) (auto simp add: visible_def)

lemma get_files_loop_filter:
  "get_files_loop ls tmp_files =
     tmp_files @ map (\<lambda>l. cstr (strip_suffix (strip_newline l))) (filter visible ls)"
  by (induction ls arbitrary: tmp_files) (auto simp add: visible_def)

lemma line_name_strip: "line_name l = cstr (strip_suffix (strip_newline l))"
  by (simp add: line_name_def strip_newline_def strip_suffix_def cstr_def Let_def)

lemma get_files_loop_names: "get_files_loop (getline_all content) [] = names_read content"
  by (simp add: get_files_loop_filter names_read_def line_name_strip document_lines_getline)



lemma remove_header_lines:
  "BULK_RM_TMP_FILE_HEADER =
     unlines [''# CliFM - Remove files in bulk'',
       ''# Remove the files you want to be deleted, save and exit'',
       ''# Just quit the editor without any edit to cancel the operation'', []]"
  by (simp add: BULK_RM_TMP_FILE_HEADER_def unlines_def)

lemma remove_header_short:
  "\<forall>l\<in>set [''# CliFM - Remove files in bulk'',
       ''# Remove the files you want to be deleted, save and exit'',
       ''# Just quit the editor without any edit to cancel the operation'', []].
       NL \<notin> set l \<and> length l + 1 < PATH_MAX + 6"
  "\<forall>l\<in>set [''# CliFM - Remove files in bulk'',
       ''# Remove the files you want to be deleted, save and exit'',
       ''# Just quit the editor without any edit to cancel the operation'', []].
       NL \<notin> set l"
  by (simp_all add: NL_def PATH_MAX_def)

lemma fgets_remove_doc:
  assumes "\<forall>l\<in>set ls. NL \<notin> set l \<and> length l + 1 < PATH_MAX + 6"
  shows "filter visible (fgets_all (PATH_MAX + 6) (BULK_RM_TMP_FILE_HEADER @ unlines ls)) =
     filter visible (map (\<lambda>l. l @ [NL]) ls)"
proof -
  have "fgets_all (PATH_MAX + 6) (unlines ls) = map (\<lambda>l. l @ [NL]) ls"
    using fgets_all_lines[OF assms, of "[]"] by (simp add: fgets_all_Nil)
  then show ?thesis
    unfolding remove_header_lines fgets_all_lines[OF remove_header_short(1)]
    by (simp add: visible_simps)
qed

lemma getline_remove_doc:
  assumes "\<forall>l\<in>set ls. NL \<notin> set l"
  shows "filter visible (getline_all (BULK_RM_TMP_FILE_HEADER @ unlines ls)) =
     filter visible (map (\<lambda>l. l @ [NL]) ls)"
proof -
  have "getline_all (unlines ls) = map (\<lambda>l. l @ [NL]) ls"
    using getline_all_lines[OF assms, of "[]"] by (simp add: getline_all_Nil)
  then show ?thesis
    unfolding remove_header_lines getline_all_lines[OF remove_header_short(2)]
    by (simp add: visible_simps)
qed

lemma bulk_remove_after_editor:
  assumes "\<not> (s1 \<noteq> None \<and> IS_HELP (the s1))"
    and "parse_bulk_remove_params env s1 s2 = Inr (app, target)"
    and "rr_mkstemp env = Some tmp_file"
    and "write_files_to_tmp env target tmp_file = (EXIT_SUCCESS, written, a, log1)"
    and "open_tmp_file env tmp_file app = (EXIT_SUCCESS, log2)"
  shows "bulk_remove sys env s1 s2 w =
     (if rr_old_t env = rr_new_t env
      then (EXIT_SUCCESS, w, log1 @ log2 @ [Puts ''rr: Nothing to do'', Unlinkat tmp_file])
      else if \<not> rr_diff_fopen_ok env
      then (EXIT_SUCCESS, w,
            log1 @ log2 @ [Xerror ''br: '%s': %s'' [], Puts ''rr: Nothing to do'', Unlinkat tmp_file])
      else if (if target = Cwd then int (length (rr_file_info env)) else int (length a) - 2)
                \<le> diff_count_loop (fgets_all (PATH_MAX + 6) (rr_edited env)) 0
      then (EXIT_SUCCESS, w, log1 @ log2 @ [Puts ''rr: Nothing to do'', Unlinkat tmp_file])
      else if \<not> rr_get_fopen_ok env
      then (EXIT_SUCCESS, w, log1 @ log2 @ bulk_remove_end env tmp_file)
      else (fst (remove_files sys w
                  (get_remove_files env target (get_files_loop (getline_all (rr_edited env)) []) a)),
            snd (remove_files sys w
                  (get_remove_files env target (get_files_loop (getline_all (rr_edited env)) []) a)),
            log1 @ log2 @
            [Remove_files
               (get_remove_files env target (get_files_loop (getline_all (rr_edited env)) []) a)]
            @ bulk_remove_end env tmp_file))"
  using assms
  by (auto simp add: bulk_remove_def Let_def nothing_to_do_def diff_files_def
      get_files_from_tmp_file_def EXIT_SUCCESS_def split: prod.splits)








text \<open>
  C3, as amended. In the remove flow the Differ goes on to the surviving-set computation
  only when the edited document has fewer non-comment lines than the original entry count
  (\<^verbatim>\<open>diff_files\<close> returns \<^verbatim>\<open>c < n\<close>): then \<^verbatim>\<open>remove_files\<close> is called with the
  list of \<^verbatim>\<open>get_remove_files\<close>. A document with exactly as many such lines, or with
  more, is treated as nothing to do. The hypotheses say that the command has reached the
  Differ with a changed modification time and a readable document.
\<close>

theorem remove_proceeds_only_with_fewer_lines:
  assumes "\<not> (s1 \<noteq> None \<and> IS_HELP (the s1))"
    and "parse_bulk_remove_params env s1 s2 = Inr (app, target)"
    and "rr_mkstemp env = Some tmp_file"
    and "write_files_to_tmp env target tmp_file = (EXIT_SUCCESS, written, a, log1)"
    and "open_tmp_file env tmp_file app = (EXIT_SUCCESS, log2)"
    and "rr_old_t env \<noteq> rr_new_t env"
    and "rr_diff_fopen_ok env" and "rr_get_fopen_ok env"
  shows "fst (diff_files env (rr_edited env) num) =
      (if diff_count_loop (fgets_all (PATH_MAX + 6) (rr_edited env)) 0 < num then 1 else 0)
    \<and> ((if target = Cwd then int (length (rr_file_info env)) else int (length a) - 2)
          \<le> diff_count_loop (fgets_all (PATH_MAX + 6) (rr_edited env)) 0 \<longrightarrow>
        bulk_remove sys env s1 s2 w =
          (EXIT_SUCCESS, w, log1 @ log2 @ [Puts ''rr: Nothing to do'', Unlinkat tmp_file]))
    \<and> (diff_count_loop (fgets_all (PATH_MAX + 6) (rr_edited env)) 0
          < (if target = Cwd then int (length (rr_file_info env)) else int (length a) - 2) \<longrightarrow>
        bulk_remove sys env s1 s2 w =
          (fst (remove_files sys w
                  (get_remove_files env target (get_files_loop (getline_all (rr_edited env)) []) a)),
           snd (remove_files sys w
                  (get_remove_files env target (get_files_loop (getline_all (rr_edited env)) []) a)),
           log1 @ log2 @
           [Remove_files
              (get_remove_files env target (get_files_loop (getline_all (rr_edited env)) []) a)]
           @ bulk_remove_end env tmp_file))"
  using assms(6-8) bulk_remove_after_editor[OF assms(1-5), of sys w]
  by (simp add: diff_files_def)

lemma demo_rr_parse:
  "parse_bulk_remove_params (demo_rr_env listing scanned edited) None None = Inr (None, Cwd)"
  "parse_bulk_remove_params (demo_rr_env listing scanned edited) (Some ''/srv/data'') None
     = Inr (None, Dir ''/srv/data'')"
  "write_files_to_tmp (demo_rr_env listing scanned edited) Cwd ''/tmp/clifm/bulk.Ef34Gh'' =
     (EXIT_SUCCESS, print_listing_loop listing BULK_RM_TMP_FILE_HEADER, [], [])"
  "open_tmp_file (demo_rr_env listing scanned edited) ''/tmp/clifm/bulk.Ef34Gh'' None =
     (EXIT_SUCCESS, [Open_file ''/tmp/clifm/bulk.Ef34Gh''])"
  by (simp_all add: parse_bulk_remove_params_def write_files_to_tmp_def open_tmp_file_def
      demo_rr_env_sel EXIT_SUCCESS_def)

lemma demo_xyz_short:
  "\<forall>l\<in>set [''x/'', ''w'', ''z@'']. NL \<notin> set l \<and> length l + 1 < PATH_MAX + 6"
  "\<forall>l\<in>set [''x/'', ''w'', ''z@'']. NL \<notin> set l"
  "\<forall>l\<in>set [''x/'', ''z@'']. NL \<notin> set l \<and> length l + 1 < PATH_MAX + 6"
  "\<forall>l\<in>set [''x/'', ''z@'']. NL \<notin> set l"
  by (simp_all add: NL_def PATH_MAX_def)

lemma demo_xyz_read:
  "diff_count_loop (fgets_all (PATH_MAX + 6)
      (BULK_RM_TMP_FILE_HEADER @ unlines [''x/'', ''w'', ''z@''])) 0 = 3"
  "get_files_loop (getline_all (BULK_RM_TMP_FILE_HEADER @ unlines [''x/'', ''w'', ''z@''])) []
     = [''x'', ''w'', ''z'']"
  "diff_count_loop (fgets_all (PATH_MAX + 6)
      (BULK_RM_TMP_FILE_HEADER @ unlines [''x/'', ''z@''])) 0 = 2"
  "get_files_loop (getline_all (BULK_RM_TMP_FILE_HEADER @ unlines [''x/'', ''z@''])) []
     = [''x'', ''z'']"
  unfolding diff_count_loop_filter get_files_loop_filter
    fgets_remove_doc[OF demo_xyz_short(1)] getline_remove_doc[OF demo_xyz_short(2)]
    fgets_remove_doc[OF demo_xyz_short(3)] getline_remove_doc[OF demo_xyz_short(4)]
  by (simp_all add: visible_simps NL_def NUL_def strip_newline_def strip_suffix_def cstr_def)

text \<open>
  C3 as stated fails: the listing has three entries and the edited document three
  non-comment lines (the user has replaced \<^verbatim>\<open>y\<close> by \<^verbatim>\<open>w\<close>), and
  \<^verbatim>\<open>bulk_remove\<close> prints ``Nothing to do'' and calls no \<^verbatim>\<open>remove_files\<close>, where the
  surviving-set computation would have scheduled \<^verbatim>\<open>y\<close>.
\<close>

theorem remove_equal_count_counterexample:
  "diff_count_loop (fgets_all (PATH_MAX + 6)
      (BULK_RM_TMP_FILE_HEADER @ unlines [''x/'', ''w'', ''z@''])) 0
     = int (length [(''x'', DT_DIR), (''y'', DT_REG), (''z'', DT_LNK)])
   \<and> bulk_remove demo_sys
       (demo_rr_env [(''x'', DT_DIR), (''y'', DT_REG), (''z'', DT_LNK)] []
          (BULK_RM_TMP_FILE_HEADER @ unlines [''x/'', ''w'', ''z@'']))
       None None [''x'', ''y'', ''z''] =
     (0, [''x'', ''y'', ''z''],
      [Open_file ''/tmp/clifm/bulk.Ef34Gh'', Puts ''rr: Nothing to do'',
       Unlinkat ''/tmp/clifm/bulk.Ef34Gh''])
   \<and> get_remove_files
       (demo_rr_env [(''x'', DT_DIR), (''y'', DT_REG), (''z'', DT_LNK)] []
          (BULK_RM_TMP_FILE_HEADER @ unlines [''x/'', ''w'', ''z@'']))
       Cwd (get_files_loop (getline_all
          (BULK_RM_TMP_FILE_HEADER @ unlines [''x/'', ''w'', ''z@''])) []) [] = [''rr'', ''y'']"
proof -
  let ?env = "demo_rr_env [(''x'', DT_DIR), (''y'', DT_REG), (''z'', DT_LNK)] []
          (BULK_RM_TMP_FILE_HEADER @ unlines [''x/'', ''w'', ''z@''])"
  have h0: "\<not> (None \<noteq> None \<and> IS_HELP (the (None :: string option)))"
    by simp
  have "bulk_remove demo_sys ?env None None [''x'', ''y'', ''z''] =
     (0, [''x'', ''y'', ''z''],
      [Open_file ''/tmp/clifm/bulk.Ef34Gh'', Puts ''rr: Nothing to do'',
       Unlinkat ''/tmp/clifm/bulk.Ef34Gh''])"
    using bulk_remove_after_editor[OF h0 demo_rr_parse(1) demo_rr_env_sel(3) demo_rr_parse(3)
        demo_rr_parse(4), where sys = demo_sys and w = "[''x'', ''y'', ''z'']"]
    by (simp add: demo_rr_env_sel demo_xyz_read EXIT_SUCCESS_def)
  then show ?thesis
    unfolding demo_xyz_read get_remove_files_cwd demo_rr_env_sel
    by (simp add: SELFORPARENT_def)
qed

theorem remove_proceeds_only_with_fewer_lines_witness:
  "bulk_remove demo_sys
       (demo_rr_env [(''x'', DT_DIR), (''y'', DT_REG), (''z'', DT_LNK)] []
          (BULK_RM_TMP_FILE_HEADER @ unlines [''x/'', ''w'', ''z@'']))
       None None [''x'', ''y'', ''z''] =
     (EXIT_SUCCESS, [''x'', ''y'', ''z''],
      [Open_file ''/tmp/clifm/bulk.Ef34Gh'', Puts ''rr: Nothing to do'',
       Unlinkat ''/tmp/clifm/bulk.Ef34Gh''])
   \<and> snd (snd (bulk_remove demo_sys
       (demo_rr_env [(''x'', DT_DIR), (''y'', DT_REG), (''z'', DT_LNK)] []
          (BULK_RM_TMP_FILE_HEADER @ unlines [''x/'', ''z@'']))
       None None [''x'', ''y'', ''z''])) =
      [Open_file ''/tmp/clifm/bulk.Ef34Gh'', Remove_files [''rr'', ''y''],
       Unlinkat ''/tmp/clifm/bulk.Ef34Gh'']"
proof -
  let ?l = "[(''x'', DT_DIR), (''y'', DT_REG), (''z'', DT_LNK)]"
  let ?e1 = "demo_rr_env ?l [] (BULK_RM_TMP_FILE_HEADER @ unlines [''x/'', ''w'', ''z@''])"
  let ?e2 = "demo_rr_env ?l [] (BULK_RM_TMP_FILE_HEADER @ unlines [''x/'', ''z@''])"
  have h0: "\<not> (None \<noteq> None \<and> IS_HELP (the (None :: string option)))"
    by simp
  have t: "rr_old_t (demo_rr_env l s e) \<noteq> rr_new_t (demo_rr_env l s e)" for l s e
    by (simp add: demo_rr_env_sel)
  note f1 = remove_proceeds_only_with_fewer_lines[OF h0 demo_rr_parse(1) demo_rr_env_sel(3)
      demo_rr_parse(3) demo_rr_parse(4) t demo_rr_env_sel(11) demo_rr_env_sel(12),
      of ?l "[]" "BULK_RM_TMP_FILE_HEADER @ unlines [''x/'', ''w'', ''z@'']" _ demo_sys "[''x'', ''y'', ''z'']"]
  note f2 = remove_proceeds_only_with_fewer_lines[OF h0 demo_rr_parse(1) demo_rr_env_sel(3)
      demo_rr_parse(3) demo_rr_parse(4) t demo_rr_env_sel(11) demo_rr_env_sel(12),
      of ?l "[]" "BULK_RM_TMP_FILE_HEADER @ unlines [''x/'', ''z@'']" _ demo_sys "[''x'', ''y'', ''z'']"]
  have a: "bulk_remove demo_sys ?e1 None None [''x'', ''y'', ''z''] =
     (EXIT_SUCCESS, [''x'', ''y'', ''z''],
      [Open_file ''/tmp/clifm/bulk.Ef34Gh'', Puts ''rr: Nothing to do'',
       Unlinkat ''/tmp/clifm/bulk.Ef34Gh''])"
    using f1 unfolding demo_rr_env_sel demo_xyz_read by simp
  have b: "snd (snd (bulk_remove demo_sys ?e2 None None [''x'', ''y'', ''z''])) =
      [Open_file ''/tmp/clifm/bulk.Ef34Gh'', Remove_files [''rr'', ''y''],
       Unlinkat ''/tmp/clifm/bulk.Ef34Gh'']"
    using f2 unfolding demo_rr_env_sel demo_xyz_read get_remove_files_cwd
    by (simp add: SELFORPARENT_def bulk_remove_end_def demo_rr_env_sel)
  show ?thesis
    using a b by (rule conjI)
qed

subsection \<open>Both flows\<close>

text \<open>
  C4, as amended. In both flows, when the modification time of the temporary document after
  the editor equals the one saved after writing, the command prints ``Nothing to do'', calls
  \<^verbatim>\<open>unlinkat\<close> on the temporary document and leaves the world as it was (after the
  editor the log only gains the message and the \<^verbatim>\<open>unlinkat\<close>; no rename, \<^verbatim>\<open>mv\<close> or
  \<^verbatim>\<open>remove_files\<close>). \<^verbatim>\<open>bulk_rename\<close> returns the result of that \<^verbatim>\<open>unlinkat\<close>: 0
  exactly when the document has been unlinked, the \<^verbatim>\<open>errno\<close> of the call otherwise;
  \<^verbatim>\<open>bulk_remove\<close> returns 0 whether the call succeeds or not. The hypotheses say that
  the command has reached the comparison of the modification times.
\<close>

theorem unchanged_mtime_is_nothing_to_do:
  "(arg_at args 1 = Some a1 \<and> \<not> IS_HELP a1 \<and> br_mkstemp env = Some bulk_file
      \<and> write_renfiles_to_tmp env args bulk_file = (EXIT_SUCCESS, args', written, mtime_bfr, total_input, log1)
      \<and> br_open_file env = EXIT_SUCCESS \<and> br_open_fread_ok env
      \<and> br_fstat env = Some mtime_bfr \<longrightarrow>
    bulk_rename sys env args w =
      (br_unlinkat env, w,
       log1 @ [Open_file bulk_file, Puts ''br: Nothing to do'', Unlinkat bulk_file]
         @ (if br_unlinkat env \<noteq> 0 then [Xerror ''br: unlinkat: '%s': %s'' [bulk_file]] else []))
    \<and> filter mutation log1 = []
    \<and> (fst (bulk_rename sys env args w) = 0) = (br_unlinkat env = 0))
   \<and> (\<not> (s1 \<noteq> None \<and> IS_HELP (the s1))
      \<and> parse_bulk_remove_params renv s1 s2 = Inr (app, target)
      \<and> rr_mkstemp renv = Some tmp_file
      \<and> write_files_to_tmp renv target tmp_file = (EXIT_SUCCESS, rwritten, a, rlog1)
      \<and> open_tmp_file renv tmp_file app = (EXIT_SUCCESS, rlog2)
      \<and> rr_old_t renv = rr_new_t renv \<longrightarrow>
    bulk_remove rsys renv s1 s2 rw =
      (0, rw, rlog1 @ rlog2 @ [Puts ''rr: Nothing to do'', Unlinkat tmp_file])
    \<and> filter mutation rlog1 = []
    \<and> (rlog2 = [Open_file tmp_file] \<or> (\<exists>ed. app = Some ed \<and> rlog2 = [Launch_execv [ed, tmp_file]])))"
proof (intro conjI impI)
  assume h: "arg_at args 1 = Some a1 \<and> \<not> IS_HELP a1 \<and> br_mkstemp env = Some bulk_file
      \<and> write_renfiles_to_tmp env args bulk_file = (EXIT_SUCCESS, args', written, mtime_bfr, total_input, log1)
      \<and> br_open_file env = EXIT_SUCCESS \<and> br_open_fread_ok env
      \<and> br_fstat env = Some mtime_bfr"
  then have wr: "write_renfiles_to_tmp env args bulk_file = (EXIT_SUCCESS, args', written, mtime_bfr, total_input, log1)"
    by simp
  show b: "bulk_rename sys env args w =
      (br_unlinkat env, w,
       log1 @ [Open_file bulk_file, Puts ''br: Nothing to do'', Unlinkat bulk_file]
         @ (if br_unlinkat env \<noteq> 0 then [Xerror ''br: unlinkat: '%s': %s'' [bulk_file]] else []))"
    using h
    by (simp add: bulk_rename_def open_bulk_file_def bulk_rename_error_def EXIT_SUCCESS_def)
  show "filter mutation log1 = []"
    using write_renfiles_to_tmp_quiet[OF wr] by simp
  show "(fst (bulk_rename sys env args w) = 0) = (br_unlinkat env = 0)"
    using b by simp
next
  assume h: "\<not> (s1 \<noteq> None \<and> IS_HELP (the s1))
      \<and> parse_bulk_remove_params renv s1 s2 = Inr (app, target)
      \<and> rr_mkstemp renv = Some tmp_file
      \<and> write_files_to_tmp renv target tmp_file = (EXIT_SUCCESS, rwritten, a, rlog1)
      \<and> open_tmp_file renv tmp_file app = (EXIT_SUCCESS, rlog2)
      \<and> rr_old_t renv = rr_new_t renv"
  then have h1: "\<not> (s1 \<noteq> None \<and> IS_HELP (the s1))"
    and h2: "parse_bulk_remove_params renv s1 s2 = Inr (app, target)"
    and h3: "rr_mkstemp renv = Some tmp_file"
    and h4: "write_files_to_tmp renv target tmp_file = (EXIT_SUCCESS, rwritten, a, rlog1)"
    and h5: "open_tmp_file renv tmp_file app = (EXIT_SUCCESS, rlog2)"
    and h6: "rr_old_t renv = rr_new_t renv"
    by simp_all
  show "bulk_remove rsys renv s1 s2 rw =
      (0, rw, rlog1 @ rlog2 @ [Puts ''rr: Nothing to do'', Unlinkat tmp_file])"
    using bulk_remove_after_editor[OF h1 h2 h3 h4 h5, of rsys rw] h6
    by (simp add: EXIT_SUCCESS_def)
  show "filter mutation rlog1 = []"
    using h4
    by (auto simp add: write_files_to_tmp_def EXIT_SUCCESS_def EXIT_FAILURE_def
        split: if_splits target.splits option.splits)
  show "rlog2 = [Open_file tmp_file] \<or> (\<exists>ed. app = Some ed \<and> rlog2 = [Launch_execv [ed, tmp_file]])"
    using h5
    by (auto simp add: open_tmp_file_def EXIT_SUCCESS_def split: if_splits)
qed

text \<open>
  C4 as stated fails when the temporary document cannot be unlinked: the modification time
  is unchanged, \<^verbatim>\<open>unlinkat\<close> fails with \<^verbatim>\<open>EACCES\<close>, and \<^verbatim>\<open>bulk_rename\<close> returns
  \<^verbatim>\<open>EACCES\<close>, not 0.
\<close>

theorem unchanged_mtime_failed_unlink_counterexample:
  "br_mtime_bfr ((demo_br_env [''a'', ''b''] (BULK_RENAME_TMP_FILE_HEADER @ unlines [''a'', ''b'']))
        \<lparr>br_fstat := Some 100, br_unlinkat := EACCES\<rparr>) = 100
   \<and> bulk_rename demo_sys
     ((demo_br_env [''a'', ''b''] (BULK_RENAME_TMP_FILE_HEADER @ unlines [''a'', ''b'']))
        \<lparr>br_fstat := Some 100, br_unlinkat := EACCES\<rparr>)
     [''br'', ''a'', ''b''] [''a'', ''b''] =
   (EACCES, [''a'', ''b''],
    [Open_file ''/tmp/clifm/bulk.Ab12Cd'', Puts ''br: Nothing to do'',
     Unlinkat ''/tmp/clifm/bulk.Ab12Cd'',
     Xerror ''br: unlinkat: '%s': %s'' [''/tmp/clifm/bulk.Ab12Cd'']])
   \<and> EACCES \<noteq> 0"
proof -
  let ?env = "(demo_br_env [''a'', ''b''] (BULK_RENAME_TMP_FILE_HEADER @ unlines [''a'', ''b'']))
        \<lparr>br_fstat := Some 100, br_unlinkat := EACCES\<rparr>"
  have w: "write_renfiles_to_tmp ?env [''br'', ''a'', ''b''] ''/tmp/clifm/bulk.Ab12Cd'' =
     (EXIT_SUCCESS, [''br'', ''a'', ''b''],
      BULK_RENAME_TMP_FILE_HEADER @ unlines [''a'', ''b''], 100, 2, [])"
    by (simp add: write_renfiles_to_tmp_def demo_br_env_def prepare_arg_def dot_relative_def
        EXIT_SUCCESS_def unlines_def)
  have ne: "EACCES \<noteq> 0"
    by (simp add: EACCES_def)
  have "bulk_rename demo_sys ?env [''br'', ''a'', ''b''] [''a'', ''b''] =
   (EACCES, [''a'', ''b''],
    [Open_file ''/tmp/clifm/bulk.Ab12Cd'', Puts ''br: Nothing to do'',
     Unlinkat ''/tmp/clifm/bulk.Ab12Cd'',
     Xerror ''br: unlinkat: '%s': %s'' [''/tmp/clifm/bulk.Ab12Cd'']])"
    using ne
    by (simp add: bulk_rename_def w arg_at_def IS_HELP_def demo_br_env_sel open_bulk_file_def
        bulk_rename_error_def EXIT_SUCCESS_def)
  then show ?thesis
    using ne by (simp add: demo_br_env_sel)
qed

theorem unchanged_mtime_is_nothing_to_do_witness:
  "bulk_rename demo_sys
     ((demo_br_env [''a'', ''b''] (BULK_RENAME_TMP_FILE_HEADER @ unlines [''a'', ''b'']))
        \<lparr>br_fstat := Some 100\<rparr>)
     [''br'', ''a'', ''b''] [''a'', ''b''] =
   (0, [''a'', ''b''],
    [Open_file ''/tmp/clifm/bulk.Ab12Cd'', Puts ''br: Nothing to do'',
     Unlinkat ''/tmp/clifm/bulk.Ab12Cd''])
   \<and> bulk_remove demo_sys
     ((demo_rr_env [(''x'', DT_DIR), (''y'', DT_REG), (''z'', DT_LNK)] []
         (BULK_RM_TMP_FILE_HEADER @ unlines [''x/'', ''y'', ''z@'']))
        \<lparr>rr_new_t := 100, rr_unlinkat := EACCES\<rparr>)
     None None [''x'', ''y'', ''z''] =
   (0, [''x'', ''y'', ''z''],
    [Open_file ''/tmp/clifm/bulk.Ef34Gh'', Puts ''rr: Nothing to do'',
     Unlinkat ''/tmp/clifm/bulk.Ef34Gh''])"
proof -
  let ?env = "(demo_br_env [''a'', ''b''] (BULK_RENAME_TMP_FILE_HEADER @ unlines [''a'', ''b'']))
        \<lparr>br_fstat := Some 100\<rparr>"
  let ?renv = "(demo_rr_env [(''x'', DT_DIR), (''y'', DT_REG), (''z'', DT_LNK)] []
         (BULK_RM_TMP_FILE_HEADER @ unlines [''x/'', ''y'', ''z@'']))
        \<lparr>rr_new_t := 100, rr_unlinkat := EACCES\<rparr>"
  have w: "write_renfiles_to_tmp ?env [''br'', ''a'', ''b''] ''/tmp/clifm/bulk.Ab12Cd'' =
     (EXIT_SUCCESS, [''br'', ''a'', ''b''],
      BULK_RENAME_TMP_FILE_HEADER @ unlines [''a'', ''b''], 100, 2, [])"
    by (simp add: write_renfiles_to_tmp_def demo_br_env_def prepare_arg_def dot_relative_def
        EXIT_SUCCESS_def unlines_def)
  have h: "arg_at [''br'', ''a'', ''b''] 1 = Some ''a'' \<and> \<not> IS_HELP ''a''
      \<and> br_mkstemp ?env = Some ''/tmp/clifm/bulk.Ab12Cd''
      \<and> write_renfiles_to_tmp ?env [''br'', ''a'', ''b''] ''/tmp/clifm/bulk.Ab12Cd'' =
          (EXIT_SUCCESS, [''br'', ''a'', ''b''],
           BULK_RENAME_TMP_FILE_HEADER @ unlines [''a'', ''b''], 100, 2, [])
      \<and> br_open_file ?env = EXIT_SUCCESS \<and> br_open_fread_ok ?env
      \<and> br_fstat ?env = Some 100"
    unfolding w by (simp add: arg_at_def IS_HELP_def demo_br_env_sel)
  have u: "br_unlinkat ?env = 0"
    by (simp add: demo_br_env_sel)
  have a: "bulk_rename demo_sys ?env [''br'', ''a'', ''b''] [''a'', ''b''] =
     (0, [''a'', ''b''],
      [Open_file ''/tmp/clifm/bulk.Ab12Cd'', Puts ''br: Nothing to do'',
       Unlinkat ''/tmp/clifm/bulk.Ab12Cd''])"
    using unchanged_mtime_is_nothing_to_do[THEN conjunct1, THEN mp, OF h, THEN conjunct1,
        of demo_sys "[''a'', ''b'']"]
    unfolding u by simp
  have p: "parse_bulk_remove_params ?renv None None = Inr (None, Cwd)"
    "write_files_to_tmp ?renv Cwd ''/tmp/clifm/bulk.Ef34Gh'' =
       (EXIT_SUCCESS,
        print_listing_loop [(''x'', DT_DIR), (''y'', DT_REG), (''z'', DT_LNK)] BULK_RM_TMP_FILE_HEADER,
        [], [])"
    "open_tmp_file ?renv ''/tmp/clifm/bulk.Ef34Gh'' None =
       (EXIT_SUCCESS, [Open_file ''/tmp/clifm/bulk.Ef34Gh''])"
    by (simp_all add: parse_bulk_remove_params_def write_files_to_tmp_def open_tmp_file_def
        demo_rr_env_sel EXIT_SUCCESS_def)
  have rh: "\<not> (None \<noteq> None \<and> IS_HELP (the (None :: string option)))
      \<and> parse_bulk_remove_params ?renv None None = Inr (None, Cwd)
      \<and> rr_mkstemp ?renv = Some ''/tmp/clifm/bulk.Ef34Gh''
      \<and> write_files_to_tmp ?renv Cwd ''/tmp/clifm/bulk.Ef34Gh'' =
          (EXIT_SUCCESS,
           print_listing_loop [(''x'', DT_DIR), (''y'', DT_REG), (''z'', DT_LNK)] BULK_RM_TMP_FILE_HEADER,
           [], [])
      \<and> open_tmp_file ?renv ''/tmp/clifm/bulk.Ef34Gh'' None =
          (EXIT_SUCCESS, [Open_file ''/tmp/clifm/bulk.Ef34Gh''])
      \<and> rr_old_t ?renv = rr_new_t ?renv"
    unfolding p by (simp add: demo_rr_env_sel)
  have b: "bulk_remove demo_sys ?renv None None [''x'', ''y'', ''z''] =
     (0, [''x'', ''y'', ''z''],
      [Open_file ''/tmp/clifm/bulk.Ef34Gh'', Puts ''rr: Nothing to do'',
       Unlinkat ''/tmp/clifm/bulk.Ef34Gh''])"
    using unchanged_mtime_is_nothing_to_do[THEN conjunct2, THEN mp, OF rh, THEN conjunct1,
        of demo_sys "[''x'', ''y'', ''z'']"]
    by simp
  show ?thesis
    using a b by (rule conjI)
qed

subsection \<open>Identity by name\<close>


lemma remove_doc_lines:
  assumes "\<forall>l\<in>set ls. NL \<notin> set l"
  shows "document_lines (BULK_RM_TMP_FILE_HEADER @ unlines ls) =
     map (\<lambda>l. l @ [NL]) ([''# CliFM - Remove files in bulk'',
       ''# Remove the files you want to be deleted, save and exit'',
       ''# Just quit the editor without any edit to cancel the operation'', []] @ ls)"
proof -
  have "\<forall>l\<in>set ([''# CliFM - Remove files in bulk'',
       ''# Remove the files you want to be deleted, save and exit'',
       ''# Just quit the editor without any edit to cancel the operation'', []] @ ls). NL \<notin> set l"
    using assms by (simp add: NL_def)
  from document_lines_unlines[OF this] show ?thesis
    unfolding remove_header_lines unlines_append .
qed

lemma demo_dup_short:
  "\<forall>l\<in>set [''x/'', ''z@'']. NL \<notin> set l"
  "\<forall>l\<in>set [''z@'', ''x/'', ''z@'']. NL \<notin> set l"
  "\<forall>l\<in>set [''x/'', ''z@'', ''z@'']. NL \<notin> set l"
  "\<forall>l\<in>set [''a@'']. NL \<notin> set l"
  by (simp_all add: NL_def)

lemma demo_dup_read:
  "names_read (BULK_RM_TMP_FILE_HEADER @ unlines [''x/'', ''z@'']) = [''x'', ''z'']"
  "names_read (BULK_RM_TMP_FILE_HEADER @ unlines [''z@'', ''x/'', ''z@'']) = [''z'', ''x'', ''z'']"
  "names_read (BULK_RM_TMP_FILE_HEADER @ unlines [''x/'', ''z@'', ''z@'']) = [''x'', ''z'', ''z'']"
  "names_read (BULK_RM_TMP_FILE_HEADER @ unlines [''a@'']) = [''a'']"
  unfolding names_read_def remove_doc_lines[OF demo_dup_short(1)]
    remove_doc_lines[OF demo_dup_short(2)] remove_doc_lines[OF demo_dup_short(3)]
    remove_doc_lines[OF demo_dup_short(4)]
  by (simp_all add: visible_simps line_name_strip NL_def NUL_def strip_newline_def strip_suffix_def cstr_def)





subsection \<open>The vector of remove\_files\<close>

lemma target_path_not_dots:
  "target_path ws_path t d_name \<noteq> ''.'' \<and> target_path ws_path t d_name \<noteq> ''..''"
proof (cases "deref t = CHR ''/''")
  case True
  then obtain t' where "t = CHR ''/'' # t'"
    by (cases t) (auto simp add: deref_def NUL_def)
  then show ?thesis
    by (simp add: target_path_def deref_def PATH_MAX_def)
next
  case False
  show ?thesis
  proof (cases ws_path)
    case Nil
    then show ?thesis using False
      by (simp add: target_path_def PATH_MAX_def)
  next
    case (Cons c ws')
    then show ?thesis using False
      by (cases ws') (simp_all add: target_path_def PATH_MAX_def)
  qed
qed

lemma parse_no_remove:
  "parse_bulk_remove_params env s1 s2 = Inl (ret, log0) \<Longrightarrow> Remove_files argv \<notin> set log0"
  by (auto simp add: parse_bulk_remove_params_def Let_def split: option.splits if_splits)

lemma write_files_no_remove:
  "write_files_to_tmp env target tmp_file = (ret, doc, a, log1) \<Longrightarrow> Remove_files argv \<notin> set log1"
  by (auto simp add: write_files_to_tmp_def split: if_splits target.splits option.splits)

lemma open_tmp_no_remove:
  "open_tmp_file env tmp_file app = (ret, log2) \<Longrightarrow> Remove_files argv \<notin> set log2"
  by (auto simp add: open_tmp_file_def split: if_splits)

lemma tail_no_remove:
  "Remove_files argv \<notin> set (snd (diff_files env content n))"
  "Remove_files argv \<notin> set (snd (nothing_to_do tmp_file))"
  "Remove_files argv \<notin> set (bulk_remove_end env tmp_file)"
  by (simp_all add: diff_files_def nothing_to_do_def bulk_remove_end_def)

lemma write_files_scan:
  "write_files_to_tmp env (Dir t) tmp_file = (ret, written, a, log1) \<Longrightarrow>
   a = [] \<or> rr_scandir env t = Some a"
  by (auto simp add: write_files_to_tmp_def split: if_splits option.splits)

lemma bulk_remove_argv_exact:
  assumes "Remove_files argv \<in> set (snd (snd (bulk_remove sys env s1 s2 w)))"
  shows "\<exists>app target tmp_file written a log1.
      parse_bulk_remove_params env s1 s2 = Inr (app, target)
    \<and> write_files_to_tmp env target tmp_file = (EXIT_SUCCESS, written, a, log1)
    \<and> argv = get_remove_files env target (names_read (rr_edited env)) a"
proof (cases "s1 \<noteq> None \<and> IS_HELP (the s1)")
  case True
  then show ?thesis using assms by (simp add: bulk_remove_def)
next
  case nohelp: False
  show ?thesis
  proof (cases "parse_bulk_remove_params env s1 s2")
    case (Inl e)
    then show ?thesis using assms nohelp parse_no_remove[of env s1 s2 "fst e" "snd e" argv]
      by (cases e; cases s1) (simp_all add: bulk_remove_def)
  next
    case (Inr p)
    obtain app target where p: "p = (app, target)"
      by (cases p) auto
    show ?thesis
    proof (cases "rr_mkstemp env")
      case None
      then show ?thesis using assms nohelp Inr p by (cases s1) (simp_all add: bulk_remove_def)
    next
      case (Some tmp_file)
      obtain ret1 written a log1 where wf: "write_files_to_tmp env target tmp_file = (ret1, written, a, log1)"
        by (metis prod_cases4)
      obtain ret2 log2 where ot: "open_tmp_file env tmp_file app = (ret2, log2)"
        by (cases "open_tmp_file env tmp_file app") auto
      note n1 = write_files_no_remove[OF wf, of argv]
      note n2 = open_tmp_no_remove[OF ot, of argv]
      have pr: "parse_bulk_remove_params env s1 s2 = Inr (app, target)"
        using Inr p by simp
      show ?thesis
      proof (cases "ret1 = EXIT_SUCCESS \<and> ret2 = EXIT_SUCCESS")
        case False
        have "snd (snd (bulk_remove sys env s1 s2 w)) =
            (if ret1 \<noteq> EXIT_SUCCESS then log1 @ bulk_remove_end env tmp_file
             else log1 @ log2 @ bulk_remove_end env tmp_file)"
          using False nohelp pr Some wf ot by (cases s1) (simp_all add: bulk_remove_def)
        then have False
          using assms n1 n2 tail_no_remove(3)[of argv env tmp_file]
          by (simp split: if_splits)
        then show ?thesis ..
      next
        case True
        then have wf': "write_files_to_tmp env target tmp_file = (EXIT_SUCCESS, written, a, log1)"
          and ot': "open_tmp_file env tmp_file app = (EXIT_SUCCESS, log2)"
          using wf ot by simp_all
        note b = bulk_remove_after_editor[OF nohelp pr Some wf' ot', of sys w]
        have "argv = get_remove_files env target (names_read (rr_edited env)) a"
          using assms n1 n2 tail_no_remove(3)[of argv env tmp_file] unfolding b
          by (simp add: get_files_loop_names split: if_splits)
        then show ?thesis
          using pr wf' by blast
      qed
    qed
  qed
qed

text \<open>
  C10. Whatever the document and the target, the vector that \<^verbatim>\<open>bulk_remove\<close> hands to
  \<^verbatim>\<open>remove_files\<close> starts with \<^verbatim>\<open>rr\<close>, and no element after it is \<^verbatim>\<open>.\<close> or
  \<^verbatim>\<open>..\<close>. What follows \<^verbatim>\<open>rr\<close> is exactly: for the current directory, the names of the
  listing that are not \<^verbatim>\<open>.\<close> or \<^verbatim>\<open>..\<close> and are not among the names read from the
  document; for a directory target, the paths that \<^verbatim>\<open>snprintf\<close> builds from the entries
  of the scan that are not named \<^verbatim>\<open>.\<close> or \<^verbatim>\<open>..\<close> and are not among the names read. So
  the dotted entries that the scan enumerates never reach the vector. (\<open>a\<close> are the entries
  \<^verbatim>\<open>write_files_to_tmp\<close> has got from \<^verbatim>\<open>scandir\<close>.)
\<close>

theorem remove_files_argv_shape:
  assumes "Remove_files argv \<in> set (snd (snd (bulk_remove sys env s1 s2 w)))"
  shows "argv \<noteq> [] \<and> hd argv = ''rr'' \<and> ''.'' \<notin> set (tl argv) \<and> ''..'' \<notin> set (tl argv)
    \<and> ((\<exists>app. parse_bulk_remove_params env s1 s2 = Inr (app, Cwd)
           \<and> tl argv =
               filter (\<lambda>name. name \<noteq> ''.'' \<and> name \<noteq> ''..'' \<and> name \<notin> set (names_read (rr_edited env)))
                 (map fst (rr_file_info env)))
       \<or> (\<exists>app t a. parse_bulk_remove_params env s1 s2 = Inr (app, Dir t)
           \<and> (a = [] \<or> rr_scandir env t = Some a)
           \<and> tl argv =
               map (target_path (rr_ws_path env) t)
                 (filter (\<lambda>name. name \<noteq> ''.'' \<and> name \<noteq> ''..'' \<and> name \<notin> set (names_read (rr_edited env)))
                    (map fst a))))"
proof -
  obtain app target tmp_file written a log1 where
    pr: "parse_bulk_remove_params env s1 s2 = Inr (app, target)"
    and wf: "write_files_to_tmp env target tmp_file = (EXIT_SUCCESS, written, a, log1)"
    and g: "argv = get_remove_files env target (names_read (rr_edited env)) a"
    using bulk_remove_argv_exact[OF assms] by blast
  show ?thesis
  proof (cases target)
    case Cwd
    have a: "argv = ''rr'' #
        filter (\<lambda>name. name \<noteq> ''.'' \<and> name \<noteq> ''..'' \<and> name \<notin> set (names_read (rr_edited env)))
          (map fst (rr_file_info env))"
      using g Cwd by (simp add: get_remove_files_cwd SELFORPARENT_def)
    have p: "parse_bulk_remove_params env s1 s2 = Inr (app, Cwd)"
      using pr Cwd by simp
    have d: "\<exists>app. parse_bulk_remove_params env s1 s2 = Inr (app, Cwd)
           \<and> tl argv =
               filter (\<lambda>name. name \<noteq> ''.'' \<and> name \<noteq> ''..'' \<and> name \<notin> set (names_read (rr_edited env)))
                 (map fst (rr_file_info env))"
      using p a by (intro exI[of _ app] conjI) simp_all
    have s: "argv \<noteq> []" "hd argv = ''rr''" "''.'' \<notin> set (tl argv)" "''..'' \<notin> set (tl argv)"
      unfolding a by simp_all
    show ?thesis
      using s d by (intro conjI disjI1)
  next
    case (Dir t)
    define names where "names =
      filter (\<lambda>name. name \<noteq> ''.'' \<and> name \<noteq> ''..'' \<and> name \<notin> set (names_read (rr_edited env)))
        (map fst a)"
    define paths where "paths = map (target_path (rr_ws_path env) t) names"
    have a: "argv = ''rr'' # paths"
      using g Dir by (simp add: get_remove_files_dir SELFORPARENT_def names_def paths_def)
    have sc: "a = [] \<or> rr_scandir env t = Some a"
      using wf Dir write_files_scan by blast
    have p1: "''.'' \<notin> set paths"
    proof
      assume "''.'' \<in> set paths"
      then obtain d where "target_path (rr_ws_path env) t d = ''.''"
        unfolding paths_def by auto
      then show False
        using target_path_not_dots[of "rr_ws_path env" t d] by blast
    qed
    have p2: "''..'' \<notin> set paths"
    proof
      assume "''..'' \<in> set paths"
      then obtain d where "target_path (rr_ws_path env) t d = ''..''"
        unfolding paths_def by auto
      then show False
        using target_path_not_dots[of "rr_ws_path env" t d] by blast
    qed
    have p: "parse_bulk_remove_params env s1 s2 = Inr (app, Dir t)"
      using pr Dir by simp
    have tl: "tl argv = map (target_path (rr_ws_path env) t)
                 (filter (\<lambda>name. name \<noteq> ''.'' \<and> name \<noteq> ''..'' \<and> name \<notin> set (names_read (rr_edited env)))
                    (map fst a))"
      unfolding a by (simp add: paths_def names_def)
    have d: "\<exists>app t a. parse_bulk_remove_params env s1 s2 = Inr (app, Dir t)
           \<and> (a = [] \<or> rr_scandir env t = Some a)
           \<and> tl argv = map (target_path (rr_ws_path env) t)
                 (filter (\<lambda>name. name \<noteq> ''.'' \<and> name \<noteq> ''..'' \<and> name \<notin> set (names_read (rr_edited env)))
                    (map fst a))"
      using p sc tl by (intro exI[of _ app] exI[of _ t] exI[of _ a] conjI)
    have s: "argv \<noteq> []" "hd argv = ''rr''" "''.'' \<notin> set (tl argv)" "''..'' \<notin> set (tl argv)"
      unfolding a using p1 p2 by simp_all
    show ?thesis
      using s d by (intro conjI disjI2)
  qed
qed

lemma demo_dir_run:
  "write_files_to_tmp (demo_rr_env listing
       [(''.'', DT_DIR), (''..'', DT_DIR), (''x'', DT_DIR), (''y'', DT_REG), (''z'', DT_LNK)] edited)
     (Dir ''/srv/data'') ''/tmp/clifm/bulk.Ef34Gh'' =
   (EXIT_SUCCESS,
    print_scan_loop [(''.'', DT_DIR), (''..'', DT_DIR), (''x'', DT_DIR), (''y'', DT_REG), (''z'', DT_LNK)]
      BULK_RM_TMP_FILE_HEADER,
    [(''.'', DT_DIR), (''..'', DT_DIR), (''x'', DT_DIR), (''y'', DT_REG), (''z'', DT_LNK)], [])"
  "get_remove_files (demo_rr_env listing scanned edited) (Dir ''/srv/data'') [''x'', ''z'']
     [(''.'', DT_DIR), (''..'', DT_DIR), (''x'', DT_DIR), (''y'', DT_REG), (''z'', DT_LNK)] =
   [''rr'', ''/srv/data/y'']"
  by (simp_all add: write_files_to_tmp_def demo_rr_env_sel EXIT_SUCCESS_def get_remove_files_dir
      SELFORPARENT_def target_path_def deref_def PATH_MAX_def)

theorem remove_files_argv_shape_witness:
  "Remove_files [''rr'', ''/srv/data/y''] \<in> set (snd (snd (bulk_remove demo_sys
      (demo_rr_env []
         [(''.'', DT_DIR), (''..'', DT_DIR), (''x'', DT_DIR), (''y'', DT_REG), (''z'', DT_LNK)]
         (BULK_RM_TMP_FILE_HEADER @ unlines [''x/'', ''z@'']))
      (Some ''/srv/data'') None [''/srv/data/x'', ''/srv/data/y'', ''/srv/data/z''])))
   \<and> tl [''rr'', ''/srv/data/y''] =
       map (target_path ''/home/user'' ''/srv/data'')
         (filter (\<lambda>name. name \<noteq> ''.'' \<and> name \<noteq> ''..'' \<and> name \<notin> set [''x'', ''z''])
            (map fst [(''.'', DT_DIR), (''..'', DT_DIR), (''x'', DT_DIR), (''y'', DT_REG), (''z'', DT_LNK)]))"
proof -
  let ?scan = "[(''.'', DT_DIR), (''..'', DT_DIR), (''x'', DT_DIR), (''y'', DT_REG), (''z'', DT_LNK)]"
  let ?env = "demo_rr_env [] ?scan (BULK_RM_TMP_FILE_HEADER @ unlines [''x/'', ''z@''])"
  have h0: "\<not> (Some ''/srv/data'' \<noteq> None \<and> IS_HELP (the (Some ''/srv/data'')))"
    by (simp add: IS_HELP_def)
  have o: "open_tmp_file ?env ''/tmp/clifm/bulk.Ef34Gh'' None =
     (EXIT_SUCCESS, [Open_file ''/tmp/clifm/bulk.Ef34Gh''])"
    by (rule demo_rr_parse(4))
  have r: "Remove_files [''rr'', ''/srv/data/y''] \<in> set (snd (snd (bulk_remove demo_sys ?env
      (Some ''/srv/data'') None [''/srv/data/x'', ''/srv/data/y'', ''/srv/data/z''])))"
    using bulk_remove_after_editor[OF h0 demo_rr_parse(2) demo_rr_env_sel(3) demo_dir_run(1) o,
        where sys = demo_sys and w = "[''/srv/data/x'', ''/srv/data/y'', ''/srv/data/z'']"]
    by (simp add: demo_rr_env_sel demo_xyz_read demo_dir_run(2))
  note f = remove_files_argv_shape[OF r, THEN conjunct2, THEN conjunct2, THEN conjunct2,
      THEN conjunct2]
  have nc: "parse_bulk_remove_params ?env (Some ''/srv/data'') None \<noteq> Inr (app, Cwd)" for app
    by (simp add: demo_rr_parse(2))
  from f nc obtain app t a where
    p: "parse_bulk_remove_params ?env (Some ''/srv/data'') None = Inr (app, Dir t)"
    and s: "a = [] \<or> rr_scandir ?env t = Some a"
    and e: "tl [''rr'', ''/srv/data/y''] =
       map (target_path (rr_ws_path ?env) t)
         (filter (\<lambda>name. name \<noteq> ''.'' \<and> name \<noteq> ''..'' \<and> name \<notin> set (names_read (rr_edited ?env)))
            (map fst a))"
    by blast
  have t: "t = ''/srv/data''"
    using p by (simp add: demo_rr_parse(2))
  have "a \<noteq> []"
    using e by auto
  then have a: "a = ?scan"
    using s by (simp add: demo_rr_env_sel)
  have "tl [''rr'', ''/srv/data/y''] =
       map (target_path ''/home/user'' ''/srv/data'')
         (filter (\<lambda>name. name \<noteq> ''.'' \<and> name \<noteq> ''..'' \<and> name \<notin> set [''x'', ''z''])
            (map fst ?scan))"
    using e unfolding t a demo_rr_env_sel demo_dup_read .
  with r show ?thesis
    by (rule conjI)
qed

text \<open>
  The path of an entry is cut to \<open>PATH_MAX - 1\<close> bytes. When the directory prefix leaves
  room for the names \<^verbatim>\<open>.\<close> and \<^verbatim>\<open>..\<close> and one byte more, the path of an entry that
  is not \<^verbatim>\<open>.\<close> or \<^verbatim>\<open>..\<close> differs from the paths of these two, so neither of them is
  in the vector.
\<close>

lemma target_path_room:
  assumes "length (if deref t = CHR ''/'' then t else ws_path @ ''/'' @ t) + 4 < PATH_MAX"
    and "n \<noteq> ''.''" and "n \<noteq> ''..''"
  shows "target_path ws_path t n \<noteq> target_path ws_path t ''.''"
    and "target_path ws_path t n \<noteq> target_path ws_path t ''..''"
proof -
  define pre where "pre = (if deref t = CHR ''/'' then t else ws_path @ ''/'' @ t) @ ''/''"
  define k where "k = PATH_MAX - 1 - length pre"
  have k: "3 \<le> k" and lp: "length pre \<le> PATH_MAX - 1"
    using assms(1) by (auto simp add: pre_def k_def split: if_splits)
  have tp: "target_path ws_path t m = pre @ take k m" for m
  proof -
    have e: "(if deref t = CHR ''/'' then t @ ''/'' @ m else ws_path @ ''/'' @ t @ ''/'' @ m) = pre @ m"
      by (simp add: pre_def)
    have "target_path ws_path t m = take (PATH_MAX - 1) (pre @ m)"
      unfolding target_path_def by (simp only: e)
    also have "\<dots> = pre @ take k m"
      using lp by (simp add: k_def)
    finally show ?thesis .
  qed
  have d1: "take k ''.'' = ''.''" and d2: "take k ''..'' = ''..''"
    using k by simp_all
  have e1: "take k n \<noteq> ''.''"
  proof
    assume e: "take k n = ''.''"
    then have "length (take k n) = 1"
      by simp
    then have "length n = 1"
      using k by (simp add: min_def split: if_splits)
    then have "take k n = n"
      using k by simp
    with e assms(2) show False
      by simp
  qed
  have e2: "take k n \<noteq> ''..''"
  proof
    assume e: "take k n = ''..''"
    then have "length (take k n) = 2"
      by simp
    then have "length n = 2"
      using k by (simp add: min_def split: if_splits)
    then have "take k n = n"
      using k by simp
    with e assms(3) show False
      by simp
  qed
  show "target_path ws_path t n \<noteq> target_path ws_path t ''.''"
    unfolding tp d1 using e1 by simp
  show "target_path ws_path t n \<noteq> target_path ws_path t ''..''"
    unfolding tp d2 using e2 by simp
qed

lemma dotted_paths_absent:
  assumes "Remove_files argv \<in> set (snd (snd (bulk_remove sys env s1 s2 w)))"
    and "parse_bulk_remove_params env s1 s2 = Inr (app, Dir t)"
    and "length (if deref t = CHR ''/'' then t else rr_ws_path env @ ''/'' @ t) + 4 < PATH_MAX"
  shows "target_path (rr_ws_path env) t ''.'' \<notin> set (tl argv)
    \<and> target_path (rr_ws_path env) t ''..'' \<notin> set (tl argv)"
proof -
  obtain app' target tmp_file written a log1 where
    pr: "parse_bulk_remove_params env s1 s2 = Inr (app', target)"
    and g: "argv = get_remove_files env target (names_read (rr_edited env)) a"
    using bulk_remove_argv_exact[OF assms(1)] by blast
  have tg: "target = Dir t"
    using pr assms(2) by simp
  have a: "tl argv = map (target_path (rr_ws_path env) t)
      (filter (\<lambda>name. \<not> SELFORPARENT name \<and> name \<notin> set (names_read (rr_edited env))) (map fst a))"
    using g tg by (simp add: get_remove_files_dir)
  show ?thesis
  proof (intro conjI notI)
    assume "target_path (rr_ws_path env) t ''.'' \<in> set (tl argv)"
    then obtain n where n: "\<not> SELFORPARENT n"
      and e: "target_path (rr_ws_path env) t n = target_path (rr_ws_path env) t ''.''"
      unfolding a by auto
    from n have "n \<noteq> ''.''" "n \<noteq> ''..''"
      by (simp_all add: SELFORPARENT_def)
    from target_path_room(1)[OF assms(3) this] e show False
      by simp
  next
    assume "target_path (rr_ws_path env) t ''..'' \<in> set (tl argv)"
    then obtain n where n: "\<not> SELFORPARENT n"
      and e: "target_path (rr_ws_path env) t n = target_path (rr_ws_path env) t ''..''"
      unfolding a by auto
    from n have "n \<noteq> ''.''" "n \<noteq> ''..''"
      by (simp_all add: SELFORPARENT_def)
    from target_path_room(2)[OF assms(3) this] e show False
      by simp
  qed
qed

subsection \<open>The document of the remove flow\<close>

lemma print_file_line: "print_file name type = name @ suffix_of type @ [NL]"
  by (simp add: print_file_def suffix_of_def)

lemma suffix_of_cases:
  "suffix_of type = [] \<or> suffix_of type = ''/'' \<or> suffix_of type = ''@'' \<or> suffix_of type = ''=''
     \<or> suffix_of type = ''|'' \<or> suffix_of type = ''?''"
  by (cases type)
    (simp_all add: suffix_of_def DIR_CHR_def LINK_CHR_def SOCK_CHR_def FIFO_CHR_def
      UNKNOWN_CHR_def NUL_def)

lemma cstr_id: "NUL \<notin> set s \<Longrightarrow> cstr s = s"
  by (auto simp add: cstr_def takeWhile_eq_all_conv)

lemma read_back_line:
  assumes "plain_name name"
  shows "visible (name @ suffix_of type @ [NL])"
    and "cstr (strip_suffix (strip_newline (name @ suffix_of type @ [NL]))) = name"
    and "NL \<notin> set (name @ suffix_of type)"
proof -
  from assms obtain c cs where n: "name = c # cs" and c: "c \<noteq> CHR ''#''" "c \<noteq> NL"
    by (cases name) (auto simp add: plain_name_def)
  show "visible (name @ suffix_of type @ [NL])"
    using n c by (simp add: visible_def deref_def)
  have s: "strip_newline (name @ suffix_of type @ [NL]) = name @ suffix_of type"
    by (simp add: strip_newline_def butlast_append)
  have "strip_suffix (name @ suffix_of type) = name"
    using suffix_of_cases[of type] assms
    by (auto simp add: strip_suffix_def plain_name_def)
  then show "cstr (strip_suffix (strip_newline (name @ suffix_of type @ [NL]))) = name"
    using assms by (simp add: s cstr_id plain_name_def)
  show "NL \<notin> set (name @ suffix_of type)"
    using suffix_of_cases[of type] assms by (auto simp add: plain_name_def NL_def)
qed

lemma print_listing_loop_unlines:
  "print_listing_loop entries doc = doc @ unlines (map (\<lambda>(name, type). name @ suffix_of type) entries)"
  by (induction entries arbitrary: doc) (auto simp add: unlines_def print_file_line)

lemma read_back_lines:
  assumes "\<forall>(name, type)\<in>set entries. plain_name name"
  shows "map (\<lambda>l. cstr (strip_suffix (strip_newline l)))
      (filter visible (map (\<lambda>l. l @ [NL]) (map (\<lambda>(name, type). name @ suffix_of type) entries)))
    = map fst entries"
  using assms
proof (induction entries)
  case Nil
  then show ?case by simp
next
  case (Cons e entries)
  obtain name type where e: "e = (name, type)"
    by (cases e) auto
  with Cons.prems have p: "plain_name name"
    by simp
  from Cons show ?case
    using read_back_line(1,2)[OF p, of type] by (simp add: e)
qed

text \<open>
  For every entry kind, a name that is not empty, does not begin with \<^verbatim>\<open>#\<close>, holds
  no newline (and, as a C string, no \<^verbatim>\<open>NUL\<close>) and does not end in one of
  \<^verbatim>\<open>/ @ = | ?\<close> is recovered exactly when the line \<^verbatim>\<open>print_file\<close> writes for it is
  read back by \<^verbatim>\<open>get_files_from_tmp_file\<close>; and the document written for a listing of
  such names, header included, reads back as the names of the listing, in order.
\<close>

lemma remove_document_roundtrip:
  assumes "rr_get_fopen_ok env"
  shows "(plain_name name \<longrightarrow> get_files_from_tmp_file env (print_file name type) = Some [name])
    \<and> ((\<forall>(name, type)\<in>set entries. plain_name name) \<longrightarrow>
        get_files_from_tmp_file env (print_listing_loop entries BULK_RM_TMP_FILE_HEADER)
          = Some (map fst entries))"
proof (intro conjI impI)
  assume p: "plain_name name"
  have "getline_all (print_file name type) = [name @ suffix_of type @ [NL]]"
    using getline_all_line[OF read_back_line(3)[OF p], of type "[]"]
    by (simp add: print_file_line getline_all_Nil)
  then show "get_files_from_tmp_file env (print_file name type) = Some [name]"
    using assms read_back_line(1,2)[OF p, of type]
    by (simp add: get_files_from_tmp_file_def get_files_loop_filter)
next
  assume a: "\<forall>(name, type)\<in>set entries. plain_name name"
  have n: "\<forall>l\<in>set (map (\<lambda>(name, type). name @ suffix_of type) entries). NL \<notin> set l"
    using a read_back_line(3) by fastforce
  show "get_files_from_tmp_file env (print_listing_loop entries BULK_RM_TMP_FILE_HEADER)
      = Some (map fst entries)"
    using assms read_back_lines[OF a]
    by (simp add: get_files_from_tmp_file_def get_files_loop_filter print_listing_loop_unlines
        getline_remove_doc[OF n])
qed

lemma demo_notes:
  "print_listing_loop [(''#notes#'', DT_REG), (''y'', DT_REG)] BULK_RM_TMP_FILE_HEADER =
     BULK_RM_TMP_FILE_HEADER @ unlines [''#notes#'', ''y'']"
  "diff_count_loop (fgets_all (PATH_MAX + 6)
      (BULK_RM_TMP_FILE_HEADER @ unlines [''#notes#'', ''y''])) 0 = 1"
  "get_files_loop (getline_all (BULK_RM_TMP_FILE_HEADER @ unlines [''#notes#'', ''y''])) [] = [''y'']"
proof -
  have s: "\<forall>l\<in>set [''#notes#'', ''y'']. NL \<notin> set l \<and> length l + 1 < PATH_MAX + 6"
    "\<forall>l\<in>set [''#notes#'', ''y'']. NL \<notin> set l"
    by (simp_all add: NL_def PATH_MAX_def)
  show "print_listing_loop [(''#notes#'', DT_REG), (''y'', DT_REG)] BULK_RM_TMP_FILE_HEADER =
     BULK_RM_TMP_FILE_HEADER @ unlines [''#notes#'', ''y'']"
    by (simp add: print_listing_loop_unlines suffix_of_def)
  show "diff_count_loop (fgets_all (PATH_MAX + 6)
      (BULK_RM_TMP_FILE_HEADER @ unlines [''#notes#'', ''y''])) 0 = 1"
    unfolding diff_count_loop_filter fgets_remove_doc[OF s(1)]
    by (simp add: visible_simps NL_def)
  show "get_files_loop (getline_all (BULK_RM_TMP_FILE_HEADER @ unlines [''#notes#'', ''y''])) [] = [''y'']"
    unfolding get_files_loop_filter getline_remove_doc[OF s(2)]
    by (simp add: visible_simps NL_def NUL_def strip_newline_def strip_suffix_def cstr_def)
qed

text \<open>
  C8, at an input where it fails. The current directory lists the regular files
  \<^verbatim>\<open>#notes#\<close> and \<^verbatim>\<open>y\<close>. \<^verbatim>\<open>print_file\<close> writes the name \<^verbatim>\<open>#notes#\<close> as it
  is, and \<^verbatim>\<open>get_files_from_tmp_file\<close> reads the line back as a comment: no name is
  recovered, although the name does not end in a suffix character. The user saves the
  document without touching it; \<^verbatim>\<open>diff_files\<close> counts one line for two entries, and
  \<^verbatim>\<open>bulk_remove\<close> hands \<^verbatim>\<open>#notes#\<close> to \<^verbatim>\<open>remove_files\<close>.
\<close>

theorem untouched_document_removes_hash_name:
  "write_files_to_tmp
       (demo_rr_env [(''#notes#'', DT_REG), (''y'', DT_REG)] []
          (BULK_RM_TMP_FILE_HEADER @ unlines [''#notes#'', ''y'']))
       Cwd ''/tmp/clifm/bulk.Ef34Gh'' =
     (EXIT_SUCCESS, BULK_RM_TMP_FILE_HEADER @ unlines [''#notes#'', ''y''], [], [])
   \<and> last ''#notes#'' \<notin> {CHR ''/'', CHR ''@'', CHR ''='', CHR ''|'', CHR ''?''}
   \<and> get_files_from_tmp_file
       (demo_rr_env [(''#notes#'', DT_REG), (''y'', DT_REG)] []
          (BULK_RM_TMP_FILE_HEADER @ unlines [''#notes#'', ''y'']))
       (print_file ''#notes#'' DT_REG) = Some []
   \<and> bulk_remove demo_sys
       (demo_rr_env [(''#notes#'', DT_REG), (''y'', DT_REG)] []
          (BULK_RM_TMP_FILE_HEADER @ unlines [''#notes#'', ''y'']))
       None None [''#notes#'', ''y''] =
     (0, [''y''],
      [Open_file ''/tmp/clifm/bulk.Ef34Gh'', Remove_files [''rr'', ''#notes#''],
       Unlinkat ''/tmp/clifm/bulk.Ef34Gh''])"
proof -
  let ?env = "demo_rr_env [(''#notes#'', DT_REG), (''y'', DT_REG)] []
          (BULK_RM_TMP_FILE_HEADER @ unlines [''#notes#'', ''y''])"
  have 1: "write_files_to_tmp ?env Cwd ''/tmp/clifm/bulk.Ef34Gh'' =
     (EXIT_SUCCESS, BULK_RM_TMP_FILE_HEADER @ unlines [''#notes#'', ''y''], [], [])"
    unfolding demo_rr_parse(3) demo_notes(1) ..
  have n: "NL \<notin> set ''#notes#''"
    by (simp add: NL_def)
  have "getline_all (print_file ''#notes#'' DT_REG) = [''#notes#'' @ [NL]]"
    using getline_all_line[OF n, of "[]"]
    by (simp add: print_file_def getline_all_Nil)
  then have 2: "get_files_from_tmp_file ?env (print_file ''#notes#'' DT_REG) = Some []"
    by (simp add: get_files_from_tmp_file_def demo_rr_env_sel deref_def)
  have h0: "\<not> (None \<noteq> None \<and> IS_HELP (the (None :: string option)))"
    by simp
  have 3: "bulk_remove demo_sys ?env None None [''#notes#'', ''y''] =
     (0, [''y''],
      [Open_file ''/tmp/clifm/bulk.Ef34Gh'', Remove_files [''rr'', ''#notes#''],
       Unlinkat ''/tmp/clifm/bulk.Ef34Gh''])"
    using bulk_remove_after_editor[OF h0 demo_rr_parse(1) demo_rr_env_sel(3) demo_rr_parse(3)
        demo_rr_parse(4), where sys = demo_sys and w = "[''#notes#'', ''y'']"]
    by (simp add: demo_rr_env_sel demo_notes get_remove_files_cwd SELFORPARENT_def
        bulk_remove_end_def demo_sys_def demo_remove_files_def)
  show ?thesis
    using 1 2 3 by simp
qed

subsection \<open>Comment lines\<close>

lemma comment_line_skipped:
  assumes "comment_line l"
  shows "skip_line l" and "\<not> visible l"
proof -
  from assms obtain c cs where "l = c # cs" and "c = NL \<or> c = CHR ''#''"
    by (cases l) (auto simp add: comment_line_def)
  then show "skip_line l" and "\<not> visible l"
    by (auto simp add: skip_line_def visible_def deref_def)
qed

lemma comment_line_split:
  assumes "comment_line l"
  shows "l = butlast l @ [NL] \<and> NL \<notin> set (butlast l)"
  using assms by (auto simp add: comment_line_def dest: append_butlast_last_id)

lemma getline_all_comment_lines:
  assumes "\<forall>l\<in>set C. comment_line l"
  shows "getline_all (concat C @ B) = C @ getline_all B"
  using assms
proof (induction C)
  case Nil
  then show ?case by simp
next
  case (Cons l C)
  then have c: "comment_line l"
    by simp
  obtain body where l: "l = body @ [NL]" and b: "NL \<notin> set body"
    using comment_line_split[OF c] by blast
  have "getline_all (body @ NL # concat C @ B) = (body @ [NL]) # getline_all (concat C @ B)"
    using b by (intro getline_all_line) auto
  then show ?case
    using Cons l by simp
qed

lemma getline_insert_comments:
  assumes "A = [] \<or> last A = NL" and "\<forall>l\<in>set C. comment_line l"
  shows "filter visible (getline_all (A @ concat C @ B)) = filter visible (getline_all (A @ B))"
proof -
  have e: "getline_all (A @ concat C @ B) = getline_all A @ C @ getline_all B"
    using getline_all_append[OF assms(1)] getline_all_comment_lines[OF assms(2)] by simp
  have f: "getline_all (A @ B) = getline_all A @ getline_all B"
    using getline_all_append[OF assms(1)] by simp
  have s: "filter visible C = []"
    using assms(2) comment_line_skipped by (auto simp add: filter_empty_conv)
  show ?thesis
    unfolding e f using s by simp
qed

lemma fgets_skip_comment_lines:
  assumes "2 \<le> sz" and "\<forall>l\<in>set C. comment_line l \<and> length l \<le> sz"
  shows "filter (\<lambda>l. \<not> skip_line l) (fgets_all sz (concat C @ B)) =
         filter (\<lambda>l. \<not> skip_line l) (fgets_all sz B)"
    and "filter visible (fgets_all sz (concat C @ B)) = filter visible (fgets_all sz B)"
proof -
  have step: "filter (\<lambda>l. \<not> skip_line l) (fgets_all sz (l @ R)) =
         filter (\<lambda>l. \<not> skip_line l) (fgets_all sz R)
      \<and> filter visible (fgets_all sz (l @ R)) = filter visible (fgets_all sz R)"
    if c: "comment_line l" and len: "length l \<le> sz" for l R
  proof -
    obtain body where l: "l = body @ [NL]" and b: "NL \<notin> set body"
      using comment_line_split[OF c] by blast
    show ?thesis
    proof (cases "length l < sz")
      case True
      then have "length body + 1 < sz"
        using l by simp
      then have "fgets_all sz (body @ NL # R) = (body @ [NL]) # fgets_all sz R"
        using b by (intro fgets_all_line) auto
      then show ?thesis
        using comment_line_skipped[OF c] l by simp
    next
      case False
      then have lb: "length body = sz - 1"
        using len l by simp
      then obtain c' cs where body: "body = c' # cs"
        using assms(1) by (cases body) auto
      then have h: "c' = CHR ''#''"
        using c l by (auto simp add: comment_line_def)
      have "fgets_all sz (body @ NL # R) = body # fgets_all sz (NL # R)"
        using fgets_all_full[OF b lb assms(1), of "NL # R"] .
      moreover have "fgets_all sz (NL # R) = [NL] # fgets_all sz R"
        using fgets_all_line[of "[]" sz R] assms(1) by simp
      ultimately have "fgets_all sz (l @ R) = body # [NL] # fgets_all sz R"
        using l by simp
      then show ?thesis
        using body h by (simp add: skip_line_def visible_def deref_def)
    qed
  qed
  show "filter (\<lambda>l. \<not> skip_line l) (fgets_all sz (concat C @ B)) =
         filter (\<lambda>l. \<not> skip_line l) (fgets_all sz B)"
    using assms(2) by (induction C) (simp_all add: step)
  show "filter visible (fgets_all sz (concat C @ B)) = filter visible (fgets_all sz B)"
    using assms(2) by (induction C) (simp_all add: step)
qed

lemma fgets_insert_comments:
  assumes "A = [] \<or> last A = NL" and "2 \<le> sz" and "\<forall>l\<in>set C. comment_line l \<and> length l \<le> sz"
  shows "filter (\<lambda>l. \<not> skip_line l) (fgets_all sz (A @ concat C @ B)) =
         filter (\<lambda>l. \<not> skip_line l) (fgets_all sz (A @ B))"
    and "filter visible (fgets_all sz (A @ concat C @ B)) = filter visible (fgets_all sz (A @ B))"
  using fgets_all_append[OF assms(1), of sz] fgets_skip_comment_lines[OF assms(2,3), of B]
  by simp_all

lemma comment_lines_rename:
  assumes "A = [] \<or> last A = NL" and "\<forall>l\<in>set C. comment_line l \<and> length l \<le> PATH_MAX"
  shows "check_line_mismatch (A @ concat C @ B) total_input = check_line_mismatch (A @ B) total_input"
    and "change_list args (fgets_all PATH_MAX (A @ concat C @ B)) 1 =
        change_list args (fgets_all PATH_MAX (A @ B)) 1"
    and "count_modified_names args (A @ concat C @ B) = count_modified_names args (A @ B)"
    and "rename_bulk_files sys autols args (A @ concat C @ B) modified s =
        rename_bulk_files sys autols args (A @ B) modified s"
proof -
  have p: "2 \<le> PATH_MAX"
    by (simp add: PATH_MAX_def)
  note r = fgets_insert_comments(1)[OF assms(1) p assms(2), of B]
  show "check_line_mismatch (A @ concat C @ B) total_input = check_line_mismatch (A @ B) total_input"
    unfolding check_line_mismatch_def count_lines_loop_filter r ..
  show "change_list args (fgets_all PATH_MAX (A @ concat C @ B)) 1 =
        change_list args (fgets_all PATH_MAX (A @ B)) 1"
    using change_list_filter[of args "fgets_all PATH_MAX (A @ concat C @ B)" 1]
      change_list_filter[of args "fgets_all PATH_MAX (A @ B)" 1] r by simp
  show "count_modified_names args (A @ concat C @ B) = count_modified_names args (A @ B)"
    using count_modified_loop_filter[of args "fgets_all PATH_MAX (A @ concat C @ B)" 1 "(0, [])"]
      count_modified_loop_filter[of args "fgets_all PATH_MAX (A @ B)" 1 "(0, [])"] r
    by (simp add: count_modified_names_def)
  show "rename_bulk_files sys autols args (A @ concat C @ B) modified s =
        rename_bulk_files sys autols args (A @ B) modified s"
    unfolding rename_bulk_files_def
    using rename_bulk_loop_filter[of sys autols modified args "fgets_all PATH_MAX (A @ concat C @ B)"]
      rename_bulk_loop_filter[of sys autols modified args "fgets_all PATH_MAX (A @ B)"] r
    by simp
qed

lemma comment_lines_remove:
  assumes "A = [] \<or> last A = NL" and "\<forall>l\<in>set C. comment_line l"
  shows "(\<forall>l\<in>set C. length l \<le> PATH_MAX + 6) \<Longrightarrow>
      diff_files env (A @ concat C @ B) n = diff_files env (A @ B) n"
    and "get_files_from_tmp_file env (A @ concat C @ B) = get_files_from_tmp_file env (A @ B)"
proof -
  note g = getline_insert_comments[OF assms, of B]
  show "get_files_from_tmp_file env (A @ concat C @ B) = get_files_from_tmp_file env (A @ B)"
    unfolding get_files_from_tmp_file_def get_files_loop_filter g ..
  assume "\<forall>l\<in>set C. length l \<le> PATH_MAX + 6"
  then have c6: "\<forall>l\<in>set C. comment_line l \<and> length l \<le> PATH_MAX + 6"
    using assms(2) by auto
  have p: "2 \<le> PATH_MAX + 6"
    by simp
  note d = fgets_insert_comments(2)[OF assms(1) p c6, of B]
  show "diff_files env (A @ concat C @ B) n = diff_files env (A @ B) n"
    unfolding diff_files_def diff_count_loop_filter d ..
qed

lemma prepare_arg_edited: "prepare_arg (env\<lparr>br_edited := d\<rparr>) a = prepare_arg env a"
  by (simp add: prepare_arg_def cong: option.case_cong if_cong)

lemma write_renfiles_loop_edited:
  "write_renfiles_loop (env\<lparr>br_edited := d\<rparr>) as acc = write_renfiles_loop env as acc"
  by (induction env as acc rule: write_renfiles_loop.induct)
    (auto simp add: prepare_arg_edited split: prod.splits bool.splits)

lemma rename_parts_edited:
  "write_renfiles_to_tmp (env\<lparr>br_edited := d\<rparr>) args f = write_renfiles_to_tmp env args f"
  "err_open_tmp_file (env\<lparr>br_edited := d\<rparr>) f = err_open_tmp_file env f"
  "open_bulk_file (env\<lparr>br_edited := d\<rparr>) f = open_bulk_file env f"
  "bulk_rename_error (env\<lparr>br_edited := d\<rparr>) f e = bulk_rename_error env f e"
  by (simp_all add: write_renfiles_to_tmp_def err_open_tmp_file_def open_bulk_file_def
      bulk_rename_error_def write_renfiles_loop_edited cong: option.case_cong prod.case_cong if_cong)

lemma bulk_rename_edited:
  assumes "\<And>total_input. check_line_mismatch d total_input = check_line_mismatch d' total_input"
    and "\<And>args. count_modified_names args d = count_modified_names args d'"
    and "\<And>autols args modified s. rename_bulk_files sys autols args d modified s =
        rename_bulk_files sys autols args d' modified s"
  shows "bulk_rename sys (env\<lparr>br_edited := d\<rparr>) args w = bulk_rename sys (env\<lparr>br_edited := d'\<rparr>) args w"
  by (simp add: bulk_rename_def rename_parts_edited assms Let_def
      cong: option.case_cong prod.case_cong if_cong)

lemma bulk_remove_edited:
  assumes "\<And>n. diff_files env d n = diff_files env d' n"
    and "get_files_from_tmp_file env d = get_files_from_tmp_file env d'"
  shows "bulk_remove sys (env\<lparr>rr_edited := d\<rparr>) s1 s2 w = bulk_remove sys (env\<lparr>rr_edited := d'\<rparr>) s1 s2 w"
  by (simp add: bulk_remove_def remove_parts_edited assms Let_def
      cong: option.case_cong prod.case_cong sum.case_cong if_cong)

text \<open>
  C5, as amended. Comment lines (a line that begins with \<^verbatim>\<open>#\<close>, or an empty line: a
  lone newline) are invisible to the Differ as long as they fit the line buffer of the loop
  that reads them: inserting any number of them at a line boundary of the document (\<open>A\<close>
  is empty or ends in a newline), or removing them from there, changes nothing. In the rename
  flow the bound is \<open>PATH_MAX\<close> bytes, the newline included: then the line count
  (\<^verbatim>\<open>check_line_mismatch\<close>), the change list, the renames and the outcome of
  \<^verbatim>\<open>bulk_rename\<close> are the same. In the remove flow the bound is \<open>PATH_MAX + 6\<close> bytes
  for the line count of \<^verbatim>\<open>diff_files\<close> and the outcome of \<^verbatim>\<open>bulk_remove\<close>, and there
  is no bound for the names that \<^verbatim>\<open>get_files_from_tmp_file\<close> reads with \<^verbatim>\<open>getline\<close>.
\<close>

theorem comment_lines_are_invisible:
  assumes "A = [] \<or> last A = NL" and "\<forall>l\<in>set C. comment_line l"
  shows "((\<forall>l\<in>set C. length l \<le> PATH_MAX) \<longrightarrow>
        check_line_mismatch (A @ concat C @ B) total_input = check_line_mismatch (A @ B) total_input
      \<and> change_list args (fgets_all PATH_MAX (A @ concat C @ B)) 1 =
          change_list args (fgets_all PATH_MAX (A @ B)) 1
      \<and> count_modified_names args (A @ concat C @ B) = count_modified_names args (A @ B)
      \<and> rename_bulk_files sys autols args (A @ concat C @ B) modified s =
          rename_bulk_files sys autols args (A @ B) modified s
      \<and> bulk_rename sys (benv\<lparr>br_edited := A @ concat C @ B\<rparr>) args w =
          bulk_rename sys (benv\<lparr>br_edited := A @ B\<rparr>) args w)
    \<and> ((\<forall>l\<in>set C. length l \<le> PATH_MAX + 6) \<longrightarrow>
        diff_files env (A @ concat C @ B) n = diff_files env (A @ B) n
      \<and> bulk_remove rsys (env\<lparr>rr_edited := A @ concat C @ B\<rparr>) s1 s2 rw =
          bulk_remove rsys (env\<lparr>rr_edited := A @ B\<rparr>) s1 s2 rw)
    \<and> get_files_from_tmp_file env (A @ concat C @ B) = get_files_from_tmp_file env (A @ B)"
proof (intro conjI impI)
  assume "\<forall>l\<in>set C. length l \<le> PATH_MAX"
  then have c: "\<forall>l\<in>set C. comment_line l \<and> length l \<le> PATH_MAX"
    using assms(2) by auto
  note p = comment_lines_rename[OF assms(1) c]
  show "check_line_mismatch (A @ concat C @ B) total_input = check_line_mismatch (A @ B) total_input"
    by (rule p)
  show "change_list args (fgets_all PATH_MAX (A @ concat C @ B)) 1 =
          change_list args (fgets_all PATH_MAX (A @ B)) 1"
    by (rule p)
  show "count_modified_names args (A @ concat C @ B) = count_modified_names args (A @ B)"
    by (rule p)
  show "rename_bulk_files sys autols args (A @ concat C @ B) modified s =
          rename_bulk_files sys autols args (A @ B) modified s"
    by (rule p)
  show "bulk_rename sys (benv\<lparr>br_edited := A @ concat C @ B\<rparr>) args w =
          bulk_rename sys (benv\<lparr>br_edited := A @ B\<rparr>) args w"
    by (rule bulk_rename_edited) (rule p)+
next
  assume c: "\<forall>l\<in>set C. length l \<le> PATH_MAX + 6"
  note d = comment_lines_remove(1)[OF assms c]
  note g = comment_lines_remove(2)[OF assms]
  show "diff_files env (A @ concat C @ B) n = diff_files env (A @ B) n"
    by (rule d)
  show "bulk_remove rsys (env\<lparr>rr_edited := A @ concat C @ B\<rparr>) s1 s2 rw =
          bulk_remove rsys (env\<lparr>rr_edited := A @ B\<rparr>) s1 s2 rw"
    by (rule bulk_remove_edited) (rule d g)+
next
  show "get_files_from_tmp_file env (A @ concat C @ B) = get_files_from_tmp_file env (A @ B)"
    by (rule comment_lines_remove(2)[OF assms])
qed

lemma long_comment_chunks:
  "fgets_all PATH_MAX ((CHR ''#'' # replicate 4095 (CHR ''x'') @ [NL]) @ unlines [''a'']) =
     [CHR ''#'' # replicate 4094 (CHR ''x''), ''x'' @ [NL], ''a'' @ [NL]]"
proof -
  have r: "replicate 4095 (CHR ''x'') = replicate 4094 (CHR ''x'') @ ''x''"
  proof -
    have "(4095::nat) = Suc 4094"
      by simp
    then show ?thesis
      by (simp only: replicate_Suc replicate_append_same)
  qed
  have e: "(CHR ''#'' # replicate 4095 (CHR ''x'') @ [NL]) @ unlines [''a''] =
      (CHR ''#'' # replicate 4094 (CHR ''x'')) @ unlines [''x'', ''a'']"
    unfolding r by (simp add: unlines_def)
  have n: "NL \<notin> set (CHR ''#'' # replicate 4094 (CHR ''x''))"
    by (simp add: NL_def)
  have l: "length (CHR ''#'' # replicate 4094 (CHR ''x'')) = PATH_MAX - 1" and p: "2 \<le> PATH_MAX"
    by (simp_all add: PATH_MAX_def)
  have s: "\<forall>l\<in>set [''x'', ''a'']. NL \<notin> set l \<and> length l + 1 < PATH_MAX"
    by (simp add: NL_def PATH_MAX_def)
  have "fgets_all PATH_MAX (unlines [''x'', ''a'']) = [''x'' @ [NL], ''a'' @ [NL]]"
    using fgets_all_lines[OF s, of "[]"] by (simp add: fgets_all_Nil)
  then show ?thesis
    unfolding e fgets_all_full[OF n l p] by simp
qed

lemma long_remove_comment_chunks:
  "fgets_all (PATH_MAX + 6) ((CHR ''#'' # replicate 4101 (CHR ''x'') @ [NL]) @ unlines [''x'']) =
     [CHR ''#'' # replicate 4100 (CHR ''x''), ''x'' @ [NL], ''x'' @ [NL]]"
proof -
  have r: "replicate 4101 (CHR ''x'') = replicate 4100 (CHR ''x'') @ ''x''"
  proof -
    have "(4101::nat) = Suc 4100"
      by simp
    then show ?thesis
      by (simp only: replicate_Suc replicate_append_same)
  qed
  have e: "(CHR ''#'' # replicate 4101 (CHR ''x'') @ [NL]) @ unlines [''x''] =
      (CHR ''#'' # replicate 4100 (CHR ''x'')) @ unlines [''x'', ''x'']"
    unfolding r by (simp add: unlines_def)
  have n: "NL \<notin> set (CHR ''#'' # replicate 4100 (CHR ''x''))"
    by (simp add: NL_def)
  have l: "length (CHR ''#'' # replicate 4100 (CHR ''x'')) = PATH_MAX + 6 - 1" and p: "2 \<le> PATH_MAX + 6"
    by (simp_all add: PATH_MAX_def)
  have s: "\<forall>l\<in>set [''x'', ''x'']. NL \<notin> set l \<and> length l + 1 < PATH_MAX + 6"
    by (simp add: NL_def PATH_MAX_def)
  have "fgets_all (PATH_MAX + 6) (unlines [''x'', ''x'']) = [''x'' @ [NL], ''x'' @ [NL]]"
    using fgets_all_lines[OF s, of "[]"] by (simp add: fgets_all_Nil)
  then show ?thesis
    unfolding e fgets_all_full[OF n l p] by simp
qed

text \<open>
  Only the first byte of a line is tested: a line that holds a space is neither a comment
  nor an empty line, and it is counted as a name in both flows.
\<close>

lemma space_line_is_counted:
  "check_line_mismatch (unlines ['' '', ''a'']) 1 =
     (EXIT_FAILURE, [Xerror ''br: Line mismatch in temporary file'' []])"
  "diff_count_loop (fgets_all (PATH_MAX + 6) (unlines ['' '', ''a''])) 0 = 2"
proof -
  have s: "\<forall>l\<in>set ['' '', ''a'']. NL \<notin> set l \<and> length l + 1 < PATH_MAX"
    "\<forall>l\<in>set ['' '', ''a'']. NL \<notin> set l \<and> length l + 1 < PATH_MAX + 6"
    by (simp_all add: NL_def PATH_MAX_def)
  have a: "fgets_all PATH_MAX (unlines ['' '', ''a'']) = ['' '' @ [NL], ''a'' @ [NL]]"
    using fgets_all_lines[OF s(1), of "[]"] by (simp add: fgets_all_Nil)
  have b: "fgets_all (PATH_MAX + 6) (unlines ['' '', ''a'']) = ['' '' @ [NL], ''a'' @ [NL]]"
    using fgets_all_lines[OF s(2), of "[]"] by (simp add: fgets_all_Nil)
  show "check_line_mismatch (unlines ['' '', ''a'']) 1 =
     (EXIT_FAILURE, [Xerror ''br: Line mismatch in temporary file'' []])"
    unfolding check_line_mismatch_def a by (simp add: skip_line_simps NL_def NUL_def)
  show "diff_count_loop (fgets_all (PATH_MAX + 6) (unlines ['' '', ''a''])) 0 = 2"
    unfolding b by (simp add: deref_def NL_def)
qed

text \<open>
  C5 as stated fails for a comment line that does not fit the buffer, and for a line of
  white space. \<^verbatim>\<open>fgets\<close> reads a line of \<^verbatim>\<open>#\<close> and 4095 letters (\<open>PATH_MAX + 1\<close>
  bytes) in two pieces, and the second piece does not begin with \<^verbatim>\<open>#\<close>, so it is
  counted: adding that comment line to a rename document with the one name \<^verbatim>\<open>a\<close> turns
  a matching line count into a line mismatch. In the remove flow a comment line of
  \<open>PATH_MAX + 7\<close> bytes added to a document with one name for two entries makes
  \<^verbatim>\<open>diff_files\<close> answer 0 (nothing to do) instead of 1. A line that holds one space is
  counted as a name.
\<close>

theorem long_comment_counterexample:
  "comment_line (CHR ''#'' # replicate 4095 (CHR ''x'') @ [NL])
   \<and> length (CHR ''#'' # replicate 4095 (CHR ''x'') @ [NL]) = PATH_MAX + 1
   \<and> check_line_mismatch (unlines [''a'']) 1 = (EXIT_SUCCESS, [])
   \<and> check_line_mismatch ((CHR ''#'' # replicate 4095 (CHR ''x'') @ [NL]) @ unlines [''a'']) 1 =
       (EXIT_FAILURE, [Xerror ''br: Line mismatch in temporary file'' []])
   \<and> comment_line (CHR ''#'' # replicate 4101 (CHR ''x'') @ [NL])
   \<and> length (CHR ''#'' # replicate 4101 (CHR ''x'') @ [NL]) = PATH_MAX + 7
   \<and> diff_files (demo_rr_env [] [] []) (unlines [''x'']) 2 = (1, [])
   \<and> diff_files (demo_rr_env [] [] [])
       ((CHR ''#'' # replicate 4101 (CHR ''x'') @ [NL]) @ unlines [''x'']) 2 = (0, [])
   \<and> check_line_mismatch (unlines ['' '', ''a'']) 1 =
       (EXIT_FAILURE, [Xerror ''br: Line mismatch in temporary file'' []])"
proof -
  have c: "comment_line (CHR ''#'' # replicate 4095 (CHR ''x'') @ [NL])"
    "comment_line (CHR ''#'' # replicate 4101 (CHR ''x'') @ [NL])"
    by (simp_all add: comment_line_def NL_def butlast_append)
  have len: "length (CHR ''#'' # replicate 4095 (CHR ''x'') @ [NL]) = PATH_MAX + 1"
    "length (CHR ''#'' # replicate 4101 (CHR ''x'') @ [NL]) = PATH_MAX + 7"
    by (simp_all add: PATH_MAX_def)
  have s: "\<forall>l\<in>set [''a'']. NL \<notin> set l \<and> length l + 1 < PATH_MAX"
    by (simp add: NL_def PATH_MAX_def)
  have a: "fgets_all PATH_MAX (unlines [''a'']) = [''a'' @ [NL]]"
    using fgets_all_lines[OF s, of "[]"] by (simp add: fgets_all_Nil)
  have 1: "check_line_mismatch (unlines [''a'']) 1 = (EXIT_SUCCESS, [])"
    unfolding check_line_mismatch_def a by (simp add: skip_line_simps NL_def NUL_def)
  have 2: "check_line_mismatch ((CHR ''#'' # replicate 4095 (CHR ''x'') @ [NL]) @ unlines [''a'']) 1 =
       (EXIT_FAILURE, [Xerror ''br: Line mismatch in temporary file'' []])"
    unfolding check_line_mismatch_def long_comment_chunks
    by (simp add: skip_line_simps NL_def NUL_def)
  have t: "\<forall>l\<in>set [''x'']. NL \<notin> set l \<and> length l + 1 < PATH_MAX + 6"
    by (simp add: NL_def PATH_MAX_def)
  have x: "fgets_all (PATH_MAX + 6) (unlines [''x'']) = [''x'' @ [NL]]"
    using fgets_all_lines[OF t, of "[]"] by (simp add: fgets_all_Nil)
  have 3: "diff_files (demo_rr_env [] [] []) (unlines [''x'']) 2 = (1, [])"
    unfolding diff_files_def x by (simp add: demo_rr_env_sel deref_def NL_def)
  have 4: "diff_files (demo_rr_env [] [] [])
       ((CHR ''#'' # replicate 4101 (CHR ''x'') @ [NL]) @ unlines [''x'']) 2 = (0, [])"
    unfolding diff_files_def long_remove_comment_chunks by (simp add: demo_rr_env_sel deref_def NL_def)
  show ?thesis
    using c len 1 2 3 4 space_line_is_counted(1) by blast
qed

theorem comment_lines_are_invisible_witness:
  "bulk_rename demo_sys
      ((demo_br_env [''a'', ''b''] [])\<lparr>br_edited :=
         BULK_RENAME_TMP_FILE_HEADER
           @ concat [CHR ''#'' # replicate 4094 (CHR ''x'') @ [NL], [NL]] @ unlines [''b'', ''a'']\<rparr>)
      [''br'', ''a'', ''b''] [''a'', ''b''] =
    bulk_rename demo_sys
      ((demo_br_env [''a'', ''b''] [])\<lparr>br_edited :=
         BULK_RENAME_TMP_FILE_HEADER @ unlines [''b'', ''a'']\<rparr>)
      [''br'', ''a'', ''b''] [''a'', ''b'']
   \<and> bulk_remove demo_sys
      ((demo_rr_env [(''x'', DT_DIR), (''y'', DT_REG), (''z'', DT_LNK)] [] [])\<lparr>rr_edited :=
         BULK_RM_TMP_FILE_HEADER
           @ concat [CHR ''#'' # replicate 4100 (CHR ''x'') @ [NL], [NL]] @ unlines [''x/'', ''z@'']\<rparr>)
      None None [''x'', ''y'', ''z''] =
    bulk_remove demo_sys
      ((demo_rr_env [(''x'', DT_DIR), (''y'', DT_REG), (''z'', DT_LNK)] [] [])\<lparr>rr_edited :=
         BULK_RM_TMP_FILE_HEADER @ unlines [''x/'', ''z@'']\<rparr>)
      None None [''x'', ''y'', ''z'']
   \<and> get_files_from_tmp_file (demo_rr_env [] [] [])
      (BULK_RM_TMP_FILE_HEADER
         @ concat [CHR ''#'' # replicate 5000 (CHR ''x'') @ [NL], [NL]] @ unlines [''x/'', ''z@'']) =
    get_files_from_tmp_file (demo_rr_env [] [] [])
      (BULK_RM_TMP_FILE_HEADER @ unlines [''x/'', ''z@''])"
proof -
  have h1: "BULK_RENAME_TMP_FILE_HEADER = [] \<or> last BULK_RENAME_TMP_FILE_HEADER = NL"
    by (simp add: BULK_RENAME_TMP_FILE_HEADER_def)
  have h2: "\<forall>l\<in>set [CHR ''#'' # replicate 4094 (CHR ''x'') @ [NL], [NL]]. comment_line l"
    "\<forall>l\<in>set [CHR ''#'' # replicate 4094 (CHR ''x'') @ [NL], [NL]]. length l \<le> PATH_MAX"
    by (simp_all add: comment_line_def NL_def PATH_MAX_def butlast_append)
  have h3: "BULK_RM_TMP_FILE_HEADER = [] \<or> last BULK_RM_TMP_FILE_HEADER = NL"
    by (simp add: BULK_RM_TMP_FILE_HEADER_def)
  have h4: "\<forall>l\<in>set [CHR ''#'' # replicate 4100 (CHR ''x'') @ [NL], [NL]]. comment_line l"
    "\<forall>l\<in>set [CHR ''#'' # replicate 4100 (CHR ''x'') @ [NL], [NL]]. length l \<le> PATH_MAX + 6"
    by (simp_all add: comment_line_def NL_def PATH_MAX_def butlast_append)
  have h5: "\<forall>l\<in>set [CHR ''#'' # replicate 5000 (CHR ''x'') @ [NL], [NL]]. comment_line l"
    by (simp add: comment_line_def NL_def butlast_append)
  have a: "bulk_rename demo_sys
      ((demo_br_env [''a'', ''b''] [])\<lparr>br_edited :=
         BULK_RENAME_TMP_FILE_HEADER
           @ concat [CHR ''#'' # replicate 4094 (CHR ''x'') @ [NL], [NL]] @ unlines [''b'', ''a'']\<rparr>)
      [''br'', ''a'', ''b''] [''a'', ''b''] =
    bulk_rename demo_sys
      ((demo_br_env [''a'', ''b''] [])\<lparr>br_edited :=
         BULK_RENAME_TMP_FILE_HEADER @ unlines [''b'', ''a'']\<rparr>)
      [''br'', ''a'', ''b''] [''a'', ''b'']"
    using comment_lines_are_invisible[OF h1 h2(1), where B = "unlines [''b'', ''a'']"
        and args = "[''br'', ''a'', ''b'']" and sys = demo_sys and w = "[''a'', ''b'']"
        and benv = "demo_br_env [''a'', ''b''] []", THEN conjunct1, THEN mp, OF h2(2)]
    by blast
  have b: "bulk_remove demo_sys
      ((demo_rr_env [(''x'', DT_DIR), (''y'', DT_REG), (''z'', DT_LNK)] [] [])\<lparr>rr_edited :=
         BULK_RM_TMP_FILE_HEADER
           @ concat [CHR ''#'' # replicate 4100 (CHR ''x'') @ [NL], [NL]] @ unlines [''x/'', ''z@'']\<rparr>)
      None None [''x'', ''y'', ''z''] =
    bulk_remove demo_sys
      ((demo_rr_env [(''x'', DT_DIR), (''y'', DT_REG), (''z'', DT_LNK)] [] [])\<lparr>rr_edited :=
         BULK_RM_TMP_FILE_HEADER @ unlines [''x/'', ''z@'']\<rparr>)
      None None [''x'', ''y'', ''z'']"
    using comment_lines_are_invisible[OF h3 h4(1), where B = "unlines [''x/'', ''z@'']"
        and env = "demo_rr_env [(''x'', DT_DIR), (''y'', DT_REG), (''z'', DT_LNK)] [] []"
        and rsys = demo_sys and rw = "[''x'', ''y'', ''z'']" and ?s1.0 = None and ?s2.0 = None,
        THEN conjunct2, THEN conjunct1, THEN mp, OF h4(2)]
    by blast
  have c: "get_files_from_tmp_file (demo_rr_env [] [] [])
      (BULK_RM_TMP_FILE_HEADER
         @ concat [CHR ''#'' # replicate 5000 (CHR ''x'') @ [NL], [NL]] @ unlines [''x/'', ''z@'']) =
    get_files_from_tmp_file (demo_rr_env [] [] [])
      (BULK_RM_TMP_FILE_HEADER @ unlines [''x/'', ''z@''])"
    using comment_lines_are_invisible[OF h3 h5, where B = "unlines [''x/'', ''z@'']"
        and env = "demo_rr_env [] [] []", THEN conjunct2, THEN conjunct2]
    by this
  show ?thesis
    using a b c by blast
qed

subsection \<open>Identity by position\<close>

lemma name_line_read:
  assumes "name_line l"
  shows "\<not> skip_line (l @ [NL])" and "chomp (l @ [NL]) = l"
proof -
  from assms obtain c cs where l: "l = c # cs" and c: "c \<noteq> CHR ''#''" "c \<noteq> NL" "c \<noteq> NUL"
    by (cases l) (auto simp add: name_line_def)
  show "\<not> skip_line (l @ [NL])"
    using l c by (simp add: skip_line_simps)
  have "cstr (l @ [NL]) = l @ [NL]"
    using assms by (intro cstr_id) (auto simp add: name_line_def NL_def NUL_def)
  then show "chomp (l @ [NL]) = l"
    by (simp add: chomp_def)
qed

lemma change_list_zip:
  assumes "\<forall>l\<in>set ls. name_line l"
  shows "change_list args (map (\<lambda>l. l @ [NL]) ls) i =
     filter (\<lambda>(a, l). a \<noteq> l) (zip (drop i args) ls)"
  using assms
proof (induction ls arbitrary: i)
  case Nil
  then show ?case by simp
next
  case (Cons l ls)
  then have n: "name_line l" and ih: "\<And>i. change_list args (map (\<lambda>l. l @ [NL]) ls) i =
     filter (\<lambda>(a, l). a \<noteq> l) (zip (drop i args) ls)"
    by simp_all
  note r = name_line_read[OF n]
  show ?case
  proof (cases "i < length args")
    case True
    then have d: "drop i args = args ! i # drop (Suc i) args"
      by (simp add: Cons_nth_drop_Suc)
    show ?thesis
      using True r ih[of "Suc i"] by (simp add: arg_at_def d)
  next
    case False
    then show ?thesis
      using r ih[of "Suc i"] by (simp add: arg_at_def)
  qed
qed

text \<open>
  X1. Identity by position in the rename flow. When the edited document is the header
  followed by lines that hold names, the change list pairs the i-th line with
  \<^verbatim>\<open>args[i]\<close> and keeps the pairs that differ, and \<^verbatim>\<open>rename_bulk_files\<close> calls
  \<^verbatim>\<open>renameat\<close> on exactly these pairs, in order: with the two lines of \<^verbatim>\<open>a\<close> and
  \<^verbatim>\<open>b\<close> swapped it renames \<^verbatim>\<open>a\<close> to \<^verbatim>\<open>b\<close> and then \<^verbatim>\<open>b\<close> to \<^verbatim>\<open>a\<close>.
\<close>

theorem rename_is_positional:
  assumes "\<forall>l\<in>set ls. name_line l"
  shows "change_list args (fgets_all PATH_MAX (BULK_RENAME_TMP_FILE_HEADER @ unlines ls)) 1 =
      filter (\<lambda>(a, l). a \<noteq> l) (zip (tl args) ls)
    \<and> filter is_renameat
        (events (rename_bulk_files sys autols args (BULK_RENAME_TMP_FILE_HEADER @ unlines ls)
           modified (w, []))) =
      map (\<lambda>(a, l). Renameat a (trim_slash l)) (filter (\<lambda>(a, l). a \<noteq> l) (zip (tl args) ls))"
proof -
  have s: "\<forall>l\<in>set ls. NL \<notin> set l \<and> length l + 1 < PATH_MAX"
    using assms by (simp add: name_line_def)
  have v: "filter (\<lambda>l. \<not> skip_line l) (map (\<lambda>l. l @ [NL]) ls) = map (\<lambda>l. l @ [NL]) ls"
    using assms name_line_read(1) by (simp add: filter_id_conv)
  have c: "change_list args (fgets_all PATH_MAX (BULK_RENAME_TMP_FILE_HEADER @ unlines ls)) 1 =
      filter (\<lambda>(a, l). a \<noteq> l) (zip (tl args) ls)"
    using change_list_filter[of args "fgets_all PATH_MAX (BULK_RENAME_TMP_FILE_HEADER @ unlines ls)" 1]
      change_list_zip[OF assms, of args 1]
    by (simp add: fgets_rename_doc[OF s] v drop_Suc)
  have "filter is_renameat
        (events (rename_bulk_files sys autols args (BULK_RENAME_TMP_FILE_HEADER @ unlines ls)
           modified (w, []))) =
      map (\<lambda>(a, l). Renameat a (trim_slash l))
        (change_list args (fgets_all PATH_MAX (BULK_RENAME_TMP_FILE_HEADER @ unlines ls)) 1)"
    by (simp add: rename_bulk_files_def loop_renameat_events)
  with c show ?thesis
    by simp
qed

theorem rename_is_positional_witness:
  "change_list [''br'', ''a'', ''b'']
      (fgets_all PATH_MAX (BULK_RENAME_TMP_FILE_HEADER @ unlines [''b'', ''a''])) 1 =
     [(''a'', ''b''), (''b'', ''a'')]
   \<and> filter is_renameat
        (events (rename_bulk_files demo_sys True [''br'', ''a'', ''b'']
           (BULK_RENAME_TMP_FILE_HEADER @ unlines [''b'', ''a'']) 2 ([''a'', ''b''], []))) =
     [Renameat ''a'' ''b'', Renameat ''b'' ''a'']"
proof -
  have n: "\<forall>l\<in>set [''b'', ''a'']. name_line l"
    by (simp add: name_line_def NL_def NUL_def PATH_MAX_def)
  show ?thesis
    using rename_is_positional[OF n, of "[''br'', ''a'', ''b'']" demo_sys True 2 "[''a'', ''b'']"]
    by (simp add: trim_slash_def)
qed

subsection \<open>Names that begin with a number sign\<close>

text \<open>
  No name read back by \<^verbatim>\<open>get_files_from_tmp_file\<close> begins with \<^verbatim>\<open>#\<close>: such a line is
  skipped as a comment.
\<close>

lemma hash_name_not_read:
  assumes "r \<in> set (get_files_loop ls acc)" and "r \<noteq> []" and "hd r = CHR ''#''"
  shows "r \<in> set acc"
proof -
  have "r \<in> set acc \<or> r \<in> set (map (\<lambda>l. cstr (strip_suffix (strip_newline l))) (filter visible ls))"
    using assms(1) by (auto simp add: get_files_loop_filter)
  moreover have "False" if "r \<in> set (map (\<lambda>l. cstr (strip_suffix (strip_newline l))) (filter visible ls))"
  proof -
    from that obtain l where l: "visible l" and r: "r = cstr (strip_suffix (strip_newline l))"
      by auto
    have p: "\<And>s. butlast s \<noteq> [] \<Longrightarrow> hd (butlast s) = hd s"
      by (metis butlast.simps(2) list.collapse list.sel(1) butlast.simps(1))
    have 1: "strip_newline l \<noteq> [] \<Longrightarrow> hd (strip_newline l) = hd l"
      using p[of l] by (auto simp add: strip_newline_def split: if_splits)
    have 2: "strip_suffix (strip_newline l) \<noteq> [] \<Longrightarrow>
        hd (strip_suffix (strip_newline l)) = hd (strip_newline l)"
      using p[of "strip_newline l"] by (auto simp add: strip_suffix_def split: if_splits)
    have 3: "\<And>s. cstr s \<noteq> [] \<Longrightarrow> hd (cstr s) = hd s \<and> s \<noteq> []"
      by (metis cstr_def hd_Cons_tl list.sel(1) takeWhile.simps(1) takeWhile.simps(2) list.distinct(1))
    have n: "strip_suffix (strip_newline l) \<noteq> []" and h: "hd r = hd (strip_suffix (strip_newline l))"
      using 3[of "strip_suffix (strip_newline l)"] assms(2) r by auto
    have n2: "strip_newline l \<noteq> []"
      using n by (auto simp add: strip_suffix_def split: if_splits)
    have "hd r = hd l"
      using h 2[OF n] 1[OF n2] by simp
    moreover have "l \<noteq> []"
      using n2 by (auto simp add: strip_newline_def split: if_splits)
    ultimately show False
      using l assms(3) by (cases l) (auto simp add: visible_def deref_def)
  qed
  ultimately show ?thesis
    by blast
qed

text \<open>
  X2. An entry of the listing whose name begins with \<^verbatim>\<open>#\<close> is in the removal list of
  \<^verbatim>\<open>get_remove_files\<close> for the current directory whatever the edited document holds: the
  line that \<^verbatim>\<open>print_file\<close> wrote for it is read back as a comment, so the name is never
  among the names kept.
\<close>

theorem hash_names_are_always_removed:
  assumes "name \<in> fst ` set (rr_file_info env)" and "name \<noteq> []" and "hd name = CHR ''#''"
  shows "name \<in> set (get_remove_files env Cwd (get_files_loop (getline_all content) []) a)"
proof -
  have r: "name \<notin> set (get_files_loop (getline_all content) [])"
    using hash_name_not_read[of name "getline_all content" "[]"] assms(2,3) by auto
  have d: "\<not> SELFORPARENT name"
    using assms(2,3) by (auto simp add: SELFORPARENT_def)
  show ?thesis
    using assms(1) r d by (auto simp add: get_remove_files_cwd)
qed

theorem hash_names_are_always_removed_witness:
  "''#notes#'' \<in> set (get_remove_files
       (demo_rr_env [(''#notes#'', DT_REG), (''y'', DT_REG)] [] [])
       Cwd (get_files_loop (getline_all (BULK_RM_TMP_FILE_HEADER @ unlines [''#notes#''])) []) [])"
proof -
  have m: "''#notes#'' \<in> fst ` set (rr_file_info (demo_rr_env [(''#notes#'', DT_REG), (''y'', DT_REG)] [] []))"
    by (simp add: demo_rr_env_sel)
  show ?thesis
    using hash_names_are_always_removed[OF m] by simp
qed

end
